(* ===== verification/Hive_Prelude.thy ===== *)
theory Hive_Prelude
  imports Complex_Main "HOL-Library.Multiset" "HOL-Library.Word"
begin

text \<open>
  What the component theories share: the reading of Go's basic types, the sweep of a map by a
  \<^verbatim>\<open>for range\<close> loop, the string functions of Go's \<^verbatim>\<open>strings\<close> package the sources call, decoded
  JSON values, and the two interfaces several components implement: a log that keeps its last
  entries (\<open>capped_log\<close>) and a queue ordered by priority, first come first served within one
  priority (\<open>priority_fifo\<close>), and a table that is swept of stale entries (\<open>map_sweeper\<close>).

  Conventions. A Go \<^verbatim>\<open>int\<close> or \<^verbatim>\<open>int64\<close> is an \<open>int\<close>; where the wrap-around of 64 bits can be reached
  it is written out with \<open>wrap64\<close>. A \<^verbatim>\<open>float64\<close> is a \<open>real\<close> (rounding is not modelled).
  A \<^verbatim>\<open>time.Time\<close> is an \<open>int\<close>, nanoseconds, with 0 for the zero time; a \<^verbatim>\<open>time.Duration\<close> is an \<open>int\<close>
  of nanoseconds. \<^verbatim>\<open>time.Now()\<close> is an argument \<open>now\<close> of the operation that reads the clock.
  A Go string is a list of bytes. A Go map is a partial function; a loop that ranges over it takes
  the keys in the order the runtime chose, so every statement holds for every order.
  A mutex makes an operation atomic: each operation is one function on the state.
\<close>

section \<open>Go's numbers and times\<close>

named_theorems go_defs \<open>definitions of Go's arithmetic and string primitives\<close>
named_theorems sweep_simps \<open>what is left in a map after a range loop\<close>

type_synonym gotime = int
type_synonym duration = int

abbreviation second :: duration where
  "second \<equiv> 1000000000"

definition wrap64 :: "int \<Rightarrow> int" where
  "wrap64 x = (x + 2 ^ 63) mod 2 ^ 64 - 2 ^ 63"

definition go_div :: "int \<Rightarrow> int \<Rightarrow> int" where
  "go_div a b = (if (a < 0) = (b < 0) then \<bar>a\<bar> div \<bar>b\<bar> else - (\<bar>a\<bar> div \<bar>b\<bar>))"

definition go_mod :: "int \<Rightarrow> int \<Rightarrow> int" where
  "go_mod a b = a - b * go_div a b"

definition trunc_float :: "real \<Rightarrow> int" where
  "trunc_float x = (if 0 \<le> x then \<lfloor>x\<rfloor> else \<lceil>x\<rceil>)"

lemma wrap64_id [simp]: "- (2 ^ 63) \<le> x \<Longrightarrow> x < 2 ^ 63 \<Longrightarrow> wrap64 x = x"
  by (simp add: wrap64_def)

lemma wrap64_range: "- (2 ^ 63) \<le> wrap64 x" "wrap64 x < 2 ^ 63"
proof -
  have "0 \<le> (x + 2 ^ 63) mod 2 ^ 64" "(x + 2 ^ 63) mod 2 ^ 64 < 2 ^ 64"
    by (auto intro: pos_mod_sign pos_mod_bound)
  then show "- (2 ^ 63) \<le> wrap64 x" "wrap64 x < 2 ^ 63"
    by (simp_all add: wrap64_def)
qed

lemma go_div_nonneg [simp]: "0 \<le> a \<Longrightarrow> 0 < b \<Longrightarrow> go_div a b = a div b"
  by (simp add: go_div_def)

lemma go_mod_nonneg [simp]: "0 \<le> a \<Longrightarrow> 0 < b \<Longrightarrow> go_mod a b = a mod b"
  by (simp add: go_mod_def minus_mult_div_eq_mod)

lemma trunc_float_of_int [simp]: "trunc_float (of_int n) = n"
  by (simp add: trunc_float_def)

lemma trunc_float_nonneg: "0 \<le> x \<Longrightarrow> 0 \<le> trunc_float x"
  by (simp add: trunc_float_def)

section \<open>Results of handlers and calls\<close>

text \<open>
  \<open>reply\<close> is what an HTTP handler writes: \<^verbatim>\<open>http.Error(w, msg, code)\<close> or a successful body.
\<close>

datatype 'a reply = HttpError string int | HttpOK 'a

section \<open>Lists\<close>

definition last_n :: "nat \<Rightarrow> 'a list \<Rightarrow> 'a list" where
  "last_n n xs = drop (length xs - n) xs"

lemma length_last_n [simp]: "length (last_n n xs) = min n (length xs)"
  by (simp add: last_n_def)

lemma last_n_short [simp]: "length xs \<le> n \<Longrightarrow> last_n n xs = xs"
  by (simp add: last_n_def)

lemma last_n_last_n_append [simp]: "last_n n (last_n n xs @ ys) = last_n n (xs @ ys)"
proof (cases "length xs \<le> n")
  case False
  then have "length xs + length ys - n = (length xs - n) + length ys" by simp
  with False show ?thesis
    by (simp add: last_n_def add.commute)
qed simp

lemma drop_last_n: "0 \<le> m \<Longrightarrow> drop (nat (int (length xs) - m)) xs = last_n (nat m) xs"
  by (simp add: last_n_def nat_diff_distrib')

lemma rev_last_n: "rev (last_n n xs) = take n (rev xs)"
  by (cases "n \<le> length xs") (simp_all add: last_n_def rev_drop)

lemma set_last_n: "set (last_n n xs) \<subseteq> set xs"
  by (simp add: last_n_def set_drop_subset)

lemma last_n_snoc_full:
  "length xs = n \<Longrightarrow> 0 < n \<Longrightarrow> last_n n (xs @ [x]) = tl xs @ [x]"
  by (cases xs) (auto simp: last_n_def)

fun find_index :: "('a \<Rightarrow> bool) \<Rightarrow> 'a list \<Rightarrow> nat option" where
  "find_index P [] = None"
| "find_index P (x # xs) = (if P x then Some 0 else map_option Suc (find_index P xs))"

lemma find_index_None: "find_index P xs = None \<longleftrightarrow> (\<forall>x \<in> set xs. \<not> P x)"
  by (induction xs) auto

lemma find_index_SomeD:
  "find_index P xs = Some i \<Longrightarrow> i < length xs \<and> P (xs ! i) \<and> (\<forall>j < i. \<not> P (xs ! j))"
proof (induction xs arbitrary: i)
  case Nil
  then show ?case by simp
next
  case (Cons x xs)
  then show ?case
    by (auto split: if_splits simp: less_Suc_eq_0_disj nth_Cons')
qed

definition remove_nth :: "nat \<Rightarrow> 'a list \<Rightarrow> 'a list" where
  "remove_nth i xs = take i xs @ drop (Suc i) xs"

lemma length_remove_nth [simp]: "i < length xs \<Longrightarrow> length (remove_nth i xs) = length xs - 1"
  by (simp add: remove_nth_def)

lemma mset_remove_nth: "i < length xs \<Longrightarrow> add_mset (xs ! i) (mset (remove_nth i xs)) = mset xs"
  by (metis id_take_nth_drop mset.simps(2) mset_append remove_nth_def union_mset_add_mset_right)

lemma set_remove_nth: "set (remove_nth i xs) \<subseteq> set xs"
  by (auto simp: remove_nth_def dest: in_set_takeD in_set_dropD)

lemma sorted_wrt_remove_nth:
  assumes "sorted_wrt R xs"
  shows "sorted_wrt R (remove_nth i xs)"
proof -
  have "sorted_wrt R (take i xs @ drop i xs)" using assms by simp
  moreover have "set (drop (Suc i) xs) \<subseteq> set (drop i xs)" by (simp add: set_drop_subset_set_drop)
  ultimately show ?thesis
    unfolding remove_nth_def sorted_wrt_append using assms by (auto intro: sorted_wrt_drop)
qed

section \<open>Maps and range loops\<close>

text \<open>
  \<open>ranges ks m\<close>: \<open>ks\<close> is an order in which \<^verbatim>\<open>for k, v := range m\<close> may visit \<open>m\<close>. \<open>sweep\<close> is such a
  loop that deletes the entries satisfying \<open>P\<close>; \<open>visit\<close> is one that rewrites every entry in place.
\<close>

definition ranges :: "'k list \<Rightarrow> ('k \<rightharpoonup> 'v) \<Rightarrow> bool" where
  "ranges ks m \<longleftrightarrow> distinct ks \<and> set ks = dom m"

fun sweep :: "('v \<Rightarrow> bool) \<Rightarrow> 'k list \<Rightarrow> ('k \<rightharpoonup> 'v) \<Rightarrow> ('k \<rightharpoonup> 'v)" where
  "sweep P [] m = m"
| "sweep P (k # ks) m =
     sweep P ks (case m k of None \<Rightarrow> m | Some v \<Rightarrow> if P v then m(k := None) else m)"

fun visit :: "('v \<Rightarrow> 'v) \<Rightarrow> 'k list \<Rightarrow> ('k \<rightharpoonup> 'v) \<Rightarrow> ('k \<rightharpoonup> 'v)" where
  "visit f [] m = m"
| "visit f (k # ks) m =
     visit f ks (case m k of None \<Rightarrow> m | Some v \<Rightarrow> m(k \<mapsto> f v))"

lemma sweep_apply [sweep_simps]:
  "sweep P ks m k = (case m k of None \<Rightarrow> None | Some v \<Rightarrow> if k \<in> set ks \<and> P v then None else Some v)"
  by (induction ks arbitrary: m) (auto split: option.splits)

lemma visit_apply [sweep_simps]:
  "distinct ks \<Longrightarrow> visit f ks m k = (if k \<in> set ks then map_option f (m k) else m k)"
  by (induction ks arbitrary: m) (auto split: option.splits)

lemma sweep_ranges [sweep_simps]:
  "ranges ks m \<Longrightarrow> sweep P ks m k = (case m k of None \<Rightarrow> None | Some v \<Rightarrow> if P v then None else Some v)"
  by (auto simp: ranges_def sweep_apply split: option.splits)

lemma visit_ranges [sweep_simps]: "ranges ks m \<Longrightarrow> visit f ks m k = map_option f (m k)"
  by (auto simp: ranges_def visit_apply domIff)

lemma dom_sweep: "ranges ks m \<Longrightarrow> dom (sweep P ks m) = {k \<in> dom m. \<not> P (the (m k))}"
  by (auto simp: sweep_ranges split: option.splits if_splits)

lemma ranges_finite: "ranges ks m \<Longrightarrow> finite (dom m)"
  by (metis List.finite_set ranges_def)

lemma ranges_card: "ranges ks m \<Longrightarrow> length ks = card (dom m)"
  by (metis distinct_card ranges_def)

lemma ranges_values: "ranges ks m \<Longrightarrow> set (map (the \<circ> m) ks) = ran m"
  by (force simp: ranges_def ran_def)

section \<open>Go strings\<close>

definition has_prefix :: "string \<Rightarrow> string \<Rightarrow> bool" where
  "has_prefix s p \<longleftrightarrow> length p \<le> length s \<and> take (length p) s = p"

definition trim_prefix :: "string \<Rightarrow> string \<Rightarrow> string" where
  "trim_prefix s p = (if has_prefix s p then drop (length p) s else s)"

fun str_contains :: "string \<Rightarrow> string \<Rightarrow> bool" where
  "str_contains [] sub = (sub = [])"
| "str_contains (c # cs) sub = (has_prefix (c # cs) sub \<or> str_contains cs sub)"

text \<open>
  \<open>str_split s sep\<close> is \<^verbatim>\<open>strings.Split\<close> for a nonempty separator: the pieces between the
  occurrences found from left to right. \<open>trim_space\<close> and \<open>to_lower\<close> treat the ASCII characters.
\<close>

function str_split_aux :: "string \<Rightarrow> string \<Rightarrow> string \<Rightarrow> string list" where
  "str_split_aux sep acc [] = [rev acc]"
| "str_split_aux sep acc (c # cs) =
     (if sep \<noteq> [] \<and> has_prefix (c # cs) sep
      then rev acc # str_split_aux sep [] (drop (length sep) (c # cs))
      else str_split_aux sep (c # acc) cs)"
  by pat_completeness auto
termination
  by (relation "measure (\<lambda>(sep, acc, s). length s)") auto

definition str_split :: "string \<Rightarrow> string \<Rightarrow> string list" where
  "str_split s sep = str_split_aux sep [] s"

definition is_space :: "char \<Rightarrow> bool" where
  "is_space c \<longleftrightarrow> c \<in> {CHR '' '', CHR 0x09, CHR 0x0A, CHR 0x0B, CHR 0x0C, CHR 0x0D}"

definition trim_space :: "string \<Rightarrow> string" where
  "trim_space s = rev (dropWhile is_space (rev (dropWhile is_space s)))"

definition lower_char :: "char \<Rightarrow> char" where
  "lower_char c = (if 65 \<le> (of_char c :: nat) \<and> (of_char c :: nat) \<le> 90
     then char_of ((of_char c :: nat) + 32) else c)"

definition to_lower :: "string \<Rightarrow> string" where
  "to_lower s = map lower_char s"

text \<open>Decimal digits: \<^verbatim>\<open>%d\<close>.\<close>

fun dec_nat :: "nat \<Rightarrow> string" where
  "dec_nat n = (if n < 10 then [char_of (48 + n)] else dec_nat (n div 10) @ [char_of (48 + n mod 10)])"

declare dec_nat.simps [simp del]

definition dec_int :: "int \<Rightarrow> string" where
  "dec_int i = (if i < 0 then CHR ''-'' # dec_nat (nat (- i)) else dec_nat (nat i))"

text \<open>
  \<^verbatim>\<open>strconv.Atoi\<close> and \<^verbatim>\<open>strconv.ParseInt\<close> in base ten with 64 bits: an optional sign and at least one digit, within range.
\<close>

definition digit_value :: "char \<Rightarrow> nat option" where
  "digit_value c = (let n = of_char c :: nat in if 48 \<le> n \<and> n \<le> 57 then Some (n - 48) else None)"

fun digits_value :: "nat \<Rightarrow> string \<Rightarrow> nat option" where
  "digits_value acc [] = Some acc"
| "digits_value acc (c # cs) = (case digit_value c of None \<Rightarrow> None | Some d \<Rightarrow> digits_value (10 * acc + d) cs)"

definition in_int64 :: "int \<Rightarrow> int option" where
  "in_int64 i = (if - (2 ^ 63) \<le> i \<and> i < 2 ^ 63 then Some i else None)"

definition Atoi :: "string \<Rightarrow> int option" where
  "Atoi s = (case s of
     [] \<Rightarrow> None
   | c # cs \<Rightarrow>
       let neg = (c = CHR ''-''); ds = (if c = CHR ''-'' \<or> c = CHR ''+'' then cs else s)
       in if ds = [] then None
          else case digits_value 0 ds of
              None \<Rightarrow> None
            | Some n \<Rightarrow> in_int64 (if neg then - int n else int n))"

lemma has_prefix_iff: "has_prefix s p \<longleftrightarrow> (\<exists>t. s = p @ t)"
  by (auto simp: has_prefix_def) (metis append_take_drop_id)

lemma trim_prefix_append [simp]: "trim_prefix (p @ s) p = s"
  by (simp add: trim_prefix_def has_prefix_def)

lemma has_prefix_Nil [simp]: "has_prefix s []"
  by (simp add: has_prefix_def)

lemma str_contains_iff: "str_contains s sub \<longleftrightarrow> (\<exists>a b. s = a @ sub @ b)"
proof (induction s)
  case Nil
  then show ?case by auto
next
  case (Cons c cs)
  show ?case
  proof
    assume "str_contains (c # cs) sub"
    then show "\<exists>a b. c # cs = a @ sub @ b"
    proof (cases "has_prefix (c # cs) sub")
      case True
      then show ?thesis by (metis append_Nil has_prefix_iff)
    next
      case False
      with \<open>str_contains (c # cs) sub\<close> obtain a b where "cs = a @ sub @ b"
        using Cons.IH by auto
      then show ?thesis by (metis append_Cons)
    qed
  next
    assume "\<exists>a b. c # cs = a @ sub @ b"
    then obtain a b where ab: "c # cs = a @ sub @ b" by blast
    show "str_contains (c # cs) sub"
    proof (cases a)
      case Nil
      with ab have "has_prefix (c # cs) sub" unfolding has_prefix_iff by auto
      then show ?thesis by simp
    next
      case (Cons d a')
      with ab have "cs = a' @ sub @ b" by simp
      then show ?thesis using Cons.IH by auto
    qed
  qed
qed

lemma lower_char_idem [simp]: "lower_char (lower_char c) = lower_char c"
proof (cases "65 \<le> (of_char c :: nat) \<and> (of_char c :: nat) \<le> 90")
  case True
  then have "of_char (char_of ((of_char c :: nat) + 32)) = (of_char c :: nat) + 32" by simp
  with True show ?thesis by (simp add: lower_char_def)
qed (auto simp: lower_char_def)

lemma to_lower_idem [simp]: "to_lower (to_lower s) = to_lower s"
  by (simp add: to_lower_def)

lemma digit_value_digit [simp]: "d < 10 \<Longrightarrow> digit_value (char_of (48 + d)) = Some d"
  by (simp add: digit_value_def Let_def)

lemma digits_value_append:
  "digits_value acc (xs @ ys) = Option.bind (digits_value acc xs) (\<lambda>v. digits_value v ys)"
  by (induction xs arbitrary: acc) (auto split: option.splits)

lemma digits_value_dec_nat: "digits_value 0 (dec_nat n) = Some n"
proof (induction n rule: dec_nat.induct)
  case (1 n)
  show ?case
  proof (cases "n < 10")
    case True
    then show ?thesis by (simp add: dec_nat.simps [of n])
  next
    case False
    then have "digits_value 0 (dec_nat n) = digits_value (n div 10) [char_of (48 + n mod 10)]"
      using 1 by (simp add: dec_nat.simps [of n] digits_value_append)
    also have "\<dots> = Some n" by simp
    finally show ?thesis .
  qed
qed

lemma dec_nat_head: "\<exists>(d::nat) ds. dec_nat n = char_of (48 + d) # ds \<and> d < 10"
proof (induction n rule: dec_nat.induct)
  case (1 n)
  show ?case
  proof (cases "n < 10")
    case True
    then show ?thesis by (intro exI [of _ n] exI [of _ "[]"]) (simp add: dec_nat.simps [of n])
  next
    case False
    with 1 obtain d ds where "dec_nat (n div 10) = char_of (48 + d :: nat) # ds" "d < 10" by blast
    with False show ?thesis
      by (intro exI [of _ d] exI [of _ "ds @ [char_of (48 + n mod 10)]"]) (simp add: dec_nat.simps [of n])
  qed
qed

lemma digit_no_sign: "d < 10 \<Longrightarrow> char_of (48 + d :: nat) \<noteq> CHR ''-'' \<and> char_of (48 + d :: nat) \<noteq> CHR ''+''"
proof -
  assume d: "d < 10"
  have "of_char (char_of (48 + d :: nat)) = 48 + d" using d by simp
  moreover have "of_char CHR ''-'' = (45 :: nat)" "of_char CHR ''+'' = (43 :: nat)" by simp_all
  moreover have "48 + d \<noteq> 45" "48 + d \<noteq> 43" by simp_all
  ultimately show ?thesis by metis
qed

text \<open>A number written in decimal, as an operator writes \<^verbatim>\<open>CAPACITY\<close>, is read back.\<close>

lemma Atoi_dec_int:
  assumes "- (2 ^ 63) \<le> i" "i < 2 ^ 63"
  shows "Atoi (dec_int i) = Some i"
proof -
  obtain d :: nat and ds where "dec_nat (nat i) = char_of (48 + d) # ds" "d < 10" using dec_nat_head by blast
  moreover have "dec_nat (nat (- i)) \<noteq> []" using dec_nat_head by (metis list.distinct(1))
  ultimately show ?thesis
    using assms digit_no_sign [of d] digits_value_dec_nat [of "nat i"] digits_value_dec_nat [of "nat (- i)"]
    by (auto simp: Atoi_def dec_int_def in_int64_def Let_def)
qed

lemma Atoi_range: "Atoi s = Some i \<Longrightarrow> - (2 ^ 63) \<le> i \<and> i < 2 ^ 63"
  by (auto simp: Atoi_def in_int64_def Let_def split: list.splits option.splits if_splits)

section \<open>Decoded JSON\<close>

text \<open>
  What \<^verbatim>\<open>json.Unmarshal\<close> into an \<^verbatim>\<open>interface{}\<close> yields. An object is an association list without
  duplicate keys; a type assertion \<^verbatim>\<open>m["k"].(string)\<close> is \<open>get_str m ''k''\<close>.
\<close>

datatype json = JNull | JBool bool | JNum real | JStr string | JArr "json list"
  | JObj "(string \<times> json) list"

type_synonym jobj = "(string \<times> json) list"

definition get_str :: "jobj \<Rightarrow> string \<Rightarrow> string option" where
  "get_str m k = (case map_of m k of Some (JStr s) \<Rightarrow> Some s | _ \<Rightarrow> None)"

definition get_num :: "jobj \<Rightarrow> string \<Rightarrow> real option" where
  "get_num m k = (case map_of m k of Some (JNum x) \<Rightarrow> Some x | _ \<Rightarrow> None)"

definition get_bool :: "jobj \<Rightarrow> string \<Rightarrow> bool option" where
  "get_bool m k = (case map_of m k of Some (JBool b) \<Rightarrow> Some b | _ \<Rightarrow> None)"

definition get_obj :: "jobj \<Rightarrow> string \<Rightarrow> jobj option" where
  "get_obj m k = (case map_of m k of Some (JObj x) \<Rightarrow> Some x | _ \<Rightarrow> None)"

definition get_arr :: "jobj \<Rightarrow> string \<Rightarrow> json list option" where
  "get_arr m k = (case map_of m k of Some (JArr x) \<Rightarrow> Some x | _ \<Rightarrow> None)"

text \<open>The zero value a failed type assertion leaves: \<^verbatim>\<open>s, _ := m["k"].(string)\<close>.\<close>

definition str_or_empty :: "string option \<Rightarrow> string" where
  "str_or_empty v = (case v of None \<Rightarrow> [] | Some s \<Rightarrow> s)"

fun put_key :: "jobj \<Rightarrow> string \<Rightarrow> json \<Rightarrow> jobj" where
  "put_key [] k v = [(k, v)]"
| "put_key ((k', v') # m) k v = (if k' = k then (k, v) # m else (k', v') # put_key m k v)"

lemma map_of_put_key [simp]: "map_of (put_key m k v) = (map_of m)(k \<mapsto> v)"
  by (induction m) auto

lemma str_or_empty_simps [simp]: "str_or_empty None = []" "str_or_empty (Some s) = s"
  by (simp_all add: str_or_empty_def)

lemmas json_get_defs = get_str_def get_num_def get_bool_def get_obj_def get_arr_def

section \<open>Interfaces several components implement\<close>

text \<open>
  A log with a bound: adding an entry keeps the newest \<open>cap\<close> ones. The request history, the log
  ring buffer and the metric samples are such logs.
\<close>

locale capped_log =
  fixes add :: "'s \<Rightarrow> 'a \<Rightarrow> 's"
    and contents :: "'s \<Rightarrow> 'a list"
    and invar :: "'s \<Rightarrow> bool"
    and cap :: "'s \<Rightarrow> nat"
  assumes contents_add: "invar s \<Longrightarrow> contents (add s x) = last_n (cap s) (contents s @ [x])"
    and invar_add: "invar s \<Longrightarrow> invar (add s x)"
    and cap_add: "cap (add s x) = cap s"
    and invar_bounded: "invar s \<Longrightarrow> length (contents s) \<le> cap s"
begin

lemma adds_keep_last:
  "invar s \<Longrightarrow> contents (foldl add s xs) = last_n (cap s) (contents s @ xs)"
proof (induction xs arbitrary: s)
  case Nil
  then show ?case using invar_bounded [of s] by simp
next
  case (Cons x xs)
  then show ?case by (simp add: contents_add invar_add cap_add)
qed

lemma adds_invar: "invar s \<Longrightarrow> invar (foldl add s xs)"
  by (induction xs arbitrary: s) (auto simp: invar_add)

lemma adds_bounded: "invar s \<Longrightarrow> length (contents (foldl add s xs)) \<le> cap s"
  by (simp add: adds_keep_last)

end

text \<open>
  A queue that serves by rank (smaller first) and, within a rank, in order of arrival. The one-step
  law says where a new element goes; it follows that a run of insertions is a stable sort.
\<close>

definition stable_insert :: "('a \<Rightarrow> int) \<Rightarrow> 'a \<Rightarrow> 'a list \<Rightarrow> 'a list" where
  "stable_insert f x xs = filter (\<lambda>y. f y \<le> f x) xs @ x # filter (\<lambda>y. \<not> f y \<le> f x) xs"

lemma mset_stable_insert [simp]: "mset (stable_insert f x xs) = add_mset x (mset xs)"
  by (simp add: stable_insert_def mset_filter)

lemma sorted_stable_insert: "sorted (map f xs) \<Longrightarrow> sorted (map f (stable_insert f x xs))"
  by (auto simp: stable_insert_def sorted_append sorted_filter)

lemma filter_stable_insert:
  "filter (\<lambda>y. f y = r) (stable_insert f x xs)
     = filter (\<lambda>y. f y = r) xs @ (if f x = r then [x] else [])"
proof -
  have A: "filter (\<lambda>y. f y = r) (filter (\<lambda>y. f y \<le> f x) xs)
      = (if r \<le> f x then filter (\<lambda>y. f y = r) xs else [])"
    by (induction xs) auto
  have B: "filter (\<lambda>y. f y = r) (filter (\<lambda>y. \<not> f y \<le> f x) xs)
      = (if r \<le> f x then [] else filter (\<lambda>y. f y = r) xs)"
    by (induction xs) auto
  show ?thesis
    unfolding stable_insert_def filter_append filter.simps A B by auto
qed

text \<open>The inputs of a run that were accepted, in order.\<close>

fun accepted :: "('s \<Rightarrow> 'i \<Rightarrow> bool) \<Rightarrow> ('s \<Rightarrow> 'i \<Rightarrow> 's) \<Rightarrow> 's \<Rightarrow> 'i list \<Rightarrow> 'i list" where
  "accepted ok step s [] = []"
| "accepted ok step s (x # xs) =
     (if ok s x then x # accepted ok step (step s x) xs else accepted ok step (step s x) xs)"

locale priority_fifo =
  fixes enq :: "'s \<Rightarrow> 'i \<Rightarrow> 's"
    and items :: "'s \<Rightarrow> 'a list"
    and elem :: "'i \<Rightarrow> 'a"
    and rank :: "'a \<Rightarrow> int"
    and accepts :: "'s \<Rightarrow> 'i \<Rightarrow> bool"
    and invar :: "'s \<Rightarrow> bool"
  assumes items_enq: "invar s \<Longrightarrow> accepts s x \<Longrightarrow> sorted (map rank (items s)) \<Longrightarrow>
      items (enq s x) = stable_insert rank (elem x) (items s)"
    and items_refused: "invar s \<Longrightarrow> \<not> accepts s x \<Longrightarrow> items (enq s x) = items s"
    and invar_enq: "invar s \<Longrightarrow> invar (enq s x)"
begin

definition served :: "'s \<Rightarrow> 'i list \<Rightarrow> 'a list" where
  "served s xs = items s @ map elem (accepted accepts enq s xs)"

lemma enq_sorted:
  "invar s \<Longrightarrow> sorted (map rank (items s)) \<Longrightarrow> sorted (map rank (items (enq s x)))"
  by (cases "accepts s x") (auto simp: items_enq items_refused sorted_stable_insert)

lemma enqs_sorted:
  "invar s \<Longrightarrow> sorted (map rank (items s)) \<Longrightarrow> sorted (map rank (items (foldl enq s xs)))"
  by (induction xs arbitrary: s) (auto simp: enq_sorted invar_enq)

lemma enqs_mset:
  "invar s \<Longrightarrow> sorted (map rank (items s)) \<Longrightarrow> mset (items (foldl enq s xs)) = mset (served s xs)"
proof (induction xs arbitrary: s)
  case (Cons x xs)
  then show ?case
    using Cons.IH [OF invar_enq enq_sorted, of s x]
    by (cases "accepts s x") (auto simp: items_enq items_refused served_def)
qed (simp add: served_def)

lemma enqs_filter:
  "invar s \<Longrightarrow> sorted (map rank (items s)) \<Longrightarrow>
     filter (\<lambda>y. rank y = r) (items (foldl enq s xs)) = filter (\<lambda>y. rank y = r) (served s xs)"
proof (induction xs arbitrary: s)
  case (Cons x xs)
  then show ?case
    using Cons.IH [OF invar_enq enq_sorted, of s x]
    by (cases "accepts s x") (auto simp: items_enq items_refused filter_stable_insert served_def)
qed (simp add: served_def)

text \<open>A run of insertions is the stable sort, by rank, of what was there and what was accepted.\<close>

lemma enqs_stable_sort:
  assumes "invar s" "sorted (map rank (items s))"
  shows "items (foldl enq s xs) = sort_key rank (items s @ map elem (accepted accepts enq s xs))"
proof -
  let ?ys = "items (foldl enq s xs)"
  have eq: "(\<lambda>x. rank k = rank x) = (\<lambda>x. rank x = rank k)" for k by auto
  have "sort_key rank (served s xs) = ?ys"
  proof (rule properties_for_sort_key)
    show "mset ?ys = mset (served s xs)" by (rule enqs_mset [OF assms])
    show "filter (\<lambda>x. rank k = rank x) ?ys = filter (\<lambda>x. rank k = rank x) (served s xs)"
      if "k \<in> set ?ys" for k
      unfolding eq by (rule enqs_filter [OF assms])
    show "sorted (map rank ?ys)" by (rule enqs_sorted [OF assms])
  qed
  then show ?thesis by (simp add: served_def)
qed

end

text \<open>
  A table swept of stale entries by a timer: the request buckets of the rate limiter, the clients,
  the mesh peers, the finished jobs and the cached responses.
\<close>

locale map_sweeper =
  fixes entries :: "'s \<Rightarrow> ('k \<rightharpoonup> 'v)"
    and tick :: "'t::linorder \<Rightarrow> 'k list \<Rightarrow> 's \<Rightarrow> 's"
    and stale :: "'s \<Rightarrow> 't \<Rightarrow> 'v \<Rightarrow> bool"
  assumes entries_tick: "entries (tick t ks s) = sweep (stale s t) ks (entries s)"
    and stale_mono: "stale s t v \<Longrightarrow> t \<le> t' \<Longrightarrow> stale s t' v"
    and stale_config: "stale (tick t ks s) = stale s"
begin

lemma tick_exact:
  "ranges ks (entries s) \<Longrightarrow>
     entries (tick t ks s) k = Some v \<longleftrightarrow> entries s k = Some v \<and> \<not> stale s t v"
  by (auto simp: entries_tick sweep_ranges split: option.splits if_splits)

lemma tick_order:
  "ranges ks (entries s) \<Longrightarrow> ranges ks' (entries s) \<Longrightarrow> entries (tick t ks s) = entries (tick t ks' s)"
  by (auto simp: entries_tick sweep_ranges fun_eq_iff)

lemma tick_twice:
  assumes "ranges ks (entries s)" "ranges ks' (entries (tick t ks s))" "t \<le> t'"
  shows "entries (tick t' ks' (tick t ks s)) = entries (tick t' ks s)"
proof
  fix k
  show "entries (tick t' ks' (tick t ks s)) k = entries (tick t' ks s) k"
    using assms stale_mono [of s t _ t']
    by (auto simp: entries_tick stale_config sweep_ranges split: option.splits)
qed

end

text \<open>
  A system of steps with an invariant that every step keeps: then it holds wherever the steps lead.
\<close>

locale invariant_system =
  fixes step :: "'s \<Rightarrow> 's \<Rightarrow> bool"
    and invar :: "'s \<Rightarrow> bool"
  assumes invar_step: "step s t \<Longrightarrow> invar s \<Longrightarrow> invar t"
begin

lemma invar_reach: "step\<^sup>*\<^sup>* s t \<Longrightarrow> invar s \<Longrightarrow> invar t"
  by (induction rule: rtranclp_induct) (auto intro: invar_step)

lemma invar_run: "step\<^sup>*\<^sup>* s t \<Longrightarrow> invar s \<Longrightarrow> step t u \<Longrightarrow> invar u"
  by (blast intro: invar_step invar_reach)

end

end
