(* ===== verification/Req_Queue.thy ===== *)
theory Req_Queue
  imports Hive_Prelude
begin

text \<open>
  The cluster node's request queue and request history, \<^verbatim>\<open>internal/queue/queue.go\<close>. The queue holds
  pointers to requests that its users go on writing to, so a request lives in a heap and the queue
  holds addresses. The theory shows that the queue is a stable sort by falling priority, that it
  never exceeds its bound, what \<^verbatim>\<open>Dequeue\<close> and \<^verbatim>\<open>Cancel\<close> return, and that the history keeps the newest
  requests and lists them newest first.
\<close>

section \<open>Data\<close>

datatype RequestStatus = StatusPending | StatusRunning | StatusComplete | StatusFailed | StatusTimeout

definition PriorityLow :: int where "PriorityLow = 0"
definition PriorityNormal :: int where "PriorityNormal = 1"
definition PriorityHigh :: int where "PriorityHigh = 2"

record Request =
  rq_ID :: string
  rq_Model :: string
  rq_Priority :: int
  rq_Status :: RequestStatus
  rq_NodeID :: string
  rq_CreatedAt :: gotime
  rq_StartedAt :: "gotime option"
  rq_CompletedAt :: "gotime option"
  rq_Error :: string
  rq_Metadata :: string

type_synonym req_addr = nat
type_synonym req_heap = "req_addr \<Rightarrow> Request"

text \<open>\<open>q_notify\<close> is the channel of capacity one: full or empty.\<close>

record Queue =
  q_items :: "req_addr list"
  q_maxSize :: int
  q_notify :: bool

record History =
  h_requests :: "req_addr list"
  h_maxSize :: int

record Stats =
  st_Total :: int
  st_Pending :: int
  st_Running :: int
  st_Completed :: int
  st_Failed :: int

section \<open>Queue operations\<close>

text \<open>\<^verbatim>\<open>make([]*Request, 0, maxSize)\<close> panics on a negative capacity: \<open>None\<close>.\<close>

definition queue_New :: "int \<Rightarrow> Queue option" where
  "queue_New maxSize = (if maxSize < 0 then None
     else Some \<lparr>q_items = [], q_maxSize = maxSize, q_notify = False\<rparr>)"

text \<open>The loop that looks for the first item of lower priority.\<close>

fun insertIdx :: "req_heap \<Rightarrow> int \<Rightarrow> req_addr list \<Rightarrow> nat" where
  "insertIdx h p [] = 0"
| "insertIdx h p (a # as) = (if rq_Priority (h a) < p then 0 else Suc (insertIdx h p as))"

definition Enqueue :: "gotime \<Rightarrow> req_addr \<Rightarrow> req_heap \<times> Queue \<Rightarrow> bool \<times> req_heap \<times> Queue" where
  "Enqueue now a = (\<lambda>(h, q).
     if int (length (q_items q)) \<ge> q_maxSize q then (False, h, q)
     else
       let h' = h(a := (h a)\<lparr>rq_Status := StatusPending, rq_CreatedAt := now\<rparr>);
           i = insertIdx h' (rq_Priority (h' a)) (q_items q)
       in (True, h', q\<lparr>q_items := take i (q_items q) @ a # drop i (q_items q), q_notify := True\<rparr>))"

definition Dequeue :: "Queue \<Rightarrow> req_addr option \<times> Queue" where
  "Dequeue q = (case q_items q of [] \<Rightarrow> (None, q) | a # as \<Rightarrow> (Some a, q\<lparr>q_items := as\<rparr>))"

definition Peek :: "Queue \<Rightarrow> req_addr option" where
  "Peek q = (case q_items q of [] \<Rightarrow> None | a # as \<Rightarrow> Some a)"

definition Len :: "Queue \<Rightarrow> int" where
  "Len q = int (length (q_items q))"

definition queue_List :: "Queue \<Rightarrow> req_addr list" where
  "queue_List q = q_items q"

definition Cancel :: "string \<Rightarrow> req_heap \<times> Queue \<Rightarrow> bool \<times> req_heap \<times> Queue" where
  "Cancel reqID = (\<lambda>(h, q).
     case find_index (\<lambda>a. rq_ID (h a) = reqID \<and> rq_Status (h a) = StatusPending) (q_items q) of
       None \<Rightarrow> (False, h, q)
     | Some i \<Rightarrow>
         let a = q_items q ! i
         in (True, h(a := (h a)\<lparr>rq_Status := StatusFailed\<rparr>), q\<lparr>q_items := remove_nth i (q_items q)\<rparr>))"

text \<open>Receiving from \<^verbatim>\<open>Notify()\<close>: the token of the channel, if there is one.\<close>

definition Notify :: "Queue \<Rightarrow> bool \<times> Queue" where
  "Notify q = (q_notify q, q\<lparr>q_notify := False\<rparr>)"

section \<open>History operations\<close>

definition NewHistory :: "int \<Rightarrow> History option" where
  "NewHistory maxSize = (if maxSize < 0 then None else Some \<lparr>h_requests = [], h_maxSize = maxSize\<rparr>)"

definition history_Add :: "History \<Rightarrow> req_addr \<Rightarrow> History" where
  "history_Add s a =
     (let rs = h_requests s @ [a]
      in s\<lparr>h_requests := (if int (length rs) > h_maxSize s
             then drop (nat (int (length rs) - h_maxSize s)) rs else rs)\<rparr>)"

text \<open>The loop that swaps ends from the outside in, on positions \<open>i < j\<close>.\<close>

function swap_loop :: "'a list \<Rightarrow> nat \<Rightarrow> nat \<Rightarrow> 'a list" where
  "swap_loop xs i j = (if i < j then swap_loop (xs[i := xs ! j, j := xs ! i]) (Suc i) (j - 1) else xs)"
  by pat_completeness auto
termination
  by (relation "measure (\<lambda>(xs, i, j). j - i)") auto

declare swap_loop.simps [simp del]

text \<open>A negative limit makes the slice expression panic: \<open>None\<close>.\<close>

definition history_List :: "History \<Rightarrow> int \<Rightarrow> req_addr list option" where
  "history_List s limit =
     (let n = int (length (h_requests s));
          start = (if n > limit then n - limit else 0)
      in if start > n then None
         else let result = drop (nat start) (h_requests s)
              in Some (swap_loop result 0 (length result - 1)))"

definition history_Stats :: "req_heap \<Rightarrow> History \<Rightarrow> Stats" where
  "history_Stats h s = foldl (\<lambda>st a. case rq_Status (h a) of
       StatusComplete \<Rightarrow> st\<lparr>st_Completed := st_Completed st + 1\<rparr>
     | StatusFailed \<Rightarrow> st\<lparr>st_Failed := st_Failed st + 1\<rparr>
     | StatusTimeout \<Rightarrow> st\<lparr>st_Failed := st_Failed st + 1\<rparr>
     | _ \<Rightarrow> st)
     \<lparr>st_Total = 0, st_Pending = 0, st_Running = 0, st_Completed = 0, st_Failed = 0\<rparr>
     (h_requests s)"

lemmas queue_op_defs = Enqueue_def Dequeue_def Peek_def Len_def Cancel_def Let_def

section \<open>The queue is ordered\<close>

definition queue_ok :: "req_heap \<Rightarrow> Queue \<Rightarrow> bool" where
  "queue_ok h q \<longleftrightarrow> sorted (map (\<lambda>a. - rq_Priority (h a)) (q_items q))
     \<and> int (length (q_items q)) \<le> q_maxSize q"

lemma insertIdx_le: "insertIdx h p as \<le> length as"
  by (induction as) auto

lemma insertIdx_stable:
  assumes "sorted (map (\<lambda>b. - rq_Priority (h b)) as)"
  shows "take (insertIdx h (rq_Priority (h a)) as) as @ a # drop (insertIdx h (rq_Priority (h a)) as) as
    = stable_insert (\<lambda>b. - rq_Priority (h b)) a as"
  using assms
proof (induction as)
  case Nil
  then show ?case by (simp add: stable_insert_def)
next
  case (Cons b bs)
  show ?case
  proof (cases "rq_Priority (h b) < rq_Priority (h a)")
    case True
    with Cons.prems have "\<forall>c \<in> set bs. \<not> - rq_Priority (h c) \<le> - rq_Priority (h a)" by auto
    then have "filter (\<lambda>c. - rq_Priority (h c) \<le> - rq_Priority (h a)) bs = []"
      "filter (\<lambda>c. \<not> - rq_Priority (h c) \<le> - rq_Priority (h a)) bs = bs"
      by (auto simp: filter_empty_conv intro!: filter_True)
    with True show ?thesis by (simp add: stable_insert_def)
  next
    case False
    with Cons show ?thesis by (simp add: stable_insert_def)
  qed
qed

definition enq_step :: "req_heap \<times> Queue \<Rightarrow> gotime \<times> req_addr \<Rightarrow> req_heap \<times> Queue" where
  "enq_step s = (\<lambda>(now, a). snd (Enqueue now a s))"

definition has_room :: "req_heap \<times> Queue \<Rightarrow> gotime \<times> req_addr \<Rightarrow> bool" where
  "has_room = (\<lambda>(h, q) _. int (length (q_items q)) < q_maxSize q)"

lemma Enqueue_priority:
  "rq_Priority (fst (snd (Enqueue now a (h, q))) b) = rq_Priority (h b)"
  by (auto simp: queue_op_defs)

lemma Enqueue_items:
  assumes "int (length (q_items q)) < q_maxSize q"
    and "sorted (map (\<lambda>b. - rq_Priority (h b)) (q_items q))"
  shows "q_items (snd (snd (Enqueue now a (h, q)))) = stable_insert (\<lambda>b. - rq_Priority (h b)) a (q_items q)"
proof -
  let ?h = "h(a := (h a)\<lparr>rq_Status := StatusPending, rq_CreatedAt := now\<rparr>)"
  have eq: "(\<lambda>b. - rq_Priority (?h b)) = (\<lambda>b. - rq_Priority (h b))" by auto
  have "sorted (map (\<lambda>b. - rq_Priority (?h b)) (q_items q))" unfolding eq by (rule assms(2))
  note this [THEN insertIdx_stable [where h = ?h and a = a], unfolded eq]
  with assms(1) show ?thesis
    by (simp add: queue_op_defs del: fun_upd_apply)
qed

text \<open>The queue is a priority queue that serves each priority in order of arrival.\<close>

interpretation rq: priority_fifo enq_step "\<lambda>(h, q). q_items q" snd "\<lambda>a. - pri a" has_room
    "\<lambda>(h, q). \<forall>a. rq_Priority (h a) = pri a" for pri :: "req_addr \<Rightarrow> int"
proof
  fix s :: "req_heap \<times> Queue" and x :: "gotime \<times> req_addr"
  assume inv: "case s of (h, q) \<Rightarrow> \<forall>a. rq_Priority (h a) = pri a"
  obtain h q now a where sx: "s = (h, q)" "x = (now, a)" by (metis surj_pair)
  then have pri: "pri = (\<lambda>b. rq_Priority (h b))" using inv by auto
  show "(case enq_step s x of (h, q) \<Rightarrow> q_items q) = stable_insert (\<lambda>a. - pri a) (snd x) (case s of (h, q) \<Rightarrow> q_items q)"
    if "has_room s x" "sorted (map (\<lambda>a. - pri a) (case s of (h, q) \<Rightarrow> q_items q))"
    using that Enqueue_items [of q h now a] unfolding sx pri
    by (simp add: has_room_def enq_step_def case_prod_unfold)
  show "(case enq_step s x of (h, q) \<Rightarrow> q_items q) = (case s of (h, q) \<Rightarrow> q_items q)"
    if "\<not> has_room s x"
    using that unfolding sx by (simp add: has_room_def enq_step_def queue_op_defs)
  show "case enq_step s x of (h, q) \<Rightarrow> \<forall>a. rq_Priority (h a) = pri a"
    using Enqueue_priority [of now a h q] unfolding sx pri
    by (simp add: enq_step_def case_prod_unfold)
qed

text \<open>
  C7. Requests put into an empty queue come to stand, whatever the arrival times, in the stable
  sort of the accepted ones by falling priority: higher priorities first, and requests of one
  priority in order of arrival. A request is accepted exactly while there is room.
\<close>

theorem Enqueue_stable_sort:
  assumes "queue_New n = Some q"
  shows "q_items (snd (foldl enq_step (h, q) xs))
    = sort_key (\<lambda>a. - rq_Priority (h a)) (map snd (accepted has_room enq_step (h, q) xs))"
  using rq.enqs_stable_sort [of "\<lambda>a. rq_Priority (h a)" "(h, q)" xs] assms
  by (auto simp: queue_New_def case_prod_unfold split: if_splits)

definition sample_req :: "string \<Rightarrow> int \<Rightarrow> Request" where
  "sample_req i p = \<lparr>rq_ID = i, rq_Model = ''m'', rq_Priority = p, rq_Status = StatusPending, rq_NodeID = [],
     rq_CreatedAt = 0, rq_StartedAt = None, rq_CompletedAt = None, rq_Error = [], rq_Metadata = []\<rparr>"

definition sample_heap :: req_heap where
  "sample_heap = (\<lambda>a. sample_req ''r'' 0)(1 := sample_req ''a'' 0, 2 := sample_req ''b'' 2,
     3 := sample_req ''c'' 1, 4 := sample_req ''d'' 2)"

definition sample_queue :: Queue where
  "sample_queue = \<lparr>q_items = [], q_maxSize = 3, q_notify = False\<rparr>"

theorem Enqueue_stable_sort_witness:
  "queue_New 3 = Some sample_queue \<and>
   q_items (snd (foldl enq_step (sample_heap, sample_queue) [(10, 1), (11, 2), (12, 4), (13, 3)])) = [2, 4, 1]"
proof -
  have q: "queue_New 3 = Some sample_queue" by (simp add: queue_New_def sample_queue_def)
  have "map snd (accepted has_room enq_step (sample_heap, sample_queue) [(10, 1), (11, 2), (12, 4), (13, 3)])
      = [1, 2, 4]"
    by (simp add: has_room_def enq_step_def queue_op_defs sample_heap_def sample_queue_def sample_req_def)
  with Enqueue_stable_sort [OF q, of sample_heap "[(10, 1), (11, 2), (12, 4), (13, 3)]"] q show ?thesis
    by (simp add: sample_heap_def sample_req_def)
qed

section \<open>Runs of the queue\<close>

text \<open>
  Every way the state can change: a caller allocates a request that is not queued, a handler writes
  to a request (never to its priority), and the operations of the queue.
\<close>

inductive queue_step :: "req_heap \<times> Queue \<Rightarrow> req_heap \<times> Queue \<Rightarrow> bool" where
  alloc: "a \<notin> set (q_items q) \<Longrightarrow> queue_step (h, q) (h(a := r), q)"
| handler_write: "rq_Priority r = rq_Priority (h a) \<Longrightarrow> queue_step (h, q) (h(a := r), q)"
| enqueue: "queue_step s (snd (Enqueue now a s))"
| dequeue: "queue_step (h, q) (h, snd (Dequeue q))"
| cancel: "queue_step s (snd (Cancel i s))"
| notify: "queue_step (h, q) (h, snd (Notify q))"

inductive_cases queue_stepE: "queue_step s t"

lemma queue_ok_Enqueue:
  assumes "queue_ok h q"
  shows "case snd (Enqueue now a (h, q)) of (h', q') \<Rightarrow> queue_ok h' q' \<and> q_maxSize q' = q_maxSize q"
proof (cases "int (length (q_items q)) < q_maxSize q")
  case True
  let ?s = "snd (Enqueue now a (h, q))"
  have pri: "(\<lambda>b. - rq_Priority (fst ?s b)) = (\<lambda>b. - rq_Priority (h b))"
    by (simp add: Enqueue_priority)
  have items: "q_items (snd ?s) = stable_insert (\<lambda>b. - rq_Priority (h b)) a (q_items q)"
    using True assms by (simp add: Enqueue_items queue_ok_def)
  have "length (q_items (snd ?s)) = Suc (length (q_items q))"
    unfolding items by (metis mset_stable_insert size_add_mset size_mset)
  moreover have "q_maxSize (snd ?s) = q_maxSize q" by (simp add: queue_op_defs)
  ultimately show ?thesis
    using True assms unfolding case_prod_unfold queue_ok_def pri
    by (simp add: items sorted_stable_insert)
next
  case False
  then have "Enqueue now a (h, q) = (False, h, q)" by (simp add: queue_op_defs)
  then show ?thesis using assms by simp
qed

lemma queue_ok_Cancel:
  assumes "queue_ok h q"
  shows "case snd (Cancel i (h, q)) of (h', q') \<Rightarrow> queue_ok h' q' \<and> q_maxSize q' = q_maxSize q"
proof (cases "find_index (\<lambda>a. rq_ID (h a) = i \<and> rq_Status (h a) = StatusPending) (q_items q)")
  case None
  with assms show ?thesis by (simp add: queue_op_defs)
next
  case (Some k)
  let ?a = "q_items q ! k"
  have eq: "(\<lambda>b. - rq_Priority ((h(?a := (h ?a)\<lparr>rq_Status := StatusFailed\<rparr>)) b)) = (\<lambda>b. - rq_Priority (h b))"
    by auto
  have "sorted (map (\<lambda>b. - rq_Priority (h b)) (remove_nth k (q_items q)))"
    using assms by (simp add: queue_ok_def sorted_map sorted_wrt_remove_nth)
  with Some assms find_index_SomeD [OF Some] show ?thesis
    by (simp add: queue_op_defs queue_ok_def eq del: fun_upd_apply)
qed

lemma queue_ok_step:
  assumes "queue_step s t" "queue_ok (fst s) (snd s)"
  shows "queue_ok (fst t) (snd t) \<and> q_maxSize (snd t) = q_maxSize (snd s)"
  using assms
proof (induction rule: queue_step.induct)
  case (alloc a q h r)
  then have "map (\<lambda>b. - rq_Priority ((h(a := r)) b)) (q_items q) = map (\<lambda>b. - rq_Priority (h b)) (q_items q)"
    by auto
  with alloc show ?case by (simp only: queue_ok_def fst_conv snd_conv simp_thms)
next
  case (handler_write r h a q)
  then have "(\<lambda>b. - rq_Priority ((h(a := r)) b)) = (\<lambda>b. - rq_Priority (h b))" by auto
  with handler_write show ?case by (simp only: queue_ok_def fst_conv snd_conv simp_thms)
next
  case (enqueue s now a)
  then show ?case using queue_ok_Enqueue [of "fst s" "snd s" now a] by (simp add: case_prod_unfold)
next
  case (dequeue h q)
  then show ?case by (auto simp: queue_ok_def queue_op_defs split: list.splits)
next
  case (cancel s i)
  then show ?case using queue_ok_Cancel [of "fst s" "snd s" i] by (simp add: case_prod_unfold)
next
  case (notify h q)
  then show ?case by (simp add: Notify_def queue_ok_def)
qed

lemma queue_ok_steps:
  "queue_step\<^sup>*\<^sup>* s t \<Longrightarrow> queue_ok (fst s) (snd s) \<Longrightarrow>
     queue_ok (fst t) (snd t) \<and> q_maxSize (snd t) = q_maxSize (snd s)"
  by (induction rule: rtranclp_induct) (auto dest: queue_ok_step)

text \<open>
  In every state a queue can reach, whatever its users do, it holds at most \<^verbatim>\<open>maxSize\<close> requests,
  and what \<^verbatim>\<open>Dequeue\<close> hands out has the highest priority in the queue; the rest stays as it was.
\<close>

theorem Dequeue_highest:
  assumes "queue_New n = Some q" and "queue_step\<^sup>*\<^sup>* (h, q) (h', q')"
  shows "Len q' \<le> n \<and>
    (case Dequeue q' of
       (None, q'') \<Rightarrow> Len q' = 0 \<and> q'' = q'
     | (Some a, q'') \<Rightarrow> q_items q' = a # q_items q'' \<and>
         (\<forall>b \<in> set (q_items q''). rq_Priority (h' b) \<le> rq_Priority (h' a)))"
proof -
  have "queue_ok h q \<and> q_maxSize q = n"
    using assms(1) by (auto simp: queue_New_def queue_ok_def split: if_splits)
  then have "queue_ok h' q' \<and> q_maxSize q' = n"
    using queue_ok_steps [OF assms(2)] by simp
  then show ?thesis
    by (auto simp: queue_ok_def queue_op_defs split: list.splits)
qed

theorem Dequeue_highest_witness:
  "queue_New 3 = Some sample_queue \<and>
   (\<exists>h' q'. queue_step\<^sup>*\<^sup>* (sample_heap, sample_queue) (h', q') \<and> Len q' \<le> 3 \<and> fst (Dequeue q') = Some 2)"
proof -
  have q: "queue_New 3 = Some sample_queue" by (simp add: queue_New_def sample_queue_def)
  let ?s1 = "snd (Enqueue 10 1 (sample_heap, sample_queue))"
  let ?s2 = "snd (Enqueue 11 2 ?s1)"
  have "queue_step (sample_heap, sample_queue) ?s1" "queue_step ?s1 ?s2" by (rule queue_step.enqueue)+
  then have run: "queue_step\<^sup>*\<^sup>* (sample_heap, sample_queue) (fst ?s2, snd ?s2)" by simp
  have "fst (Dequeue (snd ?s2)) = Some 2"
    by (simp add: queue_op_defs sample_heap_def sample_queue_def sample_req_def)
  with Dequeue_highest [OF q run] q run show ?thesis by blast
qed

text \<open>
  \<^verbatim>\<open>Cancel\<close> succeeds exactly when the queue holds a pending request of that ID. It then takes one
  such request out, marks it failed, and leaves the other requests in order; otherwise nothing
  changes.
\<close>

theorem Cancel_spec:
  "(fst (Cancel i (h, q)) \<longleftrightarrow>
      (\<exists>a \<in> set (q_items q). rq_ID (h a) = i \<and> rq_Status (h a) = StatusPending)) \<and>
   (case Cancel i (h, q) of (ok, h', q') \<Rightarrow>
      if ok then \<exists>xs a ys. q_items q = xs @ a # ys \<and> q_items q' = xs @ ys \<and>
         rq_ID (h a) = i \<and> rq_Status (h a) = StatusPending \<and>
         h' = h(a := (h a)\<lparr>rq_Status := StatusFailed\<rparr>)
      else h' = h \<and> q' = q)"
proof (cases "find_index (\<lambda>a. rq_ID (h a) = i \<and> rq_Status (h a) = StatusPending) (q_items q)")
  case None
  then have "Cancel i (h, q) = (False, h, q)" by (simp add: Cancel_def)
  with None show ?thesis by (simp add: find_index_None)
next
  case (Some k)
  let ?it = "q_items q"
  have it: "?it = take k ?it @ ?it ! k # drop (Suc k) ?it"
    and P: "rq_ID (h (?it ! k)) = i" "rq_Status (h (?it ! k)) = StatusPending" "?it ! k \<in> set ?it"
    using find_index_SomeD [OF Some] id_take_nth_drop [of k ?it] by auto
  with Some have "\<exists>xs a ys. ?it = xs @ a # ys \<and> remove_nth k ?it = xs @ ys \<and>
         rq_ID (h a) = i \<and> rq_Status (h a) = StatusPending \<and>
         h(?it ! k := (h (?it ! k))\<lparr>rq_Status := StatusFailed\<rparr>) = h(a := (h a)\<lparr>rq_Status := StatusFailed\<rparr>)"
    unfolding remove_nth_def by blast
  with Some P show ?thesis by (auto simp: Cancel_def Let_def simp del: fun_upd_apply)
qed

section \<open>The history\<close>

definition history_ok :: "History \<Rightarrow> bool" where
  "history_ok s \<longleftrightarrow> 0 \<le> h_maxSize s \<and> int (length (h_requests s)) \<le> h_maxSize s"

lemma history_Add_last_n:
  "history_ok s \<Longrightarrow> h_requests (history_Add s a) = last_n (nat (h_maxSize s)) (h_requests s @ [a])"
proof -
  assume ok: "history_ok s"
  let ?rs = "h_requests s @ [a]"
  have "last_n (nat (h_maxSize s)) ?rs = ?rs" if "\<not> int (length ?rs) > h_maxSize s"
    using that ok by (simp add: history_ok_def nat_le_iff)
  then show ?thesis
    using ok unfolding history_Add_def Let_def history_ok_def
    by (simp only: drop_last_n) simp
qed

lemma history_Add_maxSize [simp]: "h_maxSize (history_Add s a) = h_maxSize s"
  by (simp add: history_Add_def Let_def)

interpretation hist: capped_log history_Add h_requests history_ok "\<lambda>s. nat (h_maxSize s)"
proof
  fix s a
  show "h_requests (history_Add s a) = last_n (nat (h_maxSize s)) (h_requests s @ [a])" if "history_ok s"
    using that by (rule history_Add_last_n)
  show "history_ok (history_Add s a)" if "history_ok s"
    using that by (auto simp: history_ok_def history_Add_last_n)
  show "length (h_requests s) \<le> nat (h_maxSize s)" if "history_ok s"
    using that by (auto simp: history_ok_def)
qed simp

lemma length_swap_loop [simp]: "length (swap_loop xs i j) = length xs"
proof (induction xs i j rule: swap_loop.induct)
  case (1 xs i j)
  then show ?case by (cases "i < j") (simp_all add: swap_loop.simps [of xs i j])
qed

lemma nth_swap_loop:
  "j < length xs \<Longrightarrow> k < length xs \<Longrightarrow>
     swap_loop xs i j ! k = (if i \<le> k \<and> k \<le> j then xs ! (i + j - k) else xs ! k)"
proof (induction xs i j rule: swap_loop.induct)
  case (1 xs i j)
  show ?case
  proof (cases "i < j")
    case True
    let ?ys = "xs[i := xs ! j, j := xs ! i]"
    have "swap_loop ?ys (Suc i) (j - 1) ! k
        = (if Suc i \<le> k \<and> k \<le> j - 1 then ?ys ! (Suc i + (j - 1) - k) else ?ys ! k)"
      using "1.IH" [OF True] "1.prems" by simp
    also have "\<dots> = (if i \<le> k \<and> k \<le> j then xs ! (i + j - k) else xs ! k)"
      using True "1.prems" by (auto simp: nth_list_update)
    finally show ?thesis using True by (simp add: swap_loop.simps [of xs i j])
  next
    case False
    then have "i \<le> k \<and> k \<le> j \<Longrightarrow> i + j - k = k" by auto
    with False show ?thesis by (simp add: swap_loop.simps [of xs i j])
  qed
qed

lemma swap_loop_rev: "swap_loop xs 0 (length xs - 1) = rev xs"
  by (cases "xs = []")
    (auto intro!: nth_equalityI simp: nth_swap_loop rev_nth swap_loop.simps [of "[]"])

lemma history_List_eq:
  assumes "0 \<le> limit"
  shows "history_List s limit = Some (rev (last_n (nat limit) (h_requests s)))"
proof -
  let ?n = "int (length (h_requests s))" and ?R = "last_n (nat limit) (h_requests s)"
  have "drop (nat (if ?n > limit then ?n - limit else 0)) (h_requests s) = ?R"
    using assms by (cases "?n > limit") (simp_all add: drop_last_n nat_le_iff)
  moreover have "\<not> (if ?n > limit then ?n - limit else 0) > ?n" using assms by simp
  ultimately have "history_List s limit = Some (swap_loop ?R 0 (length ?R - 1))"
    unfolding history_List_def Let_def by simp
  then show ?thesis by (simp only: swap_loop_rev)
qed

text \<open>
  Whatever was added to a history of size \<open>n\<close>, \<^verbatim>\<open>List(limit)\<close> returns the newest requests, newest
  first: as many as were added, but no more than \<open>limit\<close> and no more than \<open>n\<close>.
\<close>

theorem history_List_newest:
  assumes "NewHistory n = Some s" and "0 \<le> limit"
  shows "history_List (foldl history_Add s xs) limit = Some (take (nat (min limit n)) (rev xs))"
proof -
  have s: "history_ok s" "h_requests s = []" "h_maxSize s = n" "0 \<le> n"
    using assms(1) by (auto simp: NewHistory_def history_ok_def split: if_splits)
  let ?t = "foldl history_Add s xs"
  have t: "h_requests ?t = last_n (nat n) xs"
    using hist.adds_keep_last [OF s(1), of xs] s by simp
  have "history_List ?t limit = Some (rev (last_n (nat limit) (h_requests ?t)))"
    using assms(2) by (rule history_List_eq)
  also have "rev (last_n (nat limit) (h_requests ?t)) = take (nat (min limit n)) (rev xs)"
    unfolding t rev_last_n using assms(2) s(4) by (auto simp: min_def)
  finally show ?thesis .
qed

theorem history_List_newest_witness:
  "NewHistory 2 = Some \<lparr>h_requests = [], h_maxSize = 2\<rparr> \<and>
   history_List (foldl history_Add \<lparr>h_requests = [], h_maxSize = 2\<rparr> [7, 8, 9]) 5 = Some [9, 8]"
proof -
  have s: "NewHistory 2 = Some \<lparr>h_requests = [], h_maxSize = 2\<rparr>" by (simp add: NewHistory_def)
  with history_List_newest [OF s, of 5 "[7, 8, 9]"] show ?thesis by simp
qed

end
