(* ===== verification/Cluster_Manager.thy ===== *)
theory Cluster_Manager
  imports Hive_Prelude
begin

text \<open>
  The cluster's nodes and their manager, \<^verbatim>\<open>internal/cluster/node.go\<close> and \<^verbatim>\<open>internal/cluster/manager.go\<close>.
  A node is a record, the manager's table a map from node IDs to nodes; the handlers take the decoded
  request body (\<open>None\<close> when decoding failed). The theory shows what each handler does on every
  branch, that the table stays keyed by node ID, which nodes count as healthy, that a node
  whose heartbeats arrive in time is never marked offline, and that a heartbeat never brings a node
  back that was.
\<close>

section \<open>Nodes\<close>

datatype NodeStatus = NodeOnline | NodeOffline | NodeDrain

record Node =
  n_ID :: string
  n_Name :: string
  n_Address :: string
  n_Port :: int
  n_Hardware :: string
  n_GPUModel :: string
  n_GPUMemory :: int
  n_VRAMUsed :: real
  n_VRAMTotal :: real
  n_MemoryUsed :: real
  n_MemoryTotal :: real
  n_CPUUsage :: real
  n_Capacity :: int
  n_ActiveConns :: int
  n_QueuedReqs :: int
  n_Models :: "string list"
  n_Status :: NodeStatus
  n_LastHeartbeat :: gotime
  n_JoinedAt :: gotime
  n_OllamaVersion :: string

definition UpdateLoad ::
  "gotime \<Rightarrow> real \<Rightarrow> real \<Rightarrow> real \<Rightarrow> real \<Rightarrow> real \<Rightarrow> int \<Rightarrow> Node \<Rightarrow> Node" where
  "UpdateLoad now cpu memUsed memTotal vramUsed vramTotal activeConns n =
     n\<lparr>n_CPUUsage := cpu, n_MemoryUsed := memUsed, n_MemoryTotal := memTotal,
       n_VRAMUsed := vramUsed, n_VRAMTotal := vramTotal, n_ActiveConns := activeConns,
       n_LastHeartbeat := now\<rparr>"

definition LoadScore :: "Node \<Rightarrow> real" where
  "LoadScore n =
     (let cpuScore = n_CPUUsage n / 100;
          memScore = (if n_MemoryTotal n > 0 then n_MemoryUsed n / n_MemoryTotal n else 0);
          vramScore = (if n_VRAMTotal n > 0 then n_VRAMUsed n / n_VRAMTotal n else 0);
          connScore = (if n_Capacity n > 0 then real_of_int (n_ActiveConns n) / real_of_int (n_Capacity n) else 0)
      in cpuScore * (2/10) + memScore * (2/10) + vramScore * (4/10) + connScore * (2/10))"

definition AvailableSlots :: "Node \<Rightarrow> int" where
  "AvailableSlots n = (let slots = wrap64 (n_Capacity n - n_ActiveConns n) in if slots < 0 then 0 else slots)"

definition IsHealthy :: "gotime \<Rightarrow> duration \<Rightarrow> Node \<Rightarrow> bool" where
  "IsHealthy now timeout n \<longleftrightarrow> n_Status n = NodeOnline \<and> now - n_LastHeartbeat n < timeout"

definition GetActiveConns :: "Node \<Rightarrow> int" where
  "GetActiveConns n = n_ActiveConns n"

definition GetModels :: "Node \<Rightarrow> string list" where
  "GetModels n = n_Models n"

definition SetModels :: "string list \<Rightarrow> Node \<Rightarrow> Node" where
  "SetModels ms n = n\<lparr>n_Models := ms\<rparr>"

section \<open>The manager\<close>

text \<open>
  \<open>m_onUpdate\<close> says whether an update callback is installed, \<open>m_notified\<close> counts its calls.
\<close>

record Manager =
  m_nodes :: "string \<rightharpoonup> Node"
  m_heartbeatTimeout :: duration
  m_onUpdate :: bool
  m_notified :: nat

definition NewManager :: "duration \<Rightarrow> bool \<Rightarrow> Manager" where
  "NewManager timeout cb = \<lparr>m_nodes = Map.empty, m_heartbeatTimeout = timeout, m_onUpdate = cb, m_notified = 0\<rparr>"

definition call_onUpdate :: "Manager \<Rightarrow> Manager" where
  "call_onUpdate m = (if m_onUpdate m then m\<lparr>m_notified := Suc (m_notified m)\<rparr> else m)"

definition RegisterNode :: "gotime \<Rightarrow> Node \<Rightarrow> Manager \<Rightarrow> Manager" where
  "RegisterNode now node m =
     call_onUpdate (case m_nodes m (n_ID node) of
       Some existing \<Rightarrow> m\<lparr>m_nodes := (m_nodes m)(n_ID node \<mapsto> existing\<lparr>
          n_Name := n_Name node, n_Address := n_Address node, n_Port := n_Port node,
          n_Hardware := n_Hardware node, n_GPUModel := n_GPUModel node, n_GPUMemory := n_GPUMemory node,
          n_Capacity := n_Capacity node, n_Models := n_Models node,
          n_Status := NodeOnline, n_LastHeartbeat := now\<rparr>)\<rparr>
     | None \<Rightarrow> m\<lparr>m_nodes := (m_nodes m)(n_ID node \<mapsto> node\<lparr>
          n_Status := NodeOnline, n_LastHeartbeat := now, n_JoinedAt := now\<rparr>)\<rparr>)"

definition UpdateNodeHeartbeat ::
  "gotime \<Rightarrow> string \<Rightarrow> real \<Rightarrow> real \<Rightarrow> real \<Rightarrow> real \<Rightarrow> real \<Rightarrow> int \<Rightarrow> Manager \<Rightarrow> Manager" where
  "UpdateNodeHeartbeat now nodeID cpu memUsed memTotal vramUsed vramTotal activeConns m =
     (case m_nodes m nodeID of
        None \<Rightarrow> m
      | Some node \<Rightarrow> call_onUpdate (m\<lparr>m_nodes := (m_nodes m)(nodeID \<mapsto>
          UpdateLoad now cpu memUsed memTotal vramUsed vramTotal activeConns node)\<rparr>))"

definition DeregisterNode :: "string \<Rightarrow> Manager \<Rightarrow> Manager" where
  "DeregisterNode nodeID m =
     (case m_nodes m nodeID of
        None \<Rightarrow> m
      | Some _ \<Rightarrow> call_onUpdate (m\<lparr>m_nodes := (m_nodes m)(nodeID := None)\<rparr>))"

definition GetNode :: "string \<Rightarrow> Manager \<Rightarrow> Node option" where
  "GetNode nodeID m = m_nodes m nodeID"

text \<open>The loops over the node table take the order \<open>ks\<close> in which the runtime visits the keys.\<close>

definition GetNodes :: "string list \<Rightarrow> Manager \<Rightarrow> Node list" where
  "GetNodes ks m = map (the \<circ> m_nodes m) ks"

definition GetHealthyNodes :: "gotime \<Rightarrow> string list \<Rightarrow> Manager \<Rightarrow> Node list" where
  "GetHealthyNodes now ks m =
     filter (\<lambda>n. IsHealthy now (m_heartbeatTimeout m) n \<and> n_Status n = NodeOnline) (map (the \<circ> m_nodes m) ks)"

definition mark_stale :: "gotime \<Rightarrow> duration \<Rightarrow> Node \<Rightarrow> Node" where
  "mark_stale now timeout n =
     (if n_Status n = NodeOnline \<and> now - n_LastHeartbeat n > timeout then n\<lparr>n_Status := NodeOffline\<rparr> else n)"

text \<open>One tick of the checker's loop.\<close>

definition CheckStale :: "gotime \<Rightarrow> string list \<Rightarrow> Manager \<Rightarrow> Manager" where
  "CheckStale now ks m =
     call_onUpdate (m\<lparr>m_nodes := visit (mark_stale now (m_heartbeatTimeout m)) ks (m_nodes m)\<rparr>)"

section \<open>The handlers\<close>

record RegistrationPayload =
  rp_ID :: string
  rp_Name :: string
  rp_Address :: string
  rp_Port :: int
  rp_Hardware :: string
  rp_GPUModel :: string
  rp_GPUMemory :: int
  rp_Capacity :: int
  rp_Models :: "string list"
  rp_OllamaVersion :: string

record HeartbeatPayload =
  hb_NodeID :: string
  hb_CPUUsage :: real
  hb_MemoryUsed :: real
  hb_MemoryTotal :: real
  hb_VRAMUsed :: real
  hb_VRAMTotal :: real
  hb_ActiveConns :: int
  hb_Models :: "string list option"

type_synonym fields = "(string \<times> string) list"

definition node_of_registration :: "RegistrationPayload \<Rightarrow> Node" where
  "node_of_registration reg = \<lparr>n_ID = rp_ID reg, n_Name = rp_Name reg, n_Address = rp_Address reg,
     n_Port = rp_Port reg, n_Hardware = rp_Hardware reg, n_GPUModel = rp_GPUModel reg,
     n_GPUMemory = rp_GPUMemory reg, n_VRAMUsed = 0, n_VRAMTotal = 0, n_MemoryUsed = 0, n_MemoryTotal = 0,
     n_CPUUsage = 0, n_Capacity = rp_Capacity reg, n_ActiveConns = 0, n_QueuedReqs = 0,
     n_Models = rp_Models reg, n_Status = NodeOffline, n_LastHeartbeat = 0, n_JoinedAt = 0,
     n_OllamaVersion = rp_OllamaVersion reg\<rparr>"

text \<open>
  The status of a node that is being built is Go's empty string; \<^verbatim>\<open>RegisterNode\<close> overwrites it before
  the node is visible, so any value of \<open>NodeStatus\<close> stands for it. The decode error's own text, which
  \<^verbatim>\<open>HandleRegister\<close> appends to its message, is the argument \<open>msg\<close>.
\<close>

definition HandleRegister ::
  "gotime \<Rightarrow> string \<Rightarrow> string + RegistrationPayload \<Rightarrow> Manager \<Rightarrow> fields reply \<times> Manager" where
  "HandleRegister now method body m =
     (if method \<noteq> ''POST'' then (HttpError ''POST required'' 405, m)
      else case body of
        Inl msg \<Rightarrow> (HttpError (''bad json: '' @ msg) 400, m)
      | Inr reg \<Rightarrow>
          if rp_ID reg = [] \<or> rp_Address reg = [] then (HttpError ''id and address required'' 400, m)
          else let node = node_of_registration reg
               in (HttpOK [(''status'', ''registered''), (''node_id'', n_ID node)], RegisterNode now node m))"

definition HandleHeartbeat ::
  "gotime \<Rightarrow> string \<Rightarrow> HeartbeatPayload option \<Rightarrow> Manager \<Rightarrow> fields reply \<times> Manager" where
  "HandleHeartbeat now method body m =
     (if method \<noteq> ''POST'' then (HttpError ''POST required'' 405, m)
      else case body of
        None \<Rightarrow> (HttpError ''bad json'' 400, m)
      | Some hb \<Rightarrow>
          let m1 = UpdateNodeHeartbeat now (hb_NodeID hb) (hb_CPUUsage hb) (hb_MemoryUsed hb)
                     (hb_MemoryTotal hb) (hb_VRAMUsed hb) (hb_VRAMTotal hb) (hb_ActiveConns hb) m;
              m2 = (case hb_Models hb of
                      None \<Rightarrow> m1
                    | Some ms \<Rightarrow> (case GetNode (hb_NodeID hb) m1 of
                        None \<Rightarrow> m1
                      | Some node \<Rightarrow> m1\<lparr>m_nodes := (m_nodes m1)(hb_NodeID hb \<mapsto> node\<lparr>n_Models := ms\<rparr>)\<rparr>))
          in (HttpOK [(''status'', ''ok'')], m2))"

definition HandleDeregister ::
  "string \<Rightarrow> string option \<Rightarrow> Manager \<Rightarrow> fields reply \<times> Manager" where
  "HandleDeregister method body m =
     (if method \<noteq> ''POST'' then (HttpError ''POST required'' 405, m)
      else case body of
        None \<Rightarrow> (HttpError ''bad json'' 400, m)
      | Some nodeID \<Rightarrow> (HttpOK [(''status'', ''deregistered'')], DeregisterNode nodeID m))"

definition HandleNodes :: "string list \<Rightarrow> Manager \<Rightarrow> Node list reply" where
  "HandleNodes ks m = HttpOK (GetNodes ks m)"

record Health =
  hl_status :: string
  hl_total_nodes :: nat
  hl_online_nodes :: nat

text \<open>
  The \<^verbatim>\<open>uptime\<close> field is \<^verbatim>\<open>time.Since(time.Now())\<close>, a constant close to zero, and is left out.
\<close>

definition HandleHealth :: "gotime \<Rightarrow> string list \<Rightarrow> string list \<Rightarrow> Manager \<Rightarrow> Health reply" where
  "HandleHealth now ks ks' m = HttpOK \<lparr>hl_status = ''ok'', hl_total_nodes = length (GetNodes ks m),
     hl_online_nodes = length (GetHealthyNodes now ks' m)\<rparr>"

text \<open>
  \<^verbatim>\<open>ProxyToNode\<close>: the request is sent to the node under its own method, path and body, with two headers set over a copy of its own.
  \<open>mk\<close> and \<open>send\<close> are \<^verbatim>\<open>http.NewRequest\<close> and the client: an error's text, or the answer's status, headers and body. The result is the
  error the caller gets, or the answer that was relayed.
\<close>

record node_request =
  nr_Method :: string
  nr_URL :: string
  nr_Header :: "string \<rightharpoonup> string list"
  nr_Body :: string

type_synonym node_answer = "int \<times> (string \<rightharpoonup> string list) \<times> string"

definition node_url :: "Node \<Rightarrow> string" where
  "node_url n = ''http://'' @ n_Address n @ '':'' @ dec_int (n_Port n)"

definition ProxyToNode ::
  "(string \<Rightarrow> string \<Rightarrow> string option) \<Rightarrow> (node_request \<Rightarrow> string + node_answer) \<Rightarrow> Node \<Rightarrow> string \<Rightarrow> node_request \<Rightarrow> string + node_answer" where
  "ProxyToNode mk send node remoteAddr r =
     (case mk (nr_Method r) (node_url node @ nr_URL r) of
        Some err \<Rightarrow> Inl err
      | None \<Rightarrow> send (r\<lparr>nr_URL := node_url node @ nr_URL r,
          nr_Header := (nr_Header r)(''X-Forwarded-For'' \<mapsto> [remoteAddr], ''X-Hive-Node-Id'' \<mapsto> [n_ID node])\<rparr>))"

text \<open>The JSON of a node; \<open>stamp\<close> is the text of a time. No models may be \<^verbatim>\<open>null\<close> as well as an empty list.\<close>

fun NodeStatus_string :: "NodeStatus \<Rightarrow> string" where
  "NodeStatus_string NodeOnline = ''online''"
| "NodeStatus_string NodeOffline = ''offline''"
| "NodeStatus_string NodeDrain = ''drain''"

definition node_MarshalJSON :: "(gotime \<Rightarrow> string) \<Rightarrow> Node \<Rightarrow> jobj" where
  "node_MarshalJSON stamp n =
     [(''id'', JStr (n_ID n)), (''name'', JStr (n_Name n)), (''address'', JStr (n_Address n)), (''port'', JNum (of_int (n_Port n))),
      (''hardware'', JStr (n_Hardware n)), (''gpu_model'', JStr (n_GPUModel n)), (''gpu_memory_gb'', JNum (of_int (n_GPUMemory n))),
      (''vram_used_gb'', JNum (n_VRAMUsed n)), (''vram_total_gb'', JNum (n_VRAMTotal n)), (''memory_used_gb'', JNum (n_MemoryUsed n)),
      (''memory_total_gb'', JNum (n_MemoryTotal n)), (''cpu_usage'', JNum (n_CPUUsage n)), (''capacity'', JNum (of_int (n_Capacity n))),
      (''active_connections'', JNum (of_int (n_ActiveConns n))), (''queued_requests'', JNum (of_int (n_QueuedReqs n))),
      (''models'', JArr (map JStr (n_Models n))), (''status'', JStr (NodeStatus_string (n_Status n))),
      (''last_heartbeat'', JStr (stamp (n_LastHeartbeat n))), (''joined_at'', JStr (stamp (n_JoinedAt n))),
      (''ollama_version'', JStr (n_OllamaVersion n))]"

text \<open>Nothing of a node is lost in its JSON when times are not.\<close>

lemma node_MarshalJSON_inj:
  assumes "inj stamp" "node_MarshalJSON stamp n = node_MarshalJSON stamp n'"
  shows "n = n'"
proof -
  have st: "NodeStatus_string a = NodeStatus_string b \<longleftrightarrow> a = b" for a b by (cases a; cases b) simp_all
  have md: "map JStr xs = map JStr ys \<longleftrightarrow> xs = ys" for xs ys by (rule inj_map_eq_map) (simp add: inj_def)
  show ?thesis
    using assms by (cases n; cases n') (auto simp: node_MarshalJSON_def st md dest: injD)
qed

lemmas node_op_defs = RegisterNode_def UpdateNodeHeartbeat_def DeregisterNode_def CheckStale_def
  call_onUpdate_def GetNode_def UpdateLoad_def mark_stale_def

section \<open>Runs of the manager\<close>

datatype cluster_event =
    EvRegister gotime RegistrationPayload
  | EvHeartbeat gotime HeartbeatPayload
  | EvDeregister string
  | EvTick gotime

inductive cluster_step :: "Manager \<Rightarrow> cluster_event \<Rightarrow> Manager \<Rightarrow> bool" where
  cl_register: "cluster_step m (EvRegister now reg) (snd (HandleRegister now ''POST'' (Inr reg) m))"
| cl_heartbeat: "cluster_step m (EvHeartbeat now hb) (snd (HandleHeartbeat now ''POST'' (Some hb) m))"
| cl_deregister: "cluster_step m (EvDeregister i) (snd (HandleDeregister ''POST'' (Some i) m))"
| cl_tick: "ranges ks (m_nodes m) \<Longrightarrow> cluster_step m (EvTick now) (CheckStale now ks m)"

inductive cluster_run :: "Manager \<Rightarrow> cluster_event list \<Rightarrow> Manager \<Rightarrow> bool" where
  run_nil: "cluster_run m [] m"
| run_cons: "cluster_step m e m1 \<Longrightarrow> cluster_run m1 es m2 \<Longrightarrow> cluster_run m (e # es) m2"

inductive_simps cluster_step_simps:
  "cluster_step m (EvRegister now reg) m'"
  "cluster_step m (EvHeartbeat now hb) m'"
  "cluster_step m (EvDeregister i) m'"
  "cluster_step m (EvTick now) m'"

inductive_cases cluster_run_ConsE: "cluster_run m (e # es) m'"

text \<open>What each event leaves at one key of the table.\<close>

definition node_after :: "cluster_event \<Rightarrow> duration \<Rightarrow> string \<Rightarrow> Node option \<Rightarrow> Node option" where
  "node_after e d i old = (case e of
     EvRegister now reg \<Rightarrow>
       if rp_ID reg = i \<and> i \<noteq> [] \<and> rp_Address reg \<noteq> [] then
         Some (case old of
           None \<Rightarrow> (node_of_registration reg)\<lparr>n_Status := NodeOnline, n_LastHeartbeat := now, n_JoinedAt := now\<rparr>
         | Some n \<Rightarrow> n\<lparr>n_Name := rp_Name reg, n_Address := rp_Address reg, n_Port := rp_Port reg,
             n_Hardware := rp_Hardware reg, n_GPUModel := rp_GPUModel reg, n_GPUMemory := rp_GPUMemory reg,
             n_Capacity := rp_Capacity reg, n_Models := rp_Models reg,
             n_Status := NodeOnline, n_LastHeartbeat := now\<rparr>)
       else old
   | EvHeartbeat now hb \<Rightarrow>
       if hb_NodeID hb = i then map_option (\<lambda>n.
         let n' = UpdateLoad now (hb_CPUUsage hb) (hb_MemoryUsed hb) (hb_MemoryTotal hb) (hb_VRAMUsed hb)
           (hb_VRAMTotal hb) (hb_ActiveConns hb) n
         in case hb_Models hb of None \<Rightarrow> n' | Some ms \<Rightarrow> n'\<lparr>n_Models := ms\<rparr>) old
       else old
   | EvDeregister j \<Rightarrow> if j = i then None else old
   | EvTick now \<Rightarrow> map_option (mark_stale now d) old)"

lemma call_onUpdate_frame [simp]:
  "m_nodes (call_onUpdate m) = m_nodes m" "m_heartbeatTimeout (call_onUpdate m) = m_heartbeatTimeout m"
  by (simp_all add: call_onUpdate_def)

lemma cluster_step_node:
  "cluster_step m e m' \<Longrightarrow> m_nodes m' i = node_after e (m_heartbeatTimeout m) i (m_nodes m i)"
proof (induction rule: cluster_step.induct)
  case (cl_register m now reg)
  then show ?case
    by (auto simp: HandleRegister_def RegisterNode_def node_after_def node_of_registration_def Let_def
        split: option.splits)
next
  case (cl_heartbeat m now hb)
  then show ?case
    by (auto simp: HandleHeartbeat_def UpdateNodeHeartbeat_def GetNode_def node_after_def Let_def
        split: option.splits)
next
  case (cl_deregister m j)
  then show ?case by (auto simp: HandleDeregister_def DeregisterNode_def node_after_def split: option.splits)
next
  case (cl_tick ks m now)
  then show ?case by (simp add: CheckStale_def node_after_def visit_ranges)
qed

lemma cluster_step_timeout: "cluster_step m e m' \<Longrightarrow> m_heartbeatTimeout m' = m_heartbeatTimeout m"
  by (induction rule: cluster_step.induct)
    (auto simp: HandleRegister_def HandleHeartbeat_def HandleDeregister_def RegisterNode_def
      UpdateNodeHeartbeat_def DeregisterNode_def CheckStale_def Let_def split: option.splits)

definition node_run :: "duration \<Rightarrow> string \<Rightarrow> cluster_event list \<Rightarrow> Node option \<Rightarrow> Node option" where
  "node_run d i es old = fold (\<lambda>e. node_after e d i) es old"

text \<open>A run of the manager, seen at one key, is the run of \<open>node_after\<close>.\<close>

lemma cluster_run_node:
  "cluster_run m es m' \<Longrightarrow> m_nodes m' i = node_run (m_heartbeatTimeout m) i es (m_nodes m i)"
proof (induction rule: cluster_run.induct)
  case (run_nil m)
  then show ?case by (simp add: node_run_def)
next
  case (run_cons m e m1 es m2)
  then show ?case by (simp add: node_run_def cluster_step_timeout cluster_step_node)
qed

lemma node_run_simps [simp]:
  "node_run d i [] old = old"
  "node_run d i (e # es) old = node_run d i es (node_after e d i old)"
  by (simp_all add: node_run_def)

lemma node_after_ID:
  "(\<forall>n. old = Some n \<longrightarrow> n_ID n = i) \<Longrightarrow> node_after e d i old = Some n' \<Longrightarrow> n_ID n' = i"
  by (cases e) (auto simp: node_after_def node_of_registration_def UpdateLoad_def mark_stale_def Let_def
      split: if_splits option.splits)

lemma node_run_ID:
  "(\<forall>n. old = Some n \<longrightarrow> n_ID n = i) \<Longrightarrow> node_run d i es old = Some n' \<Longrightarrow> n_ID n' = i"
proof (induction es arbitrary: old)
  case (Cons e es)
  then show ?case using node_after_ID [of old i e d] by (metis node_run_simps(2))
qed simp

lemma node_after_offline:
  assumes "\<And>now reg. e = EvRegister now reg \<Longrightarrow> rp_ID reg \<noteq> i"
    and "\<forall>n. old = Some n \<longrightarrow> n_Status n \<noteq> NodeOnline"
    and "node_after e d i old = Some n'"
  shows "n_Status n' \<noteq> NodeOnline"
  using assms
  by (cases e) (auto simp: node_after_def UpdateLoad_def mark_stale_def Let_def split: if_splits option.splits)

lemma node_run_offline:
  assumes "\<forall>now reg. EvRegister now reg \<in> set es \<longrightarrow> rp_ID reg \<noteq> i"
    and "\<forall>n. old = Some n \<longrightarrow> n_Status n \<noteq> NodeOnline"
    and "node_run d i es old = Some n'"
  shows "n_Status n' \<noteq> NodeOnline"
  using assms
proof (induction es arbitrary: old)
  case (Cons e es)
  have "\<forall>n. node_after e d i old = Some n \<longrightarrow> n_Status n \<noteq> NodeOnline"
    using node_after_offline [of e i old d] Cons.prems(1,2) by auto
  with Cons show ?case by auto
qed simp

text \<open>
  \<open>fresh_run d i t0 es\<close>: along the events \<open>es\<close>, every tick of the checker comes at most \<open>d\<close> after
  the last heartbeat or registration of node \<open>i\<close> (the first of them at \<open>t0\<close>), and \<open>i\<close> is not
  deregistered.
\<close>

fun fresh_run :: "duration \<Rightarrow> string \<Rightarrow> gotime \<Rightarrow> cluster_event list \<Rightarrow> bool" where
  "fresh_run d i t0 [] = True"
| "fresh_run d i t0 (EvTick now # es) = (now - t0 \<le> d \<and> fresh_run d i t0 es)"
| "fresh_run d i t0 (EvHeartbeat now hb # es) = fresh_run d i (if hb_NodeID hb = i then now else t0) es"
| "fresh_run d i t0 (EvRegister now reg # es) =
     fresh_run d i (if rp_ID reg = i \<and> i \<noteq> [] \<and> rp_Address reg \<noteq> [] then now else t0) es"
| "fresh_run d i t0 (EvDeregister j # es) = (j \<noteq> i \<and> fresh_run d i t0 es)"

definition online_since :: "gotime \<Rightarrow> Node option \<Rightarrow> bool" where
  "online_since t old \<longleftrightarrow> (\<exists>n. old = Some n \<and> n_Status n = NodeOnline \<and> n_LastHeartbeat n = t)"

lemma node_run_fresh:
  "fresh_run d i t0 es \<Longrightarrow> online_since t0 old \<Longrightarrow> \<exists>t. online_since t (node_run d i es old)"
proof (induction d i t0 es arbitrary: old rule: fresh_run.induct)
  case (1 d i t0)
  then show ?case by auto
next
  case (2 d i t0 now es)
  from "2.prems" have "online_since t0 (node_after (EvTick now) d i old)"
    by (cases old) (auto simp: online_since_def node_after_def mark_stale_def)
  with "2" show ?case by simp
next
  case (3 d i t0 now hb es)
  from "3.prems" have "online_since (if hb_NodeID hb = i then now else t0) (node_after (EvHeartbeat now hb) d i old)"
    by (cases old; cases "hb_Models hb") (auto simp: online_since_def node_after_def UpdateLoad_def Let_def)
  with "3" show ?case by simp
next
  case (4 d i t0 now reg es)
  from "4.prems" have "online_since (if rp_ID reg = i \<and> i \<noteq> [] \<and> rp_Address reg \<noteq> [] then now else t0)
      (node_after (EvRegister now reg) d i old)"
    by (auto simp: online_since_def node_after_def split: option.splits)
  with "4" show ?case by simp
next
  case (5 d i t0 j es)
  from "5.prems" have "online_since t0 (node_after (EvDeregister j) d i old)"
    by (auto simp: online_since_def node_after_def)
  with "5" show ?case by simp
qed

text \<open>
  Along every run of the manager from an empty table, each node is stored under its own ID, and
  \<^verbatim>\<open>GetHealthyNodes\<close> returns, in whatever order the map is visited, exactly the nodes that are online
  and whose last heartbeat is younger than the timeout, each once.
\<close>

theorem GetHealthyNodes_exact:
  assumes "cluster_run (NewManager d cb) es m" and "ranges ks (m_nodes m)"
  shows "(\<forall>i n. m_nodes m i = Some n \<longrightarrow> n_ID n = i) \<and>
    set (GetHealthyNodes now ks m)
      = {n. (\<exists>i. m_nodes m i = Some n) \<and> n_Status n = NodeOnline \<and> now - n_LastHeartbeat n < m_heartbeatTimeout m} \<and>
    distinct (GetHealthyNodes now ks m)"
proof -
  have keyed: "n_ID n = i" if "m_nodes m i = Some n" for i n
    using node_run_ID [of None i] that cluster_run_node [OF assms(1)] by (auto simp: NewManager_def)
  have "set (map (the \<circ> m_nodes m) ks) = ran (m_nodes m)" by (rule ranges_values [OF assms(2)])
  then have "set (GetHealthyNodes now ks m)
      = {n. (\<exists>i. m_nodes m i = Some n) \<and> n_Status n = NodeOnline \<and> now - n_LastHeartbeat n < m_heartbeatTimeout m}"
    unfolding GetHealthyNodes_def set_filter by (auto simp: IsHealthy_def ran_def)
  moreover have "inj_on (the \<circ> m_nodes m) (set ks)"
  proof (rule inj_onI)
    fix i j
    assume "i \<in> set ks" "j \<in> set ks" and eq: "(the \<circ> m_nodes m) i = (the \<circ> m_nodes m) j"
    then obtain n n' where "m_nodes m i = Some n" "m_nodes m j = Some n'"
      using assms(2) by (auto simp: ranges_def domD)
    with eq keyed [of i n] keyed [of j n'] show "i = j" by simp
  qed
  then have "distinct (map (the \<circ> m_nodes m) ks)"
    using assms(2) by (simp add: ranges_def distinct_map)
  ultimately show ?thesis using keyed by (simp add: GetHealthyNodes_def del: map_map)
qed

text \<open>
  A node whose registration and heartbeats are never older than the timeout when the checker
  ticks, and that is not deregistered, is online after the run.
\<close>

theorem heartbeats_keep_online:
  assumes "cluster_run m es m'"
    and "m_nodes m i = Some n" "n_Status n = NodeOnline"
    and "fresh_run (m_heartbeatTimeout m) i (n_LastHeartbeat n) es"
  shows "\<exists>n'. m_nodes m' i = Some n' \<and> n_Status n' = NodeOnline"
  using node_run_fresh [OF assms(4), of "Some n"] assms(2,3) cluster_run_node [OF assms(1), of i]
  by (auto simp: online_since_def)

text \<open>
  A node that has been marked offline stays out of \<^verbatim>\<open>GetHealthyNodes\<close> however many heartbeats it
  sends: \<^verbatim>\<open>HandleHeartbeat\<close> answers \<^verbatim>\<open>ok\<close> and renews its timestamp but not its status. Only a new
  registration of its ID brings it back.
\<close>

theorem heartbeat_never_revives:
  assumes "cluster_run m es m'"
    and "m_nodes m i = Some n" "n_Status n = NodeOffline"
    and "\<forall>now reg. EvRegister now reg \<in> set es \<longrightarrow> rp_ID reg \<noteq> i"
    and "ranges ks (m_nodes m')" "m_nodes m' i = Some n'"
  shows "n_Status n' \<noteq> NodeOnline \<and> n' \<notin> set (GetHealthyNodes now ks m')"
proof -
  have "node_run (m_heartbeatTimeout m) i es (Some n) = Some n'"
    using cluster_run_node [OF assms(1), of i] assms(2,6) by simp
  then have "n_Status n' \<noteq> NodeOnline"
    using node_run_offline [OF assms(4), of "Some n"] assms(3) by simp
  then show ?thesis by (simp add: GetHealthyNodes_def)
qed

section \<open>Witnesses\<close>

definition sample_reg :: RegistrationPayload where
  "sample_reg = \<lparr>rp_ID = ''n1'', rp_Name = ''mac'', rp_Address = ''10.0.0.5'', rp_Port = 11434,
     rp_Hardware = ''apple-silicon'', rp_GPUModel = ''M2'', rp_GPUMemory = 32, rp_Capacity = 5,
     rp_Models = [''llama3''], rp_OllamaVersion = ''0.1''\<rparr>"

definition sample_hb :: HeartbeatPayload where
  "sample_hb = \<lparr>hb_NodeID = ''n1'', hb_CPUUsage = 50, hb_MemoryUsed = 8, hb_MemoryTotal = 16,
     hb_VRAMUsed = 4, hb_VRAMTotal = 8, hb_ActiveConns = 1, hb_Models = None\<rparr>"

definition sample_mgr :: "NodeStatus \<Rightarrow> Manager" where
  "sample_mgr st = \<lparr>m_nodes = [''n1'' \<mapsto> (node_of_registration sample_reg)\<lparr>n_Status := st, n_LastHeartbeat := 5\<rparr>],
     m_heartbeatTimeout = 10, m_onUpdate = False, m_notified = 0\<rparr>"

definition sample_mgr_hb :: "NodeStatus \<Rightarrow> Manager" where
  "sample_mgr_hb st = snd (HandleHeartbeat 12 ''POST'' (Some sample_hb) (sample_mgr st))"

lemma sample_run: "cluster_run (sample_mgr st) [EvHeartbeat 12 sample_hb] (sample_mgr_hb st)"
  unfolding sample_mgr_hb_def by (rule run_cons [OF cl_heartbeat run_nil])

lemma sample_node:
  "m_nodes (sample_mgr st) ''n1'' = Some ((node_of_registration sample_reg)\<lparr>n_Status := st, n_LastHeartbeat := 5\<rparr>)"
  by (simp add: sample_mgr_def)

lemma sample_mgr_hb_dom: "dom (m_nodes (sample_mgr_hb st)) = {''n1''}"
  by (simp add: sample_mgr_hb_def sample_mgr_def HandleHeartbeat_def UpdateNodeHeartbeat_def sample_hb_def Let_def)

theorem GetHealthyNodes_exact_witness:
  "\<exists>m. cluster_run (NewManager 10 False) [EvRegister 5 sample_reg] m \<and>
     map n_ID (GetHealthyNodes 12 [''n1''] m) = [''n1''] \<and> distinct (GetHealthyNodes 12 [''n1''] m)"
proof -
  let ?m = "snd (HandleRegister 5 ''POST'' (Inr sample_reg) (NewManager 10 False))"
  have r: "cluster_run (NewManager 10 False) [EvRegister 5 sample_reg] ?m"
    by (rule run_cons [OF cl_register run_nil])
  have k: "ranges [''n1''] (m_nodes ?m)"
    by (simp add: ranges_def HandleRegister_def RegisterNode_def NewManager_def sample_reg_def
        node_of_registration_def Let_def)
  have i: "map n_ID (GetHealthyNodes 12 [''n1''] ?m) = [''n1'']"
    by (simp add: GetHealthyNodes_def IsHealthy_def HandleRegister_def RegisterNode_def NewManager_def
        sample_reg_def node_of_registration_def Let_def)
  have "distinct (GetHealthyNodes 12 [''n1''] ?m)"
    using GetHealthyNodes_exact [OF r k, of 12] by (elim conjE)
  with r i show ?thesis by (intro exI [of _ ?m] conjI)
qed

theorem heartbeats_keep_online_witness:
  "\<exists>n'. m_nodes (sample_mgr_hb NodeOnline) ''n1'' = Some n' \<and> n_Status n' = NodeOnline"
  by (rule heartbeats_keep_online [OF sample_run sample_node]) simp_all

theorem heartbeat_never_revives_witness:
  "\<exists>n'. m_nodes (sample_mgr_hb NodeOffline) ''n1'' = Some n' \<and> n_LastHeartbeat n' = 12 \<and>
     n_Status n' \<noteq> NodeOnline \<and> n' \<notin> set (GetHealthyNodes 13 [''n1''] (sample_mgr_hb NodeOffline))"
proof -
  obtain n' where n': "m_nodes (sample_mgr_hb NodeOffline) ''n1'' = Some n'"
    using sample_mgr_hb_dom [of NodeOffline] by (metis domD insertI1)
  have k: "ranges [''n1''] (m_nodes (sample_mgr_hb NodeOffline))"
    by (simp add: ranges_def sample_mgr_hb_dom)
  have "n_LastHeartbeat n' = 12"
    using n' by (auto simp: sample_mgr_hb_def sample_mgr_def HandleHeartbeat_def UpdateNodeHeartbeat_def
        sample_hb_def Let_def UpdateLoad_def)
  with n' heartbeat_never_revives [OF sample_run sample_node _ _ k n', of 13] show ?thesis by simp
qed

end
