(* ===== verification/Load_Balancer.thy ===== *)
theory Load_Balancer
  imports Cluster_Manager
begin

text \<open>
  The balancer, \<^verbatim>\<open>internal/balancer/balancer.go\<close>. \<^verbatim>\<open>sort.Slice\<close> and \<^verbatim>\<open>rand.Intn\<close> are the arguments \<open>srt\<close> and
  \<open>rnd\<close>; what the code relies on is \<open>sort_Slice_ok\<close> and \<open>Intn_ok\<close>, their documented contracts. A Go
  panic is \<open>Inl\<close>. The theory shows that a selection never panics while the round-robin counter has
  not wrapped, that the node returned is a healthy one with a free slot, that it is the least
  loaded (or the one with most free slots) under these strategies, that round robin visits all
  candidates in turn, and that the load score of a sane node lies between 0 and 1.
\<close>

section \<open>The balancer\<close>

definition StrategyLeastLoad :: string where "StrategyLeastLoad = ''least_load''"
definition StrategyRoundRobin :: string where "StrategyRoundRobin = ''round_robin''"
definition StrategyRandom :: string where "StrategyRandom = ''random''"
definition StrategyCapacity :: string where "StrategyCapacity = ''capacity''"

lemmas strategy_defs = StrategyLeastLoad_def StrategyRoundRobin_def StrategyRandom_def StrategyCapacity_def

lemma strategy_distinct:
  "distinct [StrategyLeastLoad, StrategyRoundRobin, StrategyRandom, StrategyCapacity]"
  by (simp add: strategy_defs)

text \<open>The node function is an argument of \<open>SelectNode\<close>: the list it returned.\<close>

record Balancer =
  b_strategy :: string
  b_rrIndex :: int

type_synonym slice_sort = "(Node \<Rightarrow> Node \<Rightarrow> bool) \<Rightarrow> Node list \<Rightarrow> Node list"

definition balancer_New :: "string \<Rightarrow> Balancer" where
  "balancer_New strategy =
     \<lparr>b_strategy = (if strategy = [] then StrategyLeastLoad else strategy), b_rrIndex = 0\<rparr>"

definition leastLoad :: "slice_sort \<Rightarrow> Node list \<Rightarrow> string + Node option" where
  "leastLoad srt nodes =
     (if length nodes = 0 then Inr None
      else case srt (\<lambda>a b. LoadScore a < LoadScore b) nodes of
        [] \<Rightarrow> Inl ''index out of range''
      | n # _ \<Rightarrow> Inr (Some n))"

definition index_slice :: "'a list \<Rightarrow> int \<Rightarrow> string + 'a" where
  "index_slice xs i = (if 0 \<le> i \<and> i < int (length xs) then Inr (xs ! nat i) else Inl ''index out of range'')"

definition roundRobin :: "Balancer \<Rightarrow> Node list \<Rightarrow> (string + Node option) \<times> Balancer" where
  "roundRobin b nodes =
     (if nodes = [] then (Inl ''integer divide by zero'', b)
      else let idx = go_mod (b_rrIndex b) (int (length nodes));
               b' = b\<lparr>b_rrIndex := wrap64 (b_rrIndex b + 1)\<rparr>
           in (map_sum id Some (index_slice nodes idx), b'))"

definition random_node :: "(int \<Rightarrow> int) \<Rightarrow> Node list \<Rightarrow> string + Node option" where
  "random_node rnd nodes = map_sum id Some (index_slice nodes (rnd (int (length nodes))))"

definition bestCapacity :: "slice_sort \<Rightarrow> Node list \<Rightarrow> string + Node option" where
  "bestCapacity srt nodes =
     (case srt (\<lambda>a b. AvailableSlots a > AvailableSlots b) nodes of
        [] \<Rightarrow> Inl ''index out of range''
      | n # _ \<Rightarrow> Inr (Some n))"

definition candidates :: "gotime \<Rightarrow> Node list \<Rightarrow> Node list" where
  "candidates now nodes = filter (\<lambda>n. IsHealthy now (10 * second) n \<and> AvailableSlots n > 0) nodes"

definition SelectNode ::
  "slice_sort \<Rightarrow> (int \<Rightarrow> int) \<Rightarrow> gotime \<Rightarrow> Node list \<Rightarrow> string \<Rightarrow> Balancer
     \<Rightarrow> (string + Node option) \<times> Balancer" where
  "SelectNode srt rnd now nodes model b =
     (if length nodes = 0 then (Inr None, b)
      else let healthy = candidates now nodes
           in if length healthy = 0 then (Inr None, b)
              else if b_strategy b = StrategyLeastLoad then (leastLoad srt healthy, b)
              else if b_strategy b = StrategyRoundRobin then roundRobin b healthy
              else if b_strategy b = StrategyRandom then (random_node rnd healthy, b)
              else if b_strategy b = StrategyCapacity then (bestCapacity srt healthy, b)
              else (leastLoad srt healthy, b))"

definition SetStrategy :: "string \<Rightarrow> Balancer \<Rightarrow> Balancer" where
  "SetStrategy s b = b\<lparr>b_strategy := s\<rparr>"

definition GetStrategy :: "Balancer \<Rightarrow> string" where
  "GetStrategy b = b_strategy b"

section \<open>What the library functions promise\<close>

text \<open>
  \<^verbatim>\<open>sort.Slice(x, lt)\<close>: for a strict weak order \<open>lt\<close> the result is a permutation in which no element
  is less than an earlier one. \<^verbatim>\<open>rand.Intn(n)\<close>: for \<open>n > 0\<close>, a number in \<open>[0, n)\<close>.
\<close>

definition strict_weak :: "('a \<Rightarrow> 'a \<Rightarrow> bool) \<Rightarrow> bool" where
  "strict_weak lt \<longleftrightarrow> (\<forall>x. \<not> lt x x) \<and> (\<forall>x y z. lt x y \<longrightarrow> lt y z \<longrightarrow> lt x z) \<and>
     (\<forall>x y z. lt x z \<longrightarrow> lt x y \<or> lt y z)"

definition sort_Slice_ok :: "slice_sort \<Rightarrow> bool" where
  "sort_Slice_ok srt \<longleftrightarrow> (\<forall>lt xs. strict_weak lt \<longrightarrow>
     mset (srt lt xs) = mset xs \<and> sorted_wrt (\<lambda>x y. \<not> lt y x) (srt lt xs))"

definition Intn_ok :: "(int \<Rightarrow> int) \<Rightarrow> bool" where
  "Intn_ok rnd \<longleftrightarrow> (\<forall>n > 0. 0 \<le> rnd n \<and> rnd n < n)"

lemma strict_weak_key [intro]: "strict_weak (\<lambda>a b. f a < f b)" for f :: "'a \<Rightarrow> 'b::linorder"
  by (auto simp: strict_weak_def)

lemma strict_weak_key_rev [intro]: "strict_weak (\<lambda>a b. f b < f a)" for f :: "'a \<Rightarrow> 'b::linorder"
  by (auto simp: strict_weak_def)

lemma sort_Slice_head:
  assumes "sort_Slice_ok srt" "strict_weak lt" "xs \<noteq> []"
  obtains y ys where "srt lt xs = y # ys" "y \<in> set xs" "\<And>x. x \<in> set xs \<Longrightarrow> \<not> lt x y"
proof -
  have perm: "mset (srt lt xs) = mset xs" and srt: "sorted_wrt (\<lambda>x y. \<not> lt y x) (srt lt xs)"
    using assms(1,2) by (auto simp: sort_Slice_ok_def)
  from perm have set: "set (srt lt xs) = set xs" by (metis set_mset_mset)
  with assms(3) obtain y ys where y: "srt lt xs = y # ys" by (cases "srt lt xs") auto
  moreover have "\<not> lt x y" if "x \<in> set xs" for x
    using that srt assms(2) unfolding set [symmetric] y strict_weak_def by auto
  ultimately show thesis using that set by auto
qed

section \<open>Selection\<close>

lemma index_slice_ok: "0 \<le> i \<Longrightarrow> i < int (length xs) \<Longrightarrow> \<exists>x \<in> set xs. index_slice xs i = Inr x"
  by (auto simp: index_slice_def)

lemma leastLoad_min:
  assumes "sort_Slice_ok srt" "nodes \<noteq> []"
  shows "\<exists>n. leastLoad srt nodes = Inr (Some n) \<and> n \<in> set nodes \<and> (\<forall>c \<in> set nodes. LoadScore n \<le> LoadScore c)"
proof -
  obtain y ys where "srt (\<lambda>a b. LoadScore a < LoadScore b) nodes = y # ys" "y \<in> set nodes"
    and min: "\<And>x. x \<in> set nodes \<Longrightarrow> \<not> LoadScore x < LoadScore y"
    by (rule sort_Slice_head [OF assms(1) strict_weak_key assms(2), of LoadScore]) blast
  with assms(2) show ?thesis using min by (auto simp: leastLoad_def not_less)
qed

lemma bestCapacity_max:
  assumes "sort_Slice_ok srt" "nodes \<noteq> []"
  shows "\<exists>n. bestCapacity srt nodes = Inr (Some n) \<and> n \<in> set nodes \<and> (\<forall>c \<in> set nodes. AvailableSlots c \<le> AvailableSlots n)"
proof -
  obtain y ys where "srt (\<lambda>a b. AvailableSlots b < AvailableSlots a) nodes = y # ys" "y \<in> set nodes"
    and max: "\<And>x. x \<in> set nodes \<Longrightarrow> \<not> AvailableSlots y < AvailableSlots x"
    by (rule sort_Slice_head [OF assms(1) strict_weak_key_rev assms(2), of AvailableSlots]) blast
  then show ?thesis by (auto simp: bestCapacity_def not_less)
qed

lemma roundRobin_ok:
  assumes "nodes \<noteq> []" "0 \<le> b_rrIndex b"
  shows "fst (roundRobin b nodes) = Inr (Some (nodes ! (nat (b_rrIndex b) mod length nodes)))"
  using assms by (auto simp: roundRobin_def Let_def index_slice_def nat_mod_distrib)

lemma roundRobin_mem:
  assumes "nodes \<noteq> []" "0 \<le> b_rrIndex b"
  shows "\<exists>n \<in> set nodes. fst (roundRobin b nodes) = Inr (Some n)"
  using assms by (simp add: roundRobin_ok)

lemma random_node_mem: "Intn_ok rnd \<Longrightarrow> nodes \<noteq> [] \<Longrightarrow> \<exists>n \<in> set nodes. random_node rnd nodes = Inr (Some n)"
  using index_slice_ok [of "rnd (int (length nodes))" nodes] by (auto simp: Intn_ok_def random_node_def)

text \<open>
  C2. With a round-robin counter that has not wrapped, \<^verbatim>\<open>SelectNode\<close> does not panic under any strategy,
  known or not: it returns no node exactly when no node is healthy with a free slot, and otherwise
  one of the nodes it was given that is online, heard of in the last ten seconds, and has a free slot.
\<close>

theorem SelectNode_sound:
  assumes "sort_Slice_ok srt" "Intn_ok rnd" "0 \<le> b_rrIndex b"
  shows "case fst (SelectNode srt rnd now nodes model b) of
      Inl _ \<Rightarrow> False
    | Inr None \<Rightarrow> \<not> (\<exists>n \<in> set nodes. IsHealthy now (10 * second) n \<and> AvailableSlots n > 0)
    | Inr (Some n) \<Rightarrow> n \<in> set nodes \<and> n_Status n = NodeOnline \<and>
        now - n_LastHeartbeat n < 10 * second \<and> AvailableSlots n > 0"
proof (cases "candidates now nodes = []")
  case True
  then have "fst (SelectNode srt rnd now nodes model b) = Inr None" by (simp add: SelectNode_def)
  with True show ?thesis by (auto simp: candidates_def filter_empty_conv)
next
  case False
  then have "nodes \<noteq> []" by (auto simp: candidates_def)
  have "\<exists>n \<in> set (candidates now nodes). fst (SelectNode srt rnd now nodes model b) = Inr (Some n)"
    using False \<open>nodes \<noteq> []\<close> leastLoad_min [OF assms(1) False] bestCapacity_max [OF assms(1) False]
      roundRobin_mem [OF False assms(3)] random_node_mem [OF assms(2) False]
    by (auto simp: SelectNode_def Let_def)
  then show ?thesis by (auto simp: candidates_def IsHealthy_def)
qed

text \<open>
  C21. Under \<^verbatim>\<open>least_load\<close>, and under any strategy name the code does not know, the node selected has
  the least load score of all candidates; under \<^verbatim>\<open>capacity\<close> it has the most free slots.
\<close>

theorem SelectNode_optimal:
  assumes "sort_Slice_ok srt" "fst (SelectNode srt rnd now nodes model b) = Inr (Some n)"
    and "c \<in> set nodes" "IsHealthy now (10 * second) c" "AvailableSlots c > 0"
  shows "if b_strategy b = StrategyCapacity then AvailableSlots c \<le> AvailableSlots n
    else b_strategy b \<in> {StrategyRoundRobin, StrategyRandom} \<or> LoadScore n \<le> LoadScore c"
proof -
  have c: "c \<in> set (candidates now nodes)" using assms(3-5) by (simp add: candidates_def)
  then have ne: "candidates now nodes \<noteq> []" "nodes \<noteq> []" using assms(3) by auto
  show ?thesis
    using assms(2) ne c leastLoad_min [OF assms(1) ne(1)] bestCapacity_max [OF assms(1) ne(1)] strategy_distinct
    by (auto simp: SelectNode_def Let_def split: if_splits)
qed

section \<open>Round robin\<close>

text \<open>\<open>k\<close> selections in a row from the same list of nodes.\<close>

fun rr_selections :: "nat \<Rightarrow> Balancer \<Rightarrow> Node list \<Rightarrow> (string + Node option) list" where
  "rr_selections 0 b nodes = []"
| "rr_selections (Suc k) b nodes =
     fst (roundRobin b nodes) # rr_selections k (snd (roundRobin b nodes)) nodes"

lemma roundRobin_index:
  "nodes \<noteq> [] \<Longrightarrow> 0 \<le> b_rrIndex b \<Longrightarrow> b_rrIndex b + 1 < 2 ^ 63 \<Longrightarrow>
     b_rrIndex (snd (roundRobin b nodes)) = b_rrIndex b + 1"
  by (simp add: roundRobin_def Let_def)

lemma rr_selections_nth:
  "nodes \<noteq> [] \<Longrightarrow> 0 \<le> b_rrIndex b \<Longrightarrow> b_rrIndex b + int k < 2 ^ 63 \<Longrightarrow>
     rr_selections k b nodes
       = map (\<lambda>j. Inr (Some (nodes ! ((nat (b_rrIndex b) + j) mod length nodes)))) [0..<k]"
proof (induction k arbitrary: b)
  case (Suc k)
  then have "b_rrIndex (snd (roundRobin b nodes)) = b_rrIndex b + 1" by (simp add: roundRobin_index)
  with Suc have "rr_selections k (snd (roundRobin b nodes)) nodes
      = map (\<lambda>j. Inr (Some (nodes ! ((nat (b_rrIndex b) + Suc j) mod length nodes)))) [0..<k]"
    by (simp add: nat_add_distrib)
  moreover have "map (\<lambda>j. Inr (Some (nodes ! ((nat (b_rrIndex b) + j) mod length nodes))) :: string + Node option) [0..<Suc k]
      = Inr (Some (nodes ! (nat (b_rrIndex b) mod length nodes)))
        # map (\<lambda>j. Inr (Some (nodes ! ((nat (b_rrIndex b) + Suc j) mod length nodes)))) [0..<k]"
    by (simp add: upt_conv_Cons map_Suc_upt [symmetric] del: upt_Suc map_Suc_upt)
  ultimately show ?case using Suc.prems by (simp add: roundRobin_ok del: upt_Suc)
qed simp

text \<open>
  As long as the candidates stay the same and the counter does not wrap, \<open>length nodes\<close> round-robin
  selections in a row are the candidates in their order, starting at some position: each candidate
  is selected exactly once.
\<close>

theorem roundRobin_fair:
  assumes "nodes \<noteq> []" "0 \<le> b_rrIndex b" "b_rrIndex b + int (length nodes) < 2 ^ 63"
  shows "rr_selections (length nodes) b nodes
    = map (\<lambda>n. Inr (Some n)) (rotate (nat (b_rrIndex b)) nodes)"
proof (rule nth_equalityI)
  show "length (rr_selections (length nodes) b nodes) = length (map (\<lambda>n. Inr (Some n)) (rotate (nat (b_rrIndex b)) nodes))"
    using assms by (simp add: rr_selections_nth)
  fix i
  assume "i < length (rr_selections (length nodes) b nodes)"
  then have "i < length nodes" using assms by (simp add: rr_selections_nth)
  then show "rr_selections (length nodes) b nodes ! i
      = map (\<lambda>n. Inr (Some n)) (rotate (nat (b_rrIndex b)) nodes) ! i"
    using assms by (simp add: rr_selections_nth nth_rotate add.commute)
qed

text \<open>
  For a node whose usage figures lie within its totals, with a CPU usage between 0 and 100 and no
  more connections than its capacity, the load score lies between 0 and 1.
\<close>

theorem LoadScore_bounds:
  assumes "0 \<le> n_CPUUsage n" "n_CPUUsage n \<le> 100"
    and "0 \<le> n_MemoryUsed n" "n_MemoryUsed n \<le> n_MemoryTotal n"
    and "0 \<le> n_VRAMUsed n" "n_VRAMUsed n \<le> n_VRAMTotal n"
    and "0 \<le> n_ActiveConns n" "n_ActiveConns n \<le> n_Capacity n"
  shows "0 \<le> LoadScore n \<and> LoadScore n \<le> 1"
proof -
  have ratio: "0 \<le> (if b > 0 then a / b else 0) \<and> (if b > 0 then a / b else 0) \<le> 1" if "0 \<le> a" "a \<le> b" for a b :: real
    using that by auto
  have conn: "(if n_Capacity n > 0 then real_of_int (n_ActiveConns n) / real_of_int (n_Capacity n) else 0)
      = (if real_of_int (n_Capacity n) > 0 then real_of_int (n_ActiveConns n) / real_of_int (n_Capacity n) else 0)"
    by simp
  show ?thesis
    unfolding LoadScore_def Let_def conn
    using assms(1,2) ratio [OF assms(3,4)] ratio [OF assms(5,6)]
      ratio [of "real_of_int (n_ActiveConns n)" "real_of_int (n_Capacity n)"] assms(7,8)
    by (intro conjI) linarith+
qed

section \<open>Witnesses\<close>

text \<open>An insertion sort meets the contract of \<^verbatim>\<open>sort.Slice\<close>.\<close>

fun ins_by :: "('a \<Rightarrow> 'a \<Rightarrow> bool) \<Rightarrow> 'a \<Rightarrow> 'a list \<Rightarrow> 'a list" where
  "ins_by lt x [] = [x]"
| "ins_by lt x (y # ys) = (if lt y x then y # ins_by lt x ys else x # y # ys)"

definition ins_sort :: slice_sort where
  "ins_sort lt xs = foldr (ins_by lt) xs []"

lemma mset_ins_by [simp]: "mset (ins_by lt x xs) = add_mset x (mset xs)"
  by (induction xs) auto

lemma set_ins_by [simp]: "set (ins_by lt x xs) = insert x (set xs)"
  by (metis mset_ins_by set_mset_add_mset_insert set_mset_mset)

lemma sorted_ins_by:
  "strict_weak lt \<Longrightarrow> sorted_wrt (\<lambda>x y. \<not> lt y x) xs \<Longrightarrow> sorted_wrt (\<lambda>x y. \<not> lt y x) (ins_by lt x xs)"
proof (induction xs)
  case (Cons y ys)
  show ?case
  proof (cases "lt y x")
    case True
    then have "\<not> lt x y" using Cons.prems(1) unfolding strict_weak_def by blast
    with True Cons show ?thesis by auto
  next
    case False
    have "lt z x \<longrightarrow> lt z y \<or> lt y x" for z
      using Cons.prems(1) unfolding strict_weak_def by blast
    then have "\<not> lt z x" if "z \<in> set ys" for z
      using False that Cons.prems(2) by auto
    with False Cons show ?thesis by auto
  qed
qed simp

lemma ins_sort_ok: "sort_Slice_ok ins_sort"
proof -
  have "mset (foldr (ins_by lt) xs []) = mset xs" for lt :: "Node \<Rightarrow> Node \<Rightarrow> bool" and xs
    by (induction xs) auto
  moreover have "sorted_wrt (\<lambda>x y. \<not> lt y x) (foldr (ins_by lt) xs [])" if "strict_weak lt"
    for lt :: "Node \<Rightarrow> Node \<Rightarrow> bool" and xs
    by (induction xs) (auto simp: that sorted_ins_by)
  ultimately show ?thesis by (simp add: sort_Slice_ok_def ins_sort_def)
qed

lemma Intn_zero_ok: "Intn_ok (\<lambda>n. 0)"
  by (simp add: Intn_ok_def)

definition sample_node :: "string \<Rightarrow> real \<Rightarrow> int \<Rightarrow> Node" where
  "sample_node i cpu conns = (node_of_registration sample_reg)\<lparr>n_ID := i, n_Status := NodeOnline,
     n_LastHeartbeat := 5, n_CPUUsage := cpu, n_ActiveConns := conns\<rparr>"

definition sample_bal :: "string \<Rightarrow> Balancer" where
  "sample_bal s = \<lparr>b_strategy = s, b_rrIndex = 1\<rparr>"

definition sample_nodes :: "Node list" where
  "sample_nodes = [sample_node ''a'' 90 1, sample_node ''b'' 10 2, sample_node ''c'' 20 5]"

lemmas sample_bal_defs = sample_node_def sample_nodes_def sample_bal_def node_of_registration_def sample_reg_def
  IsHealthy_def AvailableSlots_def

theorem SelectNode_sound_witness:
  "case fst (SelectNode ins_sort (\<lambda>n. 0) 6 sample_nodes ''m'' (sample_bal StrategyRandom)) of
      Inr (Some n) \<Rightarrow> n \<in> set sample_nodes \<and> AvailableSlots n > 0
    | _ \<Rightarrow> False"
proof -
  have "0 \<le> b_rrIndex (sample_bal StrategyRandom)" by (simp add: sample_bal_def)
  note S = SelectNode_sound [OF ins_sort_ok Intn_zero_ok this, where now = 6 and nodes = sample_nodes and model = "''m''"]
  have "\<exists>n \<in> set sample_nodes. IsHealthy 6 (10 * second) n \<and> AvailableSlots n > 0"
    by (simp add: sample_bal_defs)
  with S show ?thesis by (auto split: sum.splits option.splits)
qed

theorem SelectNode_optimal_witness:
  "\<exists>n. fst (SelectNode ins_sort (\<lambda>n. 0) 6 sample_nodes ''m'' (sample_bal ''no such strategy'')) = Inr (Some n) \<and>
     n_ID n = ''b'' \<and> LoadScore n \<le> LoadScore (sample_node ''a'' 90 1)"
proof -
  let ?n = "sample_node ''b'' 10 2" and ?c = "sample_node ''a'' 90 1"
  have cands: "candidates 6 sample_nodes = [?c, ?n]"
    by (simp add: candidates_def sample_bal_defs)
  have load: "LoadScore ?n < LoadScore ?c"
    by (simp add: LoadScore_def sample_node_def node_of_registration_def sample_reg_def)
  have ne: "sample_nodes \<noteq> []" by (simp add: sample_nodes_def)
  have "fst (SelectNode ins_sort (\<lambda>n. 0) 6 sample_nodes ''m'' (sample_bal ''no such strategy'')) = Inr (Some ?n)"
    using load ne by (simp add: SelectNode_def cands Let_def sample_bal_def strategy_defs leastLoad_def ins_sort_def)
  from SelectNode_optimal [OF ins_sort_ok this, of ?c] this show ?thesis
    by (simp add: sample_bal_defs strategy_defs)
qed

theorem roundRobin_fair_witness:
  "rr_selections (length sample_nodes) (sample_bal StrategyRoundRobin) sample_nodes
    = map (\<lambda>n. Inr (Some n)) [sample_node ''b'' 10 2, sample_node ''c'' 20 5, sample_node ''a'' 90 1]"
  using roundRobin_fair [of sample_nodes "sample_bal StrategyRoundRobin"]
  by (simp add: sample_nodes_def sample_bal_def)

theorem LoadScore_bounds_witness:
  "0 \<le> LoadScore (sample_node ''b'' 10 2) \<and> LoadScore (sample_node ''b'' 10 2) \<le> 1"
  by (rule LoadScore_bounds) (simp_all add: sample_node_def node_of_registration_def sample_reg_def)

end
