(* ===== verification/Cluster_Proxy.thy ===== *)
theory Cluster_Proxy
  imports Req_Queue Load_Balancer
begin

text \<open>
  The inference proxy, \<^verbatim>\<open>internal/proxy/proxy.go\<close>, and the API over it, \<^verbatim>\<open>internal/api/handlers.go\<close>. A
  handler runs in three atomic parts, between which other requests may run: the request is queued,
  it is started (a node is selected), and it is finished with what the upstream call gave. The
  theory shows that a request that was queued ends in the history with a final status and off the
  active table, and, over all interleavings, that the active table holds exactly the requests in flight
  and that the queue is never drained: once it is full of requests that were already served, every
  later inference request is refused.
\<close>

section \<open>State\<close>

record Proxy =
  px_cluster :: Manager
  px_balancer :: Balancer
  px_queue :: Queue
  px_history :: History
  px_active :: "string \<rightharpoonup> req_addr"
  px_heap :: req_heap
  px_next :: req_addr

text \<open>
  \<open>px_heap\<close> holds the requests, \<open>px_next\<close> is an address no request has. What comes from outside: the
  upstream node's answer, and the caller's side of the connection.
\<close>

datatype upstream =
    NewRequestFails string
  | DoFails string
  | Answer int "(string \<times> string) list" "string list"

datatype proxy_reply =
    ErrorReply string int
  | Relay "(string \<times> string) list" int string

definition proxy_New :: "Manager \<Rightarrow> Balancer \<Rightarrow> Queue \<Rightarrow> History \<Rightarrow> req_heap \<Rightarrow> req_addr \<Rightarrow> Proxy" where
  "proxy_New cl bal q hist h next' = \<lparr>px_cluster = cl, px_balancer = bal, px_queue = q, px_history = hist,
     px_active = Map.empty, px_heap = h, px_next = next'\<rparr>"

section \<open>The parts of an inference request\<close>

text \<open>
  \<open>queue_request\<close> is \<^verbatim>\<open>handleInference\<close> up to its dispatch: the body is read and decoded (\<open>None\<close>: it cannot
  be read; \<open>Some (bytes, None)\<close>: it is no JSON object), the request is allocated and put into the
  queue. It returns the request's address and whether the answer is to be streamed.
\<close>

type_synonym body_read = "(string \<times> jobj option) option"

definition body_priority :: "jobj \<Rightarrow> int" where
  "body_priority b = (case get_num b ''priority'' of Some x \<Rightarrow> trunc_float x | None \<Rightarrow> PriorityNormal)"

definition queue_request ::
  "gotime \<Rightarrow> string \<Rightarrow> body_read \<Rightarrow> Proxy \<Rightarrow> (proxy_reply + req_addr \<times> bool) \<times> Proxy" where
  "queue_request now reqID rd s =
     (case rd of
        None \<Rightarrow> (Inl (ErrorReply ''failed to read body'' 400), s)
      | Some (body, None) \<Rightarrow> (Inl (ErrorReply ''invalid json'' 400), s)
      | Some (body, Some b) \<Rightarrow>
          let a = px_next s;
              req = \<lparr>rq_ID = reqID, rq_Model = str_or_empty (get_str b ''model''),
                rq_Priority = body_priority b, rq_Status = StatusPending, rq_NodeID = [],
                rq_CreatedAt = 0, rq_StartedAt = None, rq_CompletedAt = None, rq_Error = [], rq_Metadata = body\<rparr>
          in case Enqueue now a ((px_heap s)(a := req), px_queue s) of
            (ok, h, q) \<Rightarrow>
              let s' = s\<lparr>px_heap := h, px_queue := q, px_next := Suc a\<rparr>
              in if ok then (Inr (a, get_bool b ''stream'' = Some True), s')
                 else (Inl (ErrorReply ''{\"error\":\"queue full\"}'' 503), s'))"

text \<open>
  \<open>start_request\<close> is the first half of \<^verbatim>\<open>handleSyncResponse\<close> and of \<^verbatim>\<open>handleStreamResponse\<close>, which have it in
  common: a node is selected; without one the request fails, with one it becomes active. A panic of
  the selection leaves the state as it was.
\<close>

definition start_request ::
  "slice_sort \<Rightarrow> (int \<Rightarrow> int) \<Rightarrow> gotime \<Rightarrow> string list \<Rightarrow> req_addr \<Rightarrow> Proxy
     \<Rightarrow> (string + proxy_reply + Node) \<times> Proxy" where
  "start_request srt rnd now ks a s =
     (case SelectNode srt rnd now (GetHealthyNodes now ks (px_cluster s)) (rq_Model (px_heap s a)) (px_balancer s) of
        (Inl msg, bal) \<Rightarrow> (Inl msg, s\<lparr>px_balancer := bal\<rparr>)
      | (Inr None, bal) \<Rightarrow>
          (Inr (Inl (ErrorReply ''{\"error\":\"no available nodes in cluster\"}'' 503)),
           s\<lparr>px_balancer := bal,
             px_heap := (px_heap s)(a := (px_heap s a)\<lparr>rq_Status := StatusFailed, rq_Error := ''no available nodes''\<rparr>),
             px_history := history_Add (px_history s) a\<rparr>)
      | (Inr (Some node), bal) \<Rightarrow>
          (Inr (Inr node),
           s\<lparr>px_balancer := bal,
             px_heap := (px_heap s)(a := (px_heap s a)\<lparr>rq_Status := StatusRunning, rq_NodeID := n_ID node,
               rq_StartedAt := Some now\<rparr>),
             px_active := (px_active s)(rq_ID (px_heap s a) \<mapsto> a)\<rparr>))"

text \<open>The deferred function: off the active table, completion time, into the history.\<close>

definition retire_request :: "gotime \<Rightarrow> req_addr \<Rightarrow> Request \<Rightarrow> Proxy \<Rightarrow> Proxy" where
  "retire_request now a r s =
     s\<lparr>px_active := (px_active s)(rq_ID r := None),
       px_heap := (px_heap s)(a := r\<lparr>rq_CompletedAt := Some now\<rparr>),
       px_history := history_Add (px_history s) a\<rparr>"

definition fail_request :: "string \<Rightarrow> Request \<Rightarrow> Request" where
  "fail_request msg r = r\<lparr>rq_Status := StatusFailed, rq_Error := msg\<rparr>"

definition finish_sync :: "gotime \<Rightarrow> Node \<Rightarrow> req_addr \<Rightarrow> upstream \<Rightarrow> Proxy \<Rightarrow> proxy_reply \<times> Proxy" where
  "finish_sync now node a up s =
     (let r = px_heap s a in
      case up of
        NewRequestFails e \<Rightarrow> (ErrorReply ''{\"error\":\"proxy error\"}'' 500, retire_request now a (fail_request e r) s)
      | DoFails e \<Rightarrow> (ErrorReply (''{\"error\":\"upstream error: '' @ e @ ''\"}'') 502,
          retire_request now a (fail_request e r) s)
      | Answer code hdrs chunks \<Rightarrow>
          (Relay [(''Content-Type'', ''application/json''), (''X-Hive-Request-ID'', rq_ID r),
             (''X-Hive-Node-ID'', n_ID node)] code (concat chunks),
           retire_request now a (r\<lparr>rq_Status := StatusComplete\<rparr>) s))"

text \<open>
  The stream variant sends its header before the upstream call, so an upstream error shows as an
  empty stream; \<open>flusher\<close> says whether the connection can be flushed.
\<close>

definition finish_stream :: "gotime \<Rightarrow> bool \<Rightarrow> Node \<Rightarrow> req_addr \<Rightarrow> upstream \<Rightarrow> Proxy \<Rightarrow> proxy_reply \<times> Proxy" where
  "finish_stream now flusher node a up s =
     (let r = px_heap s a;
          hdr = [(''Content-Type'', ''application/x-ndjson''), (''X-Hive-Request-ID'', rq_ID r),
             (''X-Hive-Node-ID'', n_ID node)]
      in if \<not> flusher then (ErrorReply ''streaming not supported'' 500, retire_request now a r s)
         else case up of
           NewRequestFails e \<Rightarrow> (Relay hdr 200 [], retire_request now a (fail_request e r) s)
         | DoFails e \<Rightarrow> (Relay hdr 200 [], retire_request now a (fail_request e r) s)
         | Answer code hdrs chunks \<Rightarrow>
             (Relay hdr 200 (concat chunks), retire_request now a (r\<lparr>rq_Status := StatusComplete\<rparr>) s))"

section \<open>The whole handlers\<close>

text \<open>The clock readings, the map order and the random source of one request.\<close>

record req_env =
  ev_srt :: slice_sort
  ev_rnd :: "int \<Rightarrow> int"
  ev_queued :: gotime
  ev_started :: gotime
  ev_done :: gotime
  ev_keys :: "string list"
  ev_reqID :: string
  ev_flusher :: bool
  ev_up :: upstream

definition handleSyncResponse :: "req_env \<Rightarrow> req_addr \<Rightarrow> Proxy \<Rightarrow> (string + proxy_reply) \<times> Proxy" where
  "handleSyncResponse e a s =
     (case start_request (ev_srt e) (ev_rnd e) (ev_started e) (ev_keys e) a s of
        (Inl msg, s1) \<Rightarrow> (Inl msg, s1)
      | (Inr (Inl reply), s1) \<Rightarrow> (Inr reply, s1)
      | (Inr (Inr node), s1) \<Rightarrow> map_prod Inr id (finish_sync (ev_done e) node a (ev_up e) s1))"

definition handleStreamResponse :: "req_env \<Rightarrow> req_addr \<Rightarrow> Proxy \<Rightarrow> (string + proxy_reply) \<times> Proxy" where
  "handleStreamResponse e a s =
     (case start_request (ev_srt e) (ev_rnd e) (ev_started e) (ev_keys e) a s of
        (Inl msg, s1) \<Rightarrow> (Inl msg, s1)
      | (Inr (Inl reply), s1) \<Rightarrow> (Inr reply, s1)
      | (Inr (Inr node), s1) \<Rightarrow> map_prod Inr id (finish_stream (ev_done e) (ev_flusher e) node a (ev_up e) s1))"

definition handleInference :: "req_env \<Rightarrow> body_read \<Rightarrow> Proxy \<Rightarrow> (string + proxy_reply) \<times> Proxy" where
  "handleInference e rd s =
     (case queue_request (ev_queued e) (ev_reqID e) rd s of
        (Inl reply, s1) \<Rightarrow> (Inr reply, s1)
      | (Inr (a, stream), s1) \<Rightarrow> if stream then handleStreamResponse e a s1 else handleSyncResponse e a s1)"

text \<open>The two variants share their beginning.\<close>

lemma handleInference_eq:
  "handleInference e rd s =
     (case queue_request (ev_queued e) (ev_reqID e) rd s of
        (Inl reply, s1) \<Rightarrow> (Inr reply, s1)
      | (Inr (a, stream), s1) \<Rightarrow>
          (case start_request (ev_srt e) (ev_rnd e) (ev_started e) (ev_keys e) a s1 of
             (Inl msg, s2) \<Rightarrow> (Inl msg, s2)
           | (Inr (Inl reply), s2) \<Rightarrow> (Inr reply, s2)
           | (Inr (Inr node), s2) \<Rightarrow>
               map_prod Inr id (if stream then finish_stream (ev_done e) (ev_flusher e) node a (ev_up e) s2
                 else finish_sync (ev_done e) node a (ev_up e) s2)))"
  by (simp add: handleInference_def handleStreamResponse_def handleSyncResponse_def split: prod.split sum.split)

definition proxyLocal :: "upstream \<Rightarrow> proxy_reply" where
  "proxyLocal up = (case up of
     NewRequestFails e \<Rightarrow> ErrorReply e 500
   | DoFails e \<Rightarrow> ErrorReply e 502
   | Answer code hdrs chunks \<Rightarrow> Relay hdrs code (concat chunks))"

definition HandleOllama ::
  "req_env \<Rightarrow> string \<Rightarrow> body_read \<Rightarrow> Proxy \<Rightarrow> (string + proxy_reply) \<times> Proxy" where
  "HandleOllama e path rd s =
     (if has_prefix path ''/api/generate'' \<or> has_prefix path ''/api/chat''
      then handleInference e rd s
      else (Inr (proxyLocal (ev_up e)), s))"

definition HandleCancel :: "string option \<Rightarrow> Proxy \<Rightarrow> fields reply \<times> Proxy" where
  "HandleCancel decoded s =
     (case decoded of
        None \<Rightarrow> (HttpError ''bad json'' 400, s)
      | Some i \<Rightarrow>
          (case Cancel i (px_heap s, px_queue s) of (ok, h, q) \<Rightarrow>
             let s' = s\<lparr>px_heap := h, px_queue := q\<rparr>
             in if ok then (HttpOK [(''status'', ''cancelled'')], s')
                else (HttpError ''{\"error\":\"request not found or already running\"}'' 404, s')))"

definition GetActiveRequests :: "string list \<Rightarrow> Proxy \<Rightarrow> req_addr list" where
  "GetActiveRequests ks s = map (the \<circ> px_active s) ks"

section \<open>The API handlers\<close>

record ClusterStatus =
  cs_total_nodes :: nat
  cs_online_nodes :: nat
  cs_total_slots :: int
  cs_used_slots :: int
  cs_queue_depth :: int
  cs_active_requests :: nat
  cs_strategy :: string
  cs_models :: "string set"
  cs_queue_max_size :: int
  cs_pending :: int
  cs_completed :: int
  cs_failed :: int

definition sum_slots :: "Node list \<Rightarrow> int \<times> int" where
  "sum_slots nodes = foldl (\<lambda>(tot, used) n. (tot + n_Capacity n, used + GetActiveConns n)) (0, 0) nodes"

text \<open>\<open>ks\<close>, \<open>ks'\<close>: the orders in which the node table is visited; \<open>as\<close>: the active table.\<close>

definition HandleAPIClusterStatus ::
  "gotime \<Rightarrow> string list \<Rightarrow> string list \<Rightarrow> string list \<Rightarrow> Proxy \<Rightarrow> ClusterStatus" where
  "HandleAPIClusterStatus now ks ks' as s =
     (let nodes = GetNodes ks (px_cluster s);
          healthy = GetHealthyNodes now ks' (px_cluster s);
          slots = sum_slots nodes;
          st = history_Stats (px_heap s) (px_history s)
      in \<lparr>cs_total_nodes = length nodes, cs_online_nodes = length healthy,
          cs_total_slots = fst slots, cs_used_slots = snd slots,
          cs_queue_depth = Len (px_queue s), cs_active_requests = length (GetActiveRequests as s),
          cs_strategy = GetStrategy (px_balancer s),
          cs_models = (\<Union>n \<in> set healthy. set (GetModels n)),
          cs_queue_max_size = 1000, cs_pending = st_Pending st, cs_completed = st_Completed st,
          cs_failed = st_Failed st\<rparr>)"

definition HandleAPIQueue :: "Proxy \<Rightarrow> Request list" where
  "HandleAPIQueue s = map (px_heap s) (queue_List (px_queue s))"

definition HandleAPIHistory :: "Proxy \<Rightarrow> Request list option" where
  "HandleAPIHistory s = map_option (map (px_heap s)) (history_List (px_history s) 50)"

definition HandleAPIActive :: "string list \<Rightarrow> Proxy \<Rightarrow> Request list" where
  "HandleAPIActive as s = map (px_heap s) (GetActiveRequests as s)"

definition HandleAPIStrategy :: "string \<Rightarrow> string option \<Rightarrow> Proxy \<Rightarrow> fields reply \<times> Proxy" where
  "HandleAPIStrategy method body s =
     (if method = ''POST'' then
        (case body of
           None \<Rightarrow> (HttpError ''bad json'' 400, s)
         | Some st \<Rightarrow> (HttpOK [(''strategy'', st)], s\<lparr>px_balancer := SetStrategy st (px_balancer s)\<rparr>))
      else (HttpOK [(''strategy'', GetStrategy (px_balancer s))], s))"

definition HandleAPICancel :: "string option \<Rightarrow> Proxy \<Rightarrow> fields reply \<times> Proxy" where
  "HandleAPICancel decoded s = HandleCancel decoded s"

definition HandleAPIModels :: "gotime \<Rightarrow> string list \<Rightarrow> Proxy \<Rightarrow> (string \<rightharpoonup> string list)" where
  "HandleAPIModels now ks s =
     foldl (\<lambda>mn n. foldl (\<lambda>mn m. mn(m \<mapsto> (case mn m of None \<Rightarrow> [] | Some ns \<Rightarrow> ns) @ [n_Name n])) mn (GetModels n))
       Map.empty (GetHealthyNodes now ks (px_cluster s))"

record SSEFrame =
  sf_nodes :: "Node list"
  sf_total_nodes :: nat
  sf_online_nodes :: nat
  sf_total_slots :: int
  sf_used_slots :: int
  sf_queue_depth :: int
  sf_active :: "Request list"
  sf_history :: "Request list option"
  sf_strategy :: string

definition sse_frame :: "gotime \<Rightarrow> string list \<Rightarrow> string list \<Rightarrow> string list \<Rightarrow> Proxy \<Rightarrow> SSEFrame" where
  "sse_frame now ks ks' as s =
     (let nodes = GetNodes ks (px_cluster s);
          healthy = GetHealthyNodes now ks' (px_cluster s);
          slots = sum_slots nodes
      in \<lparr>sf_nodes = nodes, sf_total_nodes = length nodes, sf_online_nodes = length healthy,
          sf_total_slots = fst slots, sf_used_slots = snd slots, sf_queue_depth = Len (px_queue s),
          sf_active = map (px_heap s) (GetActiveRequests as s),
          sf_history = map_option (map (px_heap s)) (history_List (px_history s) 20),
          sf_strategy = GetStrategy (px_balancer s)\<rparr>)"

text \<open>
  The event stream: a frame at once and one per tick, until a write fails or the client goes away
  (the end of the list). Each tick comes with whether its write succeeded.
\<close>

fun sse_loop :: "(SSEFrame \<times> bool) list \<Rightarrow> SSEFrame list" where
  "sse_loop [] = []"
| "sse_loop ((f, written) # rest) = (if written then f # sse_loop rest else [])"

definition HandleSSE :: "bool \<Rightarrow> (SSEFrame \<times> bool) list \<Rightarrow> SSEFrame list reply" where
  "HandleSSE flusher frames =
     (if \<not> flusher then HttpError ''streaming not supported'' 500 else HttpOK (sse_loop frames))"

section \<open>One request\<close>

definition queue_full :: proxy_reply where
  "queue_full = ErrorReply ''{\"error\":\"queue full\"}'' 503"

lemma length_Enqueue:
  "length (q_items (snd (snd (Enqueue now a (h, q)))))
     = length (q_items q) + (if int (length (q_items q)) < q_maxSize q then 1 else 0)"
  using insertIdx_le by (auto simp: queue_op_defs)

lemma Enqueue_set:
  "int (length (q_items q)) < q_maxSize q \<Longrightarrow>
     set (q_items (snd (snd (Enqueue now a (h, q))))) = insert a (set (q_items q))"
proof -
  assume room: "int (length (q_items q)) < q_maxSize q"
  define i where "i = insertIdx (h(a := (h a)\<lparr>rq_Status := StatusPending, rq_CreatedAt := now\<rparr>)) (rq_Priority (h a)) (q_items q)"
  have "q_items (snd (snd (Enqueue now a (h, q)))) = take i (q_items q) @ a # drop i (q_items q)"
    using room by (simp add: queue_op_defs i_def)
  moreover have "set (take i (q_items q)) \<union> set (drop i (q_items q)) = set (q_items q)"
    by (metis append_take_drop_id set_append)
  ultimately show ?thesis by auto
qed

lemma Enqueue_ok: "fst (Enqueue now a (h, q)) \<longleftrightarrow> int (length (q_items q)) < q_maxSize q"
  by (auto simp: queue_op_defs)

lemma Enqueue_maxSize [simp]: "q_maxSize (snd (snd (Enqueue now a s))) = q_maxSize (snd s)"
  by (cases s) (auto simp: queue_op_defs)

definition px_depth :: "Proxy \<Rightarrow> int" where
  "px_depth s = int (length (q_items (px_queue s)))"

lemma queue_request_cases:
  assumes "queue_request now i (Some (body, Some b)) s = (r, s')"
  shows "px_cluster s' = px_cluster s \<and> px_history s' = px_history s \<and> px_active s' = px_active s \<and>
    px_balancer s' = px_balancer s \<and> px_next s' = Suc (px_next s) \<and>
    q_maxSize (px_queue s') = q_maxSize (px_queue s) \<and> (\<forall>a. a \<noteq> px_next s \<longrightarrow> px_heap s' a = px_heap s a) \<and>
    (if px_depth s < q_maxSize (px_queue s)
     then r = Inr (px_next s, get_bool b ''stream'' = Some True) \<and> px_depth s' = px_depth s + 1 \<and>
       set (q_items (px_queue s')) = insert (px_next s) (set (q_items (px_queue s))) \<and>
       rq_ID (px_heap s' (px_next s)) = i \<and> rq_Status (px_heap s' (px_next s)) = StatusPending \<and>
       rq_Model (px_heap s' (px_next s)) = str_or_empty (get_str b ''model'')
     else r = Inl queue_full \<and> px_queue s' = px_queue s)"
proof -
  define req where "req = \<lparr>rq_ID = i, rq_Model = str_or_empty (get_str b ''model''),
    rq_Priority = body_priority b, rq_Status = StatusPending, rq_NodeID = [],
    rq_CreatedAt = 0, rq_StartedAt = None, rq_CompletedAt = None, rq_Error = [], rq_Metadata = body\<rparr>"
  define E where "E = Enqueue now (px_next s) ((px_heap s)(px_next s := req), px_queue s)"
  have ok: "fst E \<longleftrightarrow> px_depth s < q_maxSize (px_queue s)"
    unfolding E_def Enqueue_ok px_depth_def ..
  have len: "length (q_items (snd (snd E))) = length (q_items (px_queue s)) + (if fst E then 1 else 0)"
    unfolding E_def length_Enqueue Enqueue_ok ..
  have set: "fst E \<Longrightarrow> set (q_items (snd (snd E))) = insert (px_next s) (set (q_items (px_queue s)))"
    unfolding E_def Enqueue_ok by (rule Enqueue_set)
  have same: "\<not> fst E \<Longrightarrow> snd (snd E) = px_queue s" by (auto simp: E_def queue_op_defs split: if_splits)
  have size: "q_maxSize (snd (snd E)) = q_maxSize (px_queue s)" by (simp add: E_def)
  have heap: "\<forall>a. a \<noteq> px_next s \<longrightarrow> fst (snd E) a = px_heap s a"
    by (simp add: E_def queue_op_defs)
  have cell: "fst E \<Longrightarrow> fst (snd E) (px_next s) = req\<lparr>rq_Status := StatusPending, rq_CreatedAt := now\<rparr>"
    by (auto simp: E_def queue_op_defs split: if_splits)
  from assms have "r = (if fst E then Inr (px_next s, get_bool b ''stream'' = Some True) else Inl queue_full)"
    and "s' = s\<lparr>px_heap := fst (snd E), px_queue := snd (snd E), px_next := Suc (px_next s)\<rparr>"
    by (auto simp: queue_request_def Let_def req_def [symmetric] E_def [symmetric] case_prod_unfold
        queue_full_def split: if_splits)
  then show ?thesis using ok len set same size heap cell by (auto simp: px_depth_def req_def)
qed

lemma queue_request_bad:
  "queue_request now i None s = (Inl (ErrorReply ''failed to read body'' 400), s)"
  "queue_request now i (Some (body, None)) s = (Inl (ErrorReply ''invalid json'' 400), s)"
  by (simp_all add: queue_request_def)

text \<open>The node the balancer gives a request of this model in this state.\<close>

abbreviation selection :: "req_env \<Rightarrow> string \<Rightarrow> Proxy \<Rightarrow> string + Node option" where
  "selection e model s \<equiv> fst (SelectNode (ev_srt e) (ev_rnd e) (ev_started e)
     (GetHealthyNodes (ev_started e) (ev_keys e) (px_cluster s)) model (px_balancer s))"

text \<open>What a served request ends as, and what its client is told.\<close>

definition final_status :: "req_env \<Rightarrow> bool \<Rightarrow> RequestStatus" where
  "final_status e stream = (if stream \<and> \<not> ev_flusher e then StatusRunning
     else case ev_up e of Answer _ _ _ \<Rightarrow> StatusComplete | _ \<Rightarrow> StatusFailed)"

definition told_ok :: "proxy_reply \<Rightarrow> bool" where
  "told_ok rep \<longleftrightarrow> (case rep of Relay _ _ _ \<Rightarrow> True | ErrorReply _ _ \<Rightarrow> False)"

lemma start_request_cases:
  "start_request srt rnd now ks a s =
     (case SelectNode srt rnd now (GetHealthyNodes now ks (px_cluster s)) (rq_Model (px_heap s a)) (px_balancer s) of
        (sel, bal) \<Rightarrow> (case sel of
          Inl msg \<Rightarrow> (Inl msg, s\<lparr>px_balancer := bal\<rparr>)
        | Inr None \<Rightarrow> (Inr (Inl (ErrorReply ''{\"error\":\"no available nodes in cluster\"}'' 503)),
            s\<lparr>px_balancer := bal,
              px_heap := (px_heap s)(a := (px_heap s a)\<lparr>rq_Status := StatusFailed, rq_Error := ''no available nodes''\<rparr>),
              px_history := history_Add (px_history s) a\<rparr>)
        | Inr (Some node) \<Rightarrow> (Inr (Inr node),
            s\<lparr>px_balancer := bal,
              px_heap := (px_heap s)(a := (px_heap s a)\<lparr>rq_Status := StatusRunning, rq_NodeID := n_ID node,
                rq_StartedAt := Some now\<rparr>),
              px_active := (px_active s)(rq_ID (px_heap s a) \<mapsto> a)\<rparr>)))"
  by (simp add: start_request_def split: prod.splits sum.splits option.splits)

definition finish_request :: "req_env \<Rightarrow> bool \<Rightarrow> Node \<Rightarrow> req_addr \<Rightarrow> Proxy \<Rightarrow> proxy_reply \<times> Proxy" where
  "finish_request e stream node a s =
     (if stream then finish_stream (ev_done e) (ev_flusher e) node a (ev_up e) s
      else finish_sync (ev_done e) node a (ev_up e) s)"

lemma finish_request_cases:
  "snd (finish_request e stream node a s) =
     retire_request (ev_done e) a (if stream \<and> \<not> ev_flusher e then px_heap s a else case ev_up e of
        Answer _ _ _ \<Rightarrow> (px_heap s a)\<lparr>rq_Status := StatusComplete\<rparr>
      | DoFails msg \<Rightarrow> fail_request msg (px_heap s a)
      | NewRequestFails msg \<Rightarrow> fail_request msg (px_heap s a)) s"
  "\<not> stream \<Longrightarrow> told_ok (fst (finish_request e stream node a s)) = (final_status e stream = StatusComplete)"
  "fst (finish_request e stream node a s) \<noteq> queue_full"
  by (auto simp: finish_request_def finish_sync_def finish_stream_def Let_def told_ok_def final_status_def
      queue_full_def split: upstream.splits)

lemma start_request_fst:
  "fst (start_request srt rnd now ks a s) =
     (case fst (SelectNode srt rnd now (GetHealthyNodes now ks (px_cluster s)) (rq_Model (px_heap s a)) (px_balancer s)) of
        Inl msg \<Rightarrow> Inl msg
      | Inr None \<Rightarrow> Inr (Inl (ErrorReply ''{\"error\":\"no available nodes in cluster\"}'' 503))
      | Inr (Some node) \<Rightarrow> Inr (Inr node))"
  by (simp add: start_request_cases split: prod.splits sum.splits option.splits)

lemma start_frame: "px_queue (snd (start_request srt rnd now ks a s)) = px_queue s"
  by (simp add: start_request_cases split: prod.splits sum.splits option.splits)

text \<open>
  C3. What an inference request that found room in the queue ends as. If the selection panics, the
  panic goes on to the server. If no node can serve it, it fails, joins the history, and the client is
  told 503. Otherwise it leaves the active table, is the newest request of the history with the ID
  of the node that served it, and its status is complete if the upstream node answered, whatever
  status code it answered with, and failed if the call failed (a stream over a connection that
  cannot be flushed stays running). The request stays in the queue in every case.
\<close>

theorem handleInference_outcome:
  assumes room: "px_depth s < q_maxSize (px_queue s)"
    and run: "handleInference e (Some (body, Some b)) s = (rep, s')"
    and stream: "stream = (get_bool b ''stream'' = Some True)"
  shows "px_depth s' = px_depth s + 1 \<and> px_next s \<in> set (q_items (px_queue s')) \<and>
    (case selection e (str_or_empty (get_str b ''model'')) s of
       Inl msg \<Rightarrow> rep = Inl msg \<and> px_history s' = px_history s
     | Inr None \<Rightarrow> rep = Inr (ErrorReply ''{\"error\":\"no available nodes in cluster\"}'' 503) \<and>
         rq_Status (px_heap s' (px_next s)) = StatusFailed \<and>
         px_history s' = history_Add (px_history s) (px_next s) \<and> px_active s' = px_active s
     | Inr (Some node) \<Rightarrow>
         rq_Status (px_heap s' (px_next s)) = final_status e stream \<and>
         rq_NodeID (px_heap s' (px_next s)) = n_ID node \<and>
         rq_CompletedAt (px_heap s' (px_next s)) = Some (ev_done e) \<and>
         (\<exists>r. rep = Inr r \<and> (\<not> stream \<longrightarrow> told_ok r = (final_status e stream = StatusComplete))) \<and>
         px_history s' = history_Add (px_history s) (px_next s) \<and>
         px_active s' = (px_active s)(ev_reqID e := None))"
proof -
  obtain q s1 where q: "queue_request (ev_queued e) (ev_reqID e) (Some (body, Some b)) s = (q, s1)"
    by (metis surj_pair)
  note Q = queue_request_cases [OF q]
  have q1: "q = Inr (px_next s, stream)" using Q room stream by simp
  define x where "x = start_request (ev_srt e) (ev_rnd e) (ev_started e) (ev_keys e) (px_next s) s1"
  have hi: "(rep, s') = (case x of
             (Inl msg, s2) \<Rightarrow> (Inl msg, s2)
           | (Inr (Inl reply), s2) \<Rightarrow> (Inr reply, s2)
           | (Inr (Inr node), s2) \<Rightarrow> map_prod Inr id (finish_request e stream node (px_next s) s2))"
    using run [symmetric] unfolding handleInference_eq finish_request_def x_def by (simp add: q q1)
  have "px_queue (snd x) = px_queue s1" by (simp add: x_def start_frame)
  with hi have "px_queue s' = px_queue s1"
    by (auto simp: map_prod_def case_prod_unfold finish_request_cases retire_request_def split: prod.splits sum.splits)
  moreover have "case selection e (str_or_empty (get_str b ''model'')) s of
       Inl msg \<Rightarrow> rep = Inl msg \<and> px_history s' = px_history s
     | Inr None \<Rightarrow> rep = Inr (ErrorReply ''{\"error\":\"no available nodes in cluster\"}'' 503) \<and>
         rq_Status (px_heap s' (px_next s)) = StatusFailed \<and>
         px_history s' = history_Add (px_history s) (px_next s) \<and> px_active s' = px_active s
     | Inr (Some node) \<Rightarrow>
         rq_Status (px_heap s' (px_next s)) = final_status e stream \<and>
         rq_NodeID (px_heap s' (px_next s)) = n_ID node \<and>
         rq_CompletedAt (px_heap s' (px_next s)) = Some (ev_done e) \<and>
         (\<exists>r. rep = Inr r \<and> (\<not> stream \<longrightarrow> told_ok r = (final_status e stream = StatusComplete))) \<and>
         px_history s' = history_Add (px_history s) (px_next s) \<and>
         px_active s' = (px_active s)(ev_reqID e := None)"
    using hi Q room unfolding x_def start_request_cases
    by (auto simp: finish_request_cases retire_request_def fail_request_def final_status_def
        map_prod_def case_prod_unfold split: prod.splits sum.splits option.splits upstream.splits if_splits)
  ultimately show ?thesis using Q room by (simp add: px_depth_def)
qed

section \<open>A sequence of requests\<close>

fun inference_run :: "(req_env \<times> body_read) list \<Rightarrow> Proxy \<Rightarrow> (string + proxy_reply) list" where
  "inference_run [] s = []"
| "inference_run ((e, rd) # rest) s =
     (case handleInference e rd s of (rep, s') \<Rightarrow> rep # inference_run rest s')"

lemma handleInference_depth:
  assumes "handleInference e (Some (body, Some b)) s = (rep, s')"
  shows "q_maxSize (px_queue s') = q_maxSize (px_queue s) \<and>
    (if px_depth s < q_maxSize (px_queue s) then px_depth s' = px_depth s + 1 \<and> rep \<noteq> Inr queue_full
     else px_depth s' = px_depth s \<and> rep = Inr queue_full)"
proof -
  obtain q s1 where q: "queue_request (ev_queued e) (ev_reqID e) (Some (body, Some b)) s = (q, s1)"
    by (metis surj_pair)
  note Q = queue_request_cases [OF q]
  show ?thesis
  proof (cases "px_depth s < q_maxSize (px_queue s)")
    case False
    with assms Q show ?thesis by (auto simp: handleInference_eq q px_depth_def)
  next
    case True
    let ?st = "get_bool b ''stream'' = Some True"
    define x where "x = start_request (ev_srt e) (ev_rnd e) (ev_started e) (ev_keys e) (px_next s) s1"
    have hi: "(rep, s') = (case x of
             (Inl msg, s2) \<Rightarrow> (Inl msg, s2)
           | (Inr (Inl reply), s2) \<Rightarrow> (Inr reply, s2)
           | (Inr (Inr node), s2) \<Rightarrow> map_prod Inr id (finish_request e ?st node (px_next s) s2))"
      using assms [symmetric] True Q unfolding handleInference_eq finish_request_def x_def by (simp add: q)
    have "px_queue (snd x) = px_queue s1" by (simp add: x_def start_frame)
    moreover have "fst x \<noteq> Inr (Inl queue_full)"
      by (simp add: x_def start_request_cases queue_full_def split: prod.splits sum.splits option.splits)
    ultimately have "px_queue s' = px_queue s1 \<and> rep \<noteq> Inr queue_full"
      using hi by (auto simp: map_prod_def case_prod_unfold finish_request_cases retire_request_def
          split: prod.splits sum.splits)
    with True Q show ?thesis by (simp add: px_depth_def)
  qed
qed

text \<open>
  The queue is never drained by the handlers. On a proxy whose queue of size \<open>n\<close> starts empty, of any
  sequence of inference requests with a JSON body, each waiting for the one before it to be answered,
  exactly the first \<open>n\<close> get past the queue; every later one is refused with 503, though none is in flight.
\<close>

theorem queue_never_drained:
  assumes "queue_New n = Some (px_queue s)"
    and "\<forall>(e, rd) \<in> set reqs. \<exists>body b. rd = Some (body, Some b)"
    and "k < length reqs"
  shows "inference_run reqs s ! k = Inr queue_full \<longleftrightarrow> n \<le> int k"
proof -
  have gen: "inference_run reqs s ! k = Inr queue_full \<longleftrightarrow> n \<le> d + int k"
    if "\<forall>(e, rd) \<in> set reqs. \<exists>body b. rd = Some (body, Some b)" "k < length reqs"
      "px_depth s = d" "q_maxSize (px_queue s) = n" "0 \<le> d" "d \<le> n" for k s d
    using that
  proof (induction reqs arbitrary: k s d)
    case (Cons r reqs)
    obtain e rd where r: "r = (e, rd)" by (cases r)
    with Cons.prems(1) obtain body b where rd: "rd = Some (body, Some b)" by auto
    obtain rep s' where h: "handleInference e rd s = (rep, s')" by (metis surj_pair)
    note D = handleInference_depth [OF h [unfolded rd]]
    show ?case
    proof (cases k)
      case 0
      with D Cons.prems show ?thesis by (auto simp: r h split: if_splits)
    next
      case (Suc k')
      have "inference_run reqs s' ! k' = Inr queue_full \<longleftrightarrow> n \<le> px_depth s' + int k'"
        using Cons.IH [of k' s' "px_depth s'"] Cons.prems D Suc by (auto split: if_splits)
      with D Cons.prems Suc show ?thesis by (auto simp: r h split: if_splits)
    qed
  qed simp
  have "px_queue s = \<lparr>q_items = [], q_maxSize = n, q_notify = False\<rparr>" "0 \<le> n"
    using assms(1) by (simp_all add: queue_New_def split: if_splits)
  with gen [OF assms(2,3), of s 0] show ?thesis by (simp add: px_depth_def)
qed

section \<open>Requests that overlap\<close>

text \<open>
  The handlers run concurrently. Between its parts a request is \<open>Waiting\<close> (queued, not started) or
  \<open>Sent\<close> to a node; other requests, cancellations, changes of strategy and of the cluster come between.
\<close>

datatype thread = Waiting bool | Sent bool Node

type_synonym proxy_system = "Proxy \<times> (req_addr \<rightharpoonup> thread)"

inductive proxy_step :: "proxy_system \<Rightarrow> proxy_system \<Rightarrow> bool" where
  queued: "queue_request now i rd s = (Inr (a, stream), s') \<Longrightarrow>
     proxy_step (s, t) (s', t(a \<mapsto> Waiting stream))"
| refused: "queue_request now i rd s = (Inl rep, s') \<Longrightarrow> proxy_step (s, t) (s', t)"
| started: "t a = Some (Waiting stream) \<Longrightarrow> start_request srt rnd now ks a s = (Inr (Inr node), s') \<Longrightarrow>
     proxy_step (s, t) (s', t(a \<mapsto> Sent stream node))"
| no_node: "t a = Some (Waiting stream) \<Longrightarrow> start_request srt rnd now ks a s = (Inr (Inl rep), s') \<Longrightarrow>
     proxy_step (s, t) (s', t(a := None))"
| panicked: "t a = Some (Waiting stream) \<Longrightarrow> start_request srt rnd now ks a s = (Inl msg, s') \<Longrightarrow>
     proxy_step (s, t) (s', t(a := None))"
| finished: "t a = Some (Sent stream node) \<Longrightarrow> finish_request e stream node a s = (rep, s') \<Longrightarrow>
     proxy_step (s, t) (s', t(a := None))"
| cancelled: "HandleCancel d s = (rep', s') \<Longrightarrow> proxy_step (s, t) (s', t)"
| strategy: "HandleAPIStrategy meth d s = (rep', s') \<Longrightarrow> proxy_step (s, t) (s', t)"
| cluster: "proxy_step (s, t) (s\<lparr>px_cluster := c\<rparr>, t)"

text \<open>\<open>busy_ok\<close>: addresses are fresh, and what is on the active table is in flight.\<close>

definition busy_ok :: "proxy_system \<Rightarrow> bool" where
  "busy_ok = (\<lambda>(s, t). (\<forall>a. t a \<noteq> None \<longrightarrow> a < px_next s) \<and> (\<forall>a \<in> set (q_items (px_queue s)). a < px_next s) \<and>
     (\<forall>a st node. t a = Some (Sent st node) \<longrightarrow> rq_Status (px_heap s a) = StatusRunning \<and>
        rq_NodeID (px_heap s a) = n_ID node) \<and>
     (\<forall>i a. px_active s i = Some a \<longrightarrow> (\<exists>st node. t a = Some (Sent st node) \<and> rq_ID (px_heap s a) = i)))"

lemma queue_request_cases':
  assumes "queue_request now i rd s = (r, s')"
  shows "px_active s' = px_active s \<and> px_next s \<le> px_next s' \<and>
    (\<forall>a. a \<noteq> px_next s \<longrightarrow> px_heap s' a = px_heap s a) \<and>
    (case r of Inl _ \<Rightarrow> px_queue s' = px_queue s
     | Inr (a, stream) \<Rightarrow> a = px_next s \<and> px_next s' = Suc a \<and>
         px_depth s < q_maxSize (px_queue s) \<and>
         set (q_items (px_queue s')) = insert a (set (q_items (px_queue s))))"
proof (cases "\<exists>body b. rd = Some (body, Some b)")
  case True
  then obtain body b where "rd = Some (body, Some b)" by blast
  with assms queue_request_cases [of now i body b s r s'] show ?thesis by (auto split: if_splits)
next
  case False
  with assms show ?thesis by (auto simp: queue_request_def split: option.splits)
qed

lemma start_request_frame:
  assumes "start_request srt rnd now ks a s = (r, s')"
  shows "px_next s' = px_next s \<and> px_queue s' = px_queue s \<and> (\<forall>b. b \<noteq> a \<longrightarrow> px_heap s' b = px_heap s b) \<and>
    rq_ID (px_heap s' a) = rq_ID (px_heap s a) \<and>
    (rq_Status (px_heap s a) \<noteq> StatusPending \<longrightarrow> rq_Status (px_heap s' a) \<noteq> StatusPending) \<and>
    (case r of Inr (Inr node) \<Rightarrow> rq_Status (px_heap s' a) = StatusRunning \<and> rq_NodeID (px_heap s' a) = n_ID node \<and>
         px_active s' = (px_active s)(rq_ID (px_heap s a) \<mapsto> a)
     | _ \<Rightarrow> px_active s' = px_active s)"
  using assms by (auto simp: start_request_cases split: prod.splits sum.splits option.splits)

lemma finish_request_frame:
  assumes "finish_request e stream node a s = (r, s')"
  shows "px_next s' = px_next s \<and> px_queue s' = px_queue s \<and> (\<forall>b. b \<noteq> a \<longrightarrow> px_heap s' b = px_heap s b) \<and>
    px_active s' = (px_active s)(rq_ID (px_heap s a) := None) \<and>
    (rq_Status (px_heap s a) \<noteq> StatusPending \<longrightarrow> rq_Status (px_heap s' a) \<noteq> StatusPending)"
proof -
  have "s' = snd (finish_request e stream node a s)" using assms by simp
  then show ?thesis unfolding finish_request_cases
    by (auto simp: retire_request_def fail_request_def split: upstream.splits)
qed

lemma HandleCancel_frame:
  assumes "HandleCancel d s = (r, s')"
  shows "px_next s' = px_next s \<and> px_active s' = px_active s \<and> px_cluster s' = px_cluster s \<and>
    px_balancer s' = px_balancer s \<and> px_history s' = px_history s \<and>
    set (q_items (px_queue s')) \<subseteq> set (q_items (px_queue s)) \<and>
    (\<forall>a. rq_ID (px_heap s' a) = rq_ID (px_heap s a) \<and> rq_NodeID (px_heap s' a) = rq_NodeID (px_heap s a) \<and>
       rq_Model (px_heap s' a) = rq_Model (px_heap s a) \<and>
       (rq_Status (px_heap s a) \<noteq> StatusPending \<longrightarrow> px_heap s' a = px_heap s a))"
proof (cases d)
  case None
  with assms show ?thesis by (simp add: HandleCancel_def)
next
  case (Some i)
  show ?thesis
  proof (cases "find_index (\<lambda>a. rq_ID (px_heap s a) = i \<and> rq_Status (px_heap s a) = StatusPending) (q_items (px_queue s))")
    case None
    with assms Some show ?thesis by (simp add: HandleCancel_def queue_op_defs)
  next
    case (Some k)
    note P = find_index_SomeD [OF this]
    show ?thesis
      using assms \<open>d = Some i\<close> Some P set_remove_nth [of k "q_items (px_queue s)"]
      by (auto simp: HandleCancel_def queue_op_defs)
  qed
qed

lemma HandleAPIStrategy_frame:
  "HandleAPIStrategy meth d s = (r, s') \<Longrightarrow> px_next s' = px_next s \<and> px_active s' = px_active s \<and>
     px_queue s' = px_queue s \<and> px_heap s' = px_heap s"
  by (auto simp: HandleAPIStrategy_def split: if_splits option.splits)

lemma busy_okI:
  assumes "\<And>a th. t a = Some th \<Longrightarrow> a < px_next s" "\<And>a. a \<in> set (q_items (px_queue s)) \<Longrightarrow> a < px_next s"
    and "\<And>a st node. t a = Some (Sent st node) \<Longrightarrow>
      rq_Status (px_heap s a) = StatusRunning \<and> rq_NodeID (px_heap s a) = n_ID node"
    and "\<And>i a. px_active s i = Some a \<Longrightarrow> \<exists>st node. t a = Some (Sent st node) \<and> rq_ID (px_heap s a) = i"
  shows "busy_ok (s, t)"
  using assms by (auto simp: busy_ok_def)

lemma busy_okD:
  assumes "busy_ok (s, t)"
  shows "t a = Some th \<Longrightarrow> a < px_next s" "a \<in> set (q_items (px_queue s)) \<Longrightarrow> a < px_next s"
    and "t a = Some (Sent st node) \<Longrightarrow>
      rq_Status (px_heap s a) = StatusRunning \<and> rq_NodeID (px_heap s a) = n_ID node"
    and "px_active s i = Some a \<Longrightarrow> \<exists>st node. t a = Some (Sent st node) \<and> rq_ID (px_heap s a) = i"
  using assms by (auto simp: busy_ok_def)

text \<open>A step that leaves the cells of the other requests in flight alone keeps \<open>busy_ok\<close>.\<close>

lemma busy_ok_frame:
  assumes ok: "busy_ok (s, t)" and n: "px_next s \<le> px_next s'"
    and q: "\<And>b. b \<in> set (q_items (px_queue s')) \<Longrightarrow> b \<in> set (q_items (px_queue s)) \<or> b < px_next s'"
    and h: "\<And>b. b \<noteq> a \<Longrightarrow> b < px_next s \<Longrightarrow> px_heap s' b = px_heap s b"
    and x: "\<And>b i. px_active s' i = Some b \<Longrightarrow> b \<noteq> a \<Longrightarrow> px_active s i = Some b"
    and ta: "case th of
        Some (Sent st node) \<Rightarrow> a < px_next s' \<and> rq_Status (px_heap s' a) = StatusRunning \<and>
          rq_NodeID (px_heap s' a) = n_ID node \<and> (\<forall>i. px_active s' i = Some a \<longrightarrow> rq_ID (px_heap s' a) = i)
      | Some (Waiting st) \<Rightarrow> a < px_next s' \<and> (\<forall>i. px_active s' i \<noteq> Some a)
      | None \<Rightarrow> \<forall>i. px_active s' i \<noteq> Some a"
  shows "busy_ok (s', t(a := th))"
proof (rule busy_okI)
  note D = busy_okD [OF ok]
  show "b < px_next s'" if "(t(a := th)) b = Some u" for b u
    using that D(1) [of b u] n ta by (cases "b = a") (auto split: thread.splits)
  show "b < px_next s'" if "b \<in> set (q_items (px_queue s'))" for b
    using q [OF that] D(2) [of b] n by auto
  show "rq_Status (px_heap s' b) = StatusRunning \<and> rq_NodeID (px_heap s' b) = n_ID node"
    if "(t(a := th)) b = Some (Sent st node)" for b st node
    using that D(1,3) [of b] h [of b] ta by (cases "b = a") auto
  show "\<exists>st node. (t(a := th)) b = Some (Sent st node) \<and> rq_ID (px_heap s' b) = i"
    if act: "px_active s' i = Some b" for i b
  proof (cases "b = a")
    case True
    with act ta show ?thesis by (auto split: option.splits thread.splits)
  next
    case False
    from D(4) [OF x [OF act False]] D(1) [of b] h [OF False] False show ?thesis by auto
  qed
qed

lemma busy_ok_step: "proxy_step x y \<Longrightarrow> busy_ok x \<Longrightarrow> busy_ok y"
proof (induction rule: proxy_step.induct)
  case (queued now i rd s a stream s' t)
  note D = busy_okD [OF queued.prems]
  have "px_active s j \<noteq> Some (px_next s)" for j using D(4) [of j "px_next s"] D(1) [of "px_next s"] by auto
  with queue_request_cases' [OF queued.hyps] show ?case
    by (intro busy_ok_frame [OF queued.prems]) auto
next
  case (refused now i rd s rep s' t)
  note D = busy_okD [OF refused.prems]
  have "t (px_next s) = None" using D(1) [of "px_next s"] by (cases "t (px_next s)") auto
  moreover from this have "px_active s j \<noteq> Some (px_next s)" for j using D(4) [of j "px_next s"] by auto
  ultimately show ?case
    using queue_request_cases' [OF refused.hyps] busy_ok_frame [OF refused.prems, of s' "px_next s" None]
    by (simp add: fun_upd_idem)
next
  case (started t a stream srt rnd now ks s node s')
  then show ?case using start_request_frame [OF started.hyps(2)] busy_okD [OF started.prems]
    by (intro busy_ok_frame [OF started.prems]) (auto split: if_splits)
next
  case (no_node t a stream srt rnd now ks s rep s')
  then have "px_active s j \<noteq> Some a" for j using busy_okD(4) [OF no_node.prems, of j a] by auto
  then show ?case using start_request_frame [OF no_node.hyps(2)]
    by (intro busy_ok_frame [OF no_node.prems]) auto
next
  case (panicked t a stream srt rnd now ks s msg s')
  then have "px_active s j \<noteq> Some a" for j using busy_okD(4) [OF panicked.prems, of j a] by auto
  then show ?case using start_request_frame [OF panicked.hyps(2)]
    by (intro busy_ok_frame [OF panicked.prems]) auto
next
  case (finished t a stream node e s rep s')
  have "px_active s j = Some a \<Longrightarrow> rq_ID (px_heap s a) = j" for j
    using busy_okD(4) [OF finished.prems, of j a] by auto
  then show ?case using finish_request_frame [OF finished.hyps(2)]
    by (intro busy_ok_frame [OF finished.prems]) (auto split: if_splits)
next
  case (cancelled d s rep' s' t)
  note F = HandleCancel_frame [OF cancelled.hyps] and D = busy_okD [OF cancelled.prems]
  show ?case
  proof (rule busy_okI)
    show "rq_Status (px_heap s' a) = StatusRunning \<and> rq_NodeID (px_heap s' a) = n_ID node"
      if "t a = Some (Sent st node)" for a st node
      using D(3) [OF that] F by auto
  qed (use F D in auto)
next
  case (strategy meth d s rep' s' t)
  show ?case using HandleAPIStrategy_frame [OF strategy.hyps] strategy.prems
    by (simp add: busy_ok_def)
next
  case (cluster s t c)
  then show ?case by (simp add: busy_ok_def)
qed

lemma busy_ok_steps: "proxy_step\<^sup>*\<^sup>* x y \<Longrightarrow> busy_ok x \<Longrightarrow> busy_ok y"
  by (induction rule: rtranclp_induct) (auto dest: busy_ok_step)


text \<open>A queue that is full and holds only requests that were already started.\<close>

definition wedged :: "Proxy \<Rightarrow> bool" where
  "wedged s \<longleftrightarrow> q_maxSize (px_queue s) \<le> px_depth s \<and>
     (\<forall>a \<in> set (q_items (px_queue s)). a < px_next s \<and> rq_Status (px_heap s a) \<noteq> StatusPending)"

lemma wedged_frame:
  assumes "wedged s" "px_queue s' = px_queue s" "px_next s \<le> px_next s'"
    and "\<And>a. a < px_next s \<Longrightarrow> rq_Status (px_heap s a) \<noteq> StatusPending \<Longrightarrow> rq_Status (px_heap s' a) \<noteq> StatusPending"
  shows "wedged s'"
  using assms by (force simp: wedged_def px_depth_def)

lemma wedged_Cancel: "wedged s \<Longrightarrow> HandleCancel d s = (r, s') \<Longrightarrow> s' = s"
  using find_index_None [of "\<lambda>a. rq_ID (px_heap s a) = the d \<and> rq_Status (px_heap s a) = StatusPending" "q_items (px_queue s)"]
  by (auto simp: wedged_def HandleCancel_def Cancel_def split: option.splits)

lemma wedged_step: "proxy_step x y \<Longrightarrow> wedged (fst x) \<Longrightarrow> wedged (fst y)"
proof (induction rule: proxy_step.induct)
  case (queued now i rd s a stream s' t)
  then show ?case using queue_request_cases' [OF queued.hyps] by (simp add: wedged_def)
next
  case (refused now i rd s rep s' t)
  then show ?case using queue_request_cases' [OF refused.hyps] wedged_frame [of s s'] by auto
next
  case (started t a stream srt rnd now ks s node s')
  then show ?case using start_request_frame [OF started.hyps(2)] wedged_frame [of s s'] by (metis fst_conv order_refl)
next
  case (no_node t a stream srt rnd now ks s rep s')
  then show ?case using start_request_frame [OF no_node.hyps(2)] wedged_frame [of s s'] by (metis fst_conv order_refl)
next
  case (panicked t a stream srt rnd now ks s msg s')
  then show ?case using start_request_frame [OF panicked.hyps(2)] wedged_frame [of s s'] by (metis fst_conv order_refl)
next
  case (finished t a stream node e s rep s')
  then show ?case using finish_request_frame [OF finished.hyps(2)] wedged_frame [of s s'] by (metis fst_conv order_refl)
next
  case (cancelled d s rep' s' t)
  then show ?case using wedged_Cancel by auto
next
  case (strategy meth d s rep' s' t)
  then show ?case using HandleAPIStrategy_frame [OF strategy.hyps] by (simp add: wedged_def px_depth_def)
next
  case (cluster s t c)
  then show ?case by (simp add: wedged_def px_depth_def)
qed

text \<open>
  C24. Once the queue is full and every request in it has been started, no interleaving of any later
  operations, cancellations included, makes room again: every later inference request is refused.
\<close>

theorem wedged_forever:
  assumes "wedged s" and "proxy_step\<^sup>*\<^sup>* (s, t) (s', t')"
  shows "fst (queue_request now i (Some (body, Some b)) s') = Inl queue_full"
proof -
  have "wedged (fst y)" if "proxy_step\<^sup>*\<^sup>* x y" "wedged (fst x)" for x y
    using that by (induction rule: rtranclp_induct) (auto dest: wedged_step)
  from this [OF assms(2)] assms(1) have "\<not> px_depth s' < q_maxSize (px_queue s')"
    by (simp add: wedged_def)
  moreover obtain r s'' where "queue_request now i (Some (body, Some b)) s' = (r, s'')" by (metis surj_pair)
  moreover note queue_request_cases [OF this]
  ultimately show ?thesis by simp
qed

text \<open>
  Cancelling a request that waits, even when the answer is that it was cancelled, has no influence on
  its handler: the handler selects the same node as without the cancellation, and sends the request
  to it with status running.
\<close>

theorem cancel_does_not_stop:
  assumes "HandleCancel d s = (rep, s1)"
    and "start_request srt rnd now ks a s = (Inr (Inr node), s2)"
  shows "\<exists>s3. start_request srt rnd now ks a s1 = (Inr (Inr node), s3) \<and>
    rq_Status (px_heap s3 a) = StatusRunning \<and> px_active s3 = px_active s2"
proof -
  note F = HandleCancel_frame [OF assms(1)]
  then have "px_cluster s1 = px_cluster s" "px_balancer s1 = px_balancer s"
    "rq_Model (px_heap s1 a) = rq_Model (px_heap s a)" by simp_all
  then have "fst (start_request srt rnd now ks a s1) = fst (start_request srt rnd now ks a s)"
    by (simp only: start_request_fst)
  with assms(2) obtain s3 where s3: "start_request srt rnd now ks a s1 = (Inr (Inr node), s3)"
    by (metis eq_fst_iff)
  with F start_request_frame [OF s3] start_request_frame [OF assms(2)] show ?thesis by simp
qed

section \<open>Witnesses\<close>

definition sample_env :: req_env where
  "sample_env = \<lparr>ev_srt = ins_sort, ev_rnd = (\<lambda>n. 0), ev_queued = 6, ev_started = 7, ev_done = 8,
     ev_keys = [''n1''], ev_reqID = ''r1'', ev_flusher = True, ev_up = Answer 200 [] [''ok'']\<rparr>"

definition sample_proxy :: "int \<Rightarrow> Proxy" where
  "sample_proxy n = proxy_New (sample_mgr NodeOnline) (sample_bal StrategyLeastLoad)
     \<lparr>q_items = [], q_maxSize = n, q_notify = False\<rparr> \<lparr>h_requests = [], h_maxSize = 5\<rparr> (\<lambda>a. sample_req ''r'' 0) 0"

definition sample_body :: body_read where
  "sample_body = Some (''{}'', Some [(''model'', JStr ''m'')])"

lemma sample_selection:
  "SelectNode ins_sort (\<lambda>n. 0) 7 (GetHealthyNodes 7 [''n1''] (sample_mgr NodeOnline)) m (sample_bal StrategyLeastLoad)
     = (Inr (Some ((node_of_registration sample_reg)\<lparr>n_Status := NodeOnline, n_LastHeartbeat := 5\<rparr>)), sample_bal StrategyLeastLoad)"
  by (simp add: SelectNode_def GetHealthyNodes_def candidates_def leastLoad_def ins_sort_def Let_def sample_mgr_def
      sample_bal_defs)

theorem handleInference_outcome_witness:
  "rq_Status (px_heap (snd (handleInference sample_env sample_body (sample_proxy 2))) 0) = StatusComplete \<and>
   h_requests (px_history (snd (handleInference sample_env sample_body (sample_proxy 2)))) = [0]"
proof -
  obtain rep s' where run: "handleInference sample_env (Some (''{}'', Some [(''model'', JStr ''m'')])) (sample_proxy 2) = (rep, s')"
    by (metis surj_pair)
  have room: "px_depth (sample_proxy 2) < q_maxSize (px_queue (sample_proxy 2))"
    by (simp add: px_depth_def sample_proxy_def proxy_New_def)
  from handleInference_outcome [OF room run refl] run show ?thesis
    by (simp add: sample_env_def sample_proxy_def proxy_New_def sample_selection sample_body_def final_status_def
        history_Add_def get_bool_def)
qed

theorem queue_never_drained_witness:
  "inference_run (replicate 3 (sample_env, sample_body)) (sample_proxy 2) ! 1 \<noteq> Inr queue_full \<and>
   inference_run (replicate 3 (sample_env, sample_body)) (sample_proxy 2) ! 2 = Inr queue_full"
proof -
  have q: "queue_New 2 = Some (px_queue (sample_proxy 2))"
    by (simp add: queue_New_def sample_proxy_def proxy_New_def)
  have b: "\<forall>(e, rd) \<in> set (replicate 3 (sample_env, sample_body)). \<exists>body b. rd = Some (body, Some b)"
    by (simp add: sample_body_def)
  show ?thesis using queue_never_drained [OF q b, of 1] queue_never_drained [OF q b, of 2] by simp
qed

text \<open>The states of one request: queued, sent.\<close>

definition sample_queued :: "int \<Rightarrow> Proxy" where
  "sample_queued n = snd (queue_request 6 ''r1'' sample_body (sample_proxy n))"

definition sample_sent :: "int \<Rightarrow> Proxy" where
  "sample_sent n = snd (start_request ins_sort (\<lambda>n. 0) 7 [''n1''] 0 (sample_queued n))"

lemmas sample_px_defs = sample_proxy_def proxy_New_def sample_body_def queue_request_def Let_def queue_op_defs

lemma sample_queued_step:
  assumes "0 < n"
  shows "queue_request 6 ''r1'' sample_body (sample_proxy n) = (Inr (0, False), sample_queued n)"
    and "px_cluster (sample_queued n) = sample_mgr NodeOnline" "px_balancer (sample_queued n) = sample_bal StrategyLeastLoad"
    and "rq_ID (px_heap (sample_queued n) 0) = ''r1''" "q_items (px_queue (sample_queued n)) = [0]"
    and "px_next (sample_queued n) = 1" "q_maxSize (px_queue (sample_queued n)) = n"
  using assms by (simp_all add: sample_queued_def sample_px_defs get_bool_def)

definition sample_up_node :: Node where
  "sample_up_node = (node_of_registration sample_reg)\<lparr>n_Status := NodeOnline, n_LastHeartbeat := 5\<rparr>"

lemma sample_sent_step:
  "0 < n \<Longrightarrow> start_request ins_sort (\<lambda>n. 0) 7 [''n1''] 0 (sample_queued n) = (Inr (Inr sample_up_node), sample_sent n)"
  unfolding sample_sent_def start_request_cases by (simp add: sample_queued_step sample_selection sample_up_node_def)


theorem wedged_forever_witness:
  "wedged (sample_sent 1) \<and> fst (queue_request 9 ''r2'' (Some (''{}'', Some [])) (sample_sent 1)) = Inl queue_full"
proof -
  have "wedged (sample_sent 1)"
    using start_request_frame [OF sample_sent_step [of 1]] sample_queued_step [of 1]
    by (simp add: wedged_def px_depth_def)
  with wedged_forever [OF this rtranclp.rtrancl_refl] show ?thesis by blast
qed

theorem cancel_does_not_stop_witness:
  "fst (HandleCancel (Some ''r1'') (sample_queued 2)) = HttpOK [(''status'', ''cancelled'')] \<and>
   (\<exists>s3. start_request ins_sort (\<lambda>n. 0) 7 [''n1''] 0 (snd (HandleCancel (Some ''r1'') (sample_queued 2)))
      = (Inr (Inr sample_up_node), s3) \<and> rq_Status (px_heap s3 0) = StatusRunning)"
proof -
  have "fst (HandleCancel (Some ''r1'') (sample_queued 2)) = HttpOK [(''status'', ''cancelled'')]"
    by (simp add: HandleCancel_def sample_queued_def sample_px_defs)
  then obtain s1 where s1: "HandleCancel (Some ''r1'') (sample_queued 2) = (HttpOK [(''status'', ''cancelled'')], s1)"
    by (metis eq_fst_iff)
  from cancel_does_not_stop [OF s1 sample_sent_step [of 2]] show ?thesis by (auto simp: s1)
qed

end
