(* ===== verification/Job_Model.thy ===== *)
theory Job_Model
  imports Hive_Prelude
begin

text \<open>
  The jobs of the hive server: the \<^verbatim>\<open>Job\<close> structure of \<^verbatim>\<open>hive-server-go/queue.go\<close>, the priority and the
  deadline a job is given (\<^verbatim>\<open>priority_queue.go\<close>, \<^verbatim>\<open>helpers.go\<close>), and what is recorded of a finished job
  (\<^verbatim>\<open>queue.go\<close>, \<^verbatim>\<open>reporting.go\<close>). The theory shows how far deadlines can lie from the present, that
  token counts come out the same in the job, in its JSON form and in the usage record.
\<close>

section \<open>Data\<close>

datatype JobStatus = JobPending | JobRunning | JobCompleted | JobFailed

definition PriorityRealtime :: int where "PriorityRealtime = 0"
definition PriorityHigh_job :: int where "PriorityHigh_job = 1"
definition PriorityNormal_job :: int where "PriorityNormal_job = 2"
definition PriorityLow_job :: int where "PriorityLow_job = 3"

lemmas job_priority_defs = PriorityRealtime_def PriorityHigh_job_def PriorityNormal_job_def PriorityLow_job_def

definition JobPriority_String :: "int \<Rightarrow> string" where
  "JobPriority_String p =
     (if p = PriorityRealtime then ''realtime'' else if p = PriorityHigh_job then ''high''
      else if p = PriorityNormal_job then ''normal'' else if p = PriorityLow_job then ''low'' else ''unknown'')"

definition JobStatus_string :: "JobStatus \<Rightarrow> string" where
  "JobStatus_string s = (case s of JobPending \<Rightarrow> ''pending'' | JobRunning \<Rightarrow> ''running''
     | JobCompleted \<Rightarrow> ''completed'' | JobFailed \<Rightarrow> ''failed'')"

text \<open>Times in a job are seconds, \<^verbatim>\<open>float64\<close>; the deadline is a \<^verbatim>\<open>time.Time\<close>, 0 if there is none.\<close>

record Job =
  j_ID :: string
  j_ClientID :: string
  j_JobType :: string
  j_PayloadMap :: jobj
  j_Status :: JobStatus
  j_Result :: "json option"
  j_Error :: string
  j_CreatedAt :: real
  j_StartedAt :: "real option"
  j_CompletedAt :: "real option"
  j_QueuePosition :: int
  j_Model :: string
  j_PromptTokens :: int
  j_EvalTokens :: int
  j_TotalTokens :: int
  j_EvalDuration :: real
  j_Priority :: int
  j_Deadline :: gotime
  j_RetryCount :: int
  j_MaxRetries :: int

text \<open>\<^verbatim>\<open>now()\<close>: the clock, cut to milliseconds, in seconds.\<close>

definition now_seconds :: "gotime \<Rightarrow> real" where
  "now_seconds t = of_int (t div 1000000) / 1000"

definition NewJob :: "gotime \<Rightarrow> string \<Rightarrow> string \<Rightarrow> string \<Rightarrow> jobj \<Rightarrow> Job" where
  "NewJob t i client jobType payload =
     \<lparr>j_ID = i, j_ClientID = client, j_JobType = jobType, j_PayloadMap = payload, j_Status = JobPending,
      j_Result = None, j_Error = [], j_CreatedAt = now_seconds t, j_StartedAt = None, j_CompletedAt = None,
      j_QueuePosition = 0, j_Model = [], j_PromptTokens = 0, j_EvalTokens = 0, j_TotalTokens = 0,
      j_EvalDuration = 0, j_Priority = 0, j_Deadline = 0, j_RetryCount = 0, j_MaxRetries = 0\<rparr>"

section \<open>Priority and deadline\<close>

definition DetermineJobPriority :: "string \<Rightarrow> bool \<Rightarrow> bool \<Rightarrow> int" where
  "DetermineJobPriority jobType stream hasInteractiveClient =
     (if stream \<and> hasInteractiveClient then PriorityRealtime
      else if jobType \<in> {''chat'', ''chat_stream''} then
        (if stream then PriorityRealtime else PriorityHigh_job)
      else if jobType \<in> {''coding_agent_chat'', ''agent_message''} then PriorityHigh_job
      else if jobType \<in> {''generate'', ''generate_stream''} then
        (if stream then PriorityRealtime else PriorityNormal_job)
      else if jobType \<in> {''embed'', ''get_embedding''} then PriorityNormal_job
      else if jobType \<in> {''list_models'', ''pull_model''} then PriorityLow_job
      else PriorityNormal_job)"

text \<open>A product and a sum of durations wrap around at 64 bits.\<close>

definition baseTimeout :: "string \<Rightarrow> duration" where
  "baseTimeout jobType =
     (if jobType \<in> {''chat'', ''chat_stream''} then 60 * second
      else if jobType = ''coding_agent_chat'' then 120 * second
      else if jobType = ''generate'' then 90 * second
      else if jobType = ''embed'' then 30 * second
      else 60 * second)"

definition token_timeout :: "duration \<Rightarrow> int \<Rightarrow> duration \<Rightarrow> duration" where
  "token_timeout base estimatedTokens maxTimeout =
     (let tokenTime = wrap64 (go_div estimatedTokens 20 * second);
          total = wrap64 (base + tokenTime)
      in if total > maxTimeout then maxTimeout else total)"

definition CalculateDeadline :: "gotime \<Rightarrow> string \<Rightarrow> int \<Rightarrow> duration \<Rightarrow> gotime" where
  "CalculateDeadline now jobType estimatedTokens maxTimeout =
     now + token_timeout (baseTimeout jobType) estimatedTokens maxTimeout"

definition calculateDeadline_helper :: "gotime \<Rightarrow> string \<Rightarrow> int \<Rightarrow> duration \<Rightarrow> gotime" where
  "calculateDeadline_helper now jobType estimatedTokens maxTimeout =
     now + token_timeout
       (if jobType \<in> {''chat_stream'', ''agent''} then 120 * second
        else if jobType = ''generate'' then 60 * second
        else 30 * second) estimatedTokens maxTimeout"

definition maxInt :: "int \<Rightarrow> int \<Rightarrow> int" where
  "maxInt a b = (if a > b then a else b)"

definition minInt :: "int \<Rightarrow> int \<Rightarrow> int" where
  "minInt a b = (if a < b then a else b)"

definition estimateTokensHelper :: "string \<Rightarrow> int" where
  "estimateTokensHelper text = go_div (int (length text)) 4"

section \<open>What is recorded of a finished job\<close>

definition calcTPS :: "Job \<Rightarrow> real" where
  "calcTPS job =
     (let rate2 = (if j_EvalDuration job > 0 \<and> j_EvalTokens job > 0
            then of_int (j_EvalTokens job) / (j_EvalDuration job / 1000000000) else 0)
      in case (j_StartedAt job, j_CompletedAt job) of
           (Some b, Some e) \<Rightarrow>
             (if e - b > 0 \<and> j_TotalTokens job > 0 then of_int (j_TotalTokens job) / (e - b) else rate2)
         | _ \<Rightarrow> rate2)"

text \<open>An \<^verbatim>\<open>if v, ok := m["k"].(float64); ok\<close> that overwrites a count, and the counts of the \<^verbatim>\<open>usage\<close> object.\<close>

definition int_or :: "real option \<Rightarrow> int \<Rightarrow> int" where
  "int_or v d = (case v of Some x \<Rightarrow> trunc_float x | None \<Rightarrow> d)"

definition token_counts :: "jobj \<Rightarrow> int \<times> int \<Rightarrow> int \<times> int" where
  "token_counts m = (\<lambda>(p0, c0).
     let p = int_or (get_num m ''prompt_eval_count'') p0;
         c = int_or (get_num m ''eval_count'') c0
     in if p = 0 \<and> c = 0
        then case get_obj m ''usage'' of
            None \<Rightarrow> (p, c)
          | Some u \<Rightarrow> (int_or (get_num u ''prompt_tokens'') p, int_or (get_num u ''completion_tokens'') c)
        else (p, c))"

definition parseTokenMetrics :: "Job \<Rightarrow> json \<Rightarrow> Job" where
  "parseTokenMetrics job result =
     (case result of
        JObj m \<Rightarrow>
          let model = str_or_empty (get_str m ''model'');
              pc = token_counts m (j_PromptTokens job, j_EvalTokens job)
          in job\<lparr>j_Model := (if model \<noteq> [] then model else j_Model job),
               j_PromptTokens := fst pc, j_EvalTokens := snd pc, j_TotalTokens := fst pc + snd pc,
               j_EvalDuration := (case get_num m ''eval_duration'' of Some x \<Rightarrow> x | None \<Rightarrow> j_EvalDuration job)\<rparr>
      | _ \<Rightarrow> job)"

record TokenRecord =
  tr_Provider :: string
  tr_Model :: string
  tr_PromptTokens :: int
  tr_CompletionTokens :: int
  tr_TotalTokens :: int
  tr_DurationSeconds :: real
  tr_TokensPerSecond :: real
  tr_JobType :: string
  tr_ClientID :: string
  tr_JobID :: string
  tr_ServingNode :: string
  tr_ServingType :: string
  tr_Timestamp :: real

text \<open>\<open>node\<close>, \<open>styp\<close>: the globals \<^verbatim>\<open>servingNodeID\<close> and \<^verbatim>\<open>servingType\<close>.\<close>

definition recordFromResult :: "string \<Rightarrow> string \<Rightarrow> gotime \<Rightarrow> Job \<Rightarrow> json \<Rightarrow> TokenRecord option" where
  "recordFromResult node styp t job result =
     (case result of
        JObj m \<Rightarrow>
          let model = (let s = str_or_empty (get_str m ''model'') in if s = [] then ''unknown'' else s);
              pt = (case get_num m ''prompt_eval_count'' of Some x \<Rightarrow> trunc_float x | None \<Rightarrow> 0);
              ct = (case get_num m ''eval_count'' of Some x \<Rightarrow> trunc_float x | None \<Rightarrow> 0);
              dur = (case (j_StartedAt job, j_CompletedAt job) of (Some b, Some e) \<Rightarrow> e - b | _ \<Rightarrow> 0)
          in if pt = 0 \<and> ct = 0 then None
             else Some \<lparr>tr_Provider = ''ollama'', tr_Model = model, tr_PromptTokens = pt, tr_CompletionTokens = ct,
               tr_TotalTokens = pt + ct, tr_DurationSeconds = dur,
               tr_TokensPerSecond = (if dur > 0 then of_int (pt + ct) / dur else 0),
               tr_JobType = j_JobType job, tr_ClientID = j_ClientID job, tr_JobID = j_ID job,
               tr_ServingNode = node, tr_ServingType = styp, tr_Timestamp = now_seconds t\<rparr>
      | _ \<Rightarrow> None)"

text \<open>A value of the JSON object a job is shown as: a pointer that is nil becomes \<^verbatim>\<open>null\<close>.\<close>

definition ptr_num :: "real option \<Rightarrow> json" where
  "ptr_num v = (case v of None \<Rightarrow> JNull | Some x \<Rightarrow> JNum x)"

definition jobToMap :: "Job \<Rightarrow> jobj" where
  "jobToMap j =
     [(''job_id'', JStr (j_ID j)), (''client_id'', JStr (j_ClientID j)), (''job_type'', JStr (j_JobType j)),
      (''payload'', JObj (j_PayloadMap j)), (''status'', JStr (JobStatus_string (j_Status j))),
      (''result'', case j_Result j of None \<Rightarrow> JNull | Some r \<Rightarrow> r), (''error'', JStr (j_Error j)),
      (''created_at'', JNum (j_CreatedAt j)), (''started_at'', ptr_num (j_StartedAt j)),
      (''completed_at'', ptr_num (j_CompletedAt j)), (''queue_position'', JNum 0)]
     @ (if j_Model j \<noteq> [] then [(''model'', JStr (j_Model j))] else [])
     @ (if j_PromptTokens j > 0 then [(''prompt_tokens'', JNum (of_int (j_PromptTokens j)))] else [])
     @ (if j_EvalTokens j > 0 then [(''completion_tokens'', JNum (of_int (j_EvalTokens j)))] else [])
     @ (if j_PromptTokens j > 0 \<or> j_EvalTokens j > 0
        then [(''total_tokens'', JNum (of_int (j_PromptTokens j + j_EvalTokens j)))] else [])
     @ (if calcTPS j > 0 then [(''tokens_per_second'', JNum (calcTPS j))] else [])
     @ (case (j_StartedAt j, j_CompletedAt j) of
          (Some b, Some e) \<Rightarrow> [(''duration_seconds'', JNum (e - b))] | _ \<Rightarrow> [])"

lemma now_seconds_mono: "t \<le> t' \<Longrightarrow> now_seconds t \<le> now_seconds t'"
  by (simp add: now_seconds_def divide_right_mono zdiv_mono1)

section \<open>Deadlines\<close>

lemma baseTimeout_range: "30 * second \<le> baseTimeout t" "baseTimeout t \<le> 120 * second"
  by (simp_all add: baseTimeout_def)

lemma token_timeout_le: "token_timeout base n m \<le> m"
  by (simp add: token_timeout_def Let_def)

lemma token_timeout_exact:
  assumes "0 \<le> base" "base \<le> 120 * second" "0 \<le> n" "n \<le> 180000000000"
  shows "token_timeout base n m = min m (base + n div 20 * second)"
proof -
  let ?t = "n div 20 * second"
  have "0 \<le> ?t" "?t \<le> 9000000000 * second" using assms(3,4) by auto
  then have "wrap64 ?t = ?t" "wrap64 (base + ?t) = base + ?t"
    using assms(1,2) by (simp_all del: wrap64_id add: wrap64_id [of ?t] wrap64_id [of "base + ?t"])
  with assms(3) show ?thesis by (simp add: token_timeout_def Let_def min_def)
qed

text \<open>
  The deadline given to a job: the time allowed for its type plus a second for every twenty
  estimated tokens, but never more than the configured maximum. So with a maximum of at least
  thirty seconds it lies at least thirty seconds ahead. The formula is exact for estimates of up to
  1.8e11 tokens; beyond, the multiplication can wrap around.
\<close>

theorem CalculateDeadline_exact:
  assumes "0 \<le> n" "n \<le> 180000000000"
  shows "CalculateDeadline now jobType n maxT = now + min maxT (baseTimeout jobType + n div 20 * second) \<and>
    (30 * second \<le> maxT \<longrightarrow> now + 30 * second \<le> CalculateDeadline now jobType n maxT) \<and>
    CalculateDeadline now jobType n maxT \<le> now + maxT"
proof -
  note B = baseTimeout_range [of jobType]
  then have "token_timeout (baseTimeout jobType) n maxT = min maxT (baseTimeout jobType + n div 20 * second)"
    using assms by (intro token_timeout_exact) auto
  moreover have "0 \<le> n div 20 * second" using assms by simp
  ultimately show ?thesis using B by (auto simp: CalculateDeadline_def)
qed

theorem CalculateDeadline_exact_witness:
  "CalculateDeadline 1000 ''chat'' 400 (300 * second) = 1000 + 80 * second \<and>
   1000 + 30 * second \<le> CalculateDeadline 1000 ''chat'' 400 (300 * second)"
  using CalculateDeadline_exact [of 400 1000 "''chat''" "300 * second"] by (simp add: baseTimeout_def)

text \<open>Past the bound the product wraps: an estimate of 184467440740 tokens gives a deadline in the past.\<close>

lemma CalculateDeadline_overflow: "0 \<le> maxT \<Longrightarrow> CalculateDeadline now ''chat'' 184467440740 maxT < now"
  by (simp add: CalculateDeadline_def token_timeout_def baseTimeout_def wrap64_def Let_def)

lemma DetermineJobPriority_range: "DetermineJobPriority t s c \<in> {PriorityRealtime..PriorityLow_job}"
  by (simp add: DetermineJobPriority_def job_priority_defs)

section \<open>Token counts\<close>

text \<open>
  For a job that has no counts yet, the usage record written to the database and the job agree: on the
  tokens of the prompt, of the answer and in total, and the JSON form of the job shows that total.
\<close>

theorem token_counts_agree:
  assumes "recordFromResult node styp t job' (JObj m) = Some r"
    and "j_PromptTokens job = 0" "j_EvalTokens job = 0"
  shows "tr_PromptTokens r = j_PromptTokens (parseTokenMetrics job (JObj m)) \<and>
    tr_CompletionTokens r = j_EvalTokens (parseTokenMetrics job (JObj m)) \<and>
    tr_TotalTokens r = j_TotalTokens (parseTokenMetrics job (JObj m)) \<and>
    (0 < tr_PromptTokens r \<longrightarrow>
       map_of (jobToMap (parseTokenMetrics job (JObj m))) ''total_tokens'' = Some (JNum (of_int (tr_TotalTokens r))))"
proof -
  define pt where "pt = (case get_num m ''prompt_eval_count'' of Some x \<Rightarrow> trunc_float x | None \<Rightarrow> 0)"
  define ct where "ct = (case get_num m ''eval_count'' of Some x \<Rightarrow> trunc_float x | None \<Rightarrow> 0)"
  have nz: "\<not> (pt = 0 \<and> ct = 0)" and r: "tr_PromptTokens r = pt" "tr_CompletionTokens r = ct" "tr_TotalTokens r = pt + ct"
    using assms(1) by (auto simp: recordFromResult_def Let_def pt_def ct_def split: if_splits)
  let ?p = "parseTokenMetrics job (JObj m)"
  have "token_counts m (0, 0) = (pt, ct)"
    using nz by (auto simp: token_counts_def pt_def ct_def int_or_def Let_def)
  then have p: "j_PromptTokens ?p = pt" "j_EvalTokens ?p = ct" "j_TotalTokens ?p = pt + ct"
    using assms(2,3) by (simp_all add: parseTokenMetrics_def Let_def)
  have "map_of (jobToMap ?p) ''total_tokens'' = Some (JNum (of_int (pt + ct)))" if "0 < pt"
    using that by (simp add: jobToMap_def p map_add_Some_iff split: option.splits)
  with r p show ?thesis by simp
qed

theorem token_counts_agree_witness:
  "\<exists>r. recordFromResult ''n'' ''cpu'' 9 (NewJob 5 ''j'' ''c'' ''chat'' []) (JObj [(''prompt_eval_count'', JNum 7), (''eval_count'', JNum 3)]) = Some r \<and>
     tr_TotalTokens r = j_TotalTokens (parseTokenMetrics (NewJob 5 ''j'' ''c'' ''chat'' [])
       (JObj [(''prompt_eval_count'', JNum 7), (''eval_count'', JNum 3)])) \<and> tr_TotalTokens r = 10"
proof -
  let ?j = "NewJob 5 ''j'' ''c'' ''chat'' []" and ?m = "[(''prompt_eval_count'', JNum 7), (''eval_count'', JNum 3)]"
  have n: "get_num ?m ''prompt_eval_count'' = Some (of_int 7)" "get_num ?m ''eval_count'' = Some (of_int 3)"
    by (simp_all add: get_num_def)
  obtain r where r: "recordFromResult ''n'' ''cpu'' 9 ?j (JObj ?m) = Some r" "tr_TotalTokens r = 10"
    by (simp add: recordFromResult_def Let_def n del: of_int_numeral)
  from token_counts_agree [OF r(1), of ?j] r show ?thesis by (simp add: NewJob_def)
qed

end
