(* ===== verification/Priority_Queue.thy ===== *)
theory Priority_Queue
  imports Job_Model
begin

text \<open>
  The four-tier job queue of the hive server, \<^verbatim>\<open>hive-server-go/priority_queue.go\<close>. A deque is the list of
  its items (its fields \<^verbatim>\<open>head\<close> and \<^verbatim>\<open>tail\<close> are never used); no code writes to a queued job, so the deques hold the
  jobs themselves. The condition variable is the number of callers that sleep in \<^verbatim>\<open>Wait\<close> and the number
  that were woken and have not yet run. The theory shows that the queue is a stable sort by tier, which job
  \<^verbatim>\<open>Dequeue\<close> returns, and that no wake-up is lost while the queue is in use.
\<close>

section \<open>Deques\<close>

record concurrentDeque =
  d_items :: "Job list"

definition newConcurrentDeque :: concurrentDeque where
  "newConcurrentDeque = \<lparr>d_items = []\<rparr>"

definition pushBack :: "Job \<Rightarrow> concurrentDeque \<Rightarrow> concurrentDeque" where
  "pushBack job d = d\<lparr>d_items := d_items d @ [job]\<rparr>"

definition pushFront :: "Job \<Rightarrow> concurrentDeque \<Rightarrow> concurrentDeque" where
  "pushFront job d = d\<lparr>d_items := job # d_items d\<rparr>"

definition popFront :: "concurrentDeque \<Rightarrow> Job option \<times> concurrentDeque" where
  "popFront d = (case d_items d of [] \<Rightarrow> (None, d) | job # rest \<Rightarrow> (Some job, d\<lparr>d_items := rest\<rparr>))"

definition peekFront :: "concurrentDeque \<Rightarrow> Job option" where
  "peekFront d = (case d_items d of [] \<Rightarrow> None | job # _ \<Rightarrow> Some job)"

definition deque_len :: "concurrentDeque \<Rightarrow> int" where
  "deque_len d = int (length (d_items d))"

definition deque_remove :: "string \<Rightarrow> concurrentDeque \<Rightarrow> bool \<times> concurrentDeque" where
  "deque_remove jobID d =
     (case find_index (\<lambda>job. j_ID job = jobID) (d_items d) of
        None \<Rightarrow> (False, d)
      | Some i \<Rightarrow> (True, d\<lparr>d_items := remove_nth i (d_items d)\<rparr>))"

section \<open>The queue\<close>

record PriorityQueue =
  pq_queues :: "concurrentDeque list"
  pq_closed :: bool
  pq_enqueued :: int
  pq_dequeued :: int
  pq_dropped :: int
  pq_waiting :: nat
  pq_woken :: nat

definition NewPriorityQueue :: PriorityQueue where
  "NewPriorityQueue = \<lparr>pq_queues = replicate 4 newConcurrentDeque, pq_closed = False,
     pq_enqueued = 0, pq_dequeued = 0, pq_dropped = 0, pq_waiting = 0, pq_woken = 0\<rparr>"

text \<open>\<^verbatim>\<open>cond.Signal\<close> wakes one sleeper if there is one, \<^verbatim>\<open>cond.Broadcast\<close> all, \<^verbatim>\<open>cond.Wait\<close> adds one.\<close>

definition cond_Signal :: "PriorityQueue \<Rightarrow> PriorityQueue" where
  "cond_Signal pq = (if pq_waiting pq > 0
     then pq\<lparr>pq_waiting := pq_waiting pq - 1, pq_woken := pq_woken pq + 1\<rparr> else pq)"

definition cond_Broadcast :: "PriorityQueue \<Rightarrow> PriorityQueue" where
  "cond_Broadcast pq = pq\<lparr>pq_waiting := 0, pq_woken := pq_woken pq + pq_waiting pq\<rparr>"

definition cond_Wait :: "PriorityQueue \<Rightarrow> PriorityQueue" where
  "cond_Wait pq = pq\<lparr>pq_waiting := pq_waiting pq + 1\<rparr>"

definition norm_priority :: "Job \<Rightarrow> Job" where
  "norm_priority job = (if j_Priority job < PriorityRealtime \<or> j_Priority job > PriorityLow_job
     then job\<lparr>j_Priority := PriorityNormal_job\<rparr> else job)"

definition set_deque :: "nat \<Rightarrow> concurrentDeque \<Rightarrow> PriorityQueue \<Rightarrow> PriorityQueue" where
  "set_deque p d pq = pq\<lparr>pq_queues := (pq_queues pq)[p := d]\<rparr>"

definition pq_Enqueue :: "Job \<Rightarrow> PriorityQueue \<Rightarrow> bool \<times> PriorityQueue" where
  "pq_Enqueue job pq =
     (if pq_closed pq then (False, pq)
      else let job' = norm_priority job;
               p = nat (j_Priority job');
               pq1 = set_deque p (pushBack job' (pq_queues pq ! p)) pq;
               pq2 = pq1\<lparr>pq_enqueued := wrap64 (pq_enqueued pq1 + 1)\<rparr>
           in (True, cond_Signal pq2))"

text \<open>
  Both branches of the search, less than five seconds to the deadline and past it, take the job out by
  its ID and return it. The removal always succeeds, since the job has just been seen in that deque.
\<close>

definition urgent :: "gotime \<Rightarrow> Job \<Rightarrow> bool" where
  "urgent now job \<longleftrightarrow> j_Deadline job \<noteq> 0 \<and>
     (let left = j_Deadline job - now in left \<le> 5 * second \<and> left > 0 \<or> left \<le> 0)"

fun urgent_scan :: "gotime \<Rightarrow> concurrentDeque list \<Rightarrow> (Job \<times> concurrentDeque list) option" where
  "urgent_scan now [] = None"
| "urgent_scan now (d # ds) =
     (case find (urgent now) (d_items d) of
        Some job \<Rightarrow> Some (job, snd (deque_remove (j_ID job) d) # ds)
      | None \<Rightarrow> map_option (\<lambda>(job, ds'). (job, d # ds')) (urgent_scan now ds))"

definition findUrgentDeadlineJob :: "gotime \<Rightarrow> PriorityQueue \<Rightarrow> Job option \<times> PriorityQueue" where
  "findUrgentDeadlineJob now pq =
     (case urgent_scan now (pq_queues pq) of
        None \<Rightarrow> (None, pq)
      | Some (job, ds) \<Rightarrow> (Some job, pq\<lparr>pq_queues := ds\<rparr>))"

fun pop_scan :: "concurrentDeque list \<Rightarrow> (Job \<times> concurrentDeque list) option" where
  "pop_scan [] = None"
| "pop_scan (d # ds) =
     (case popFront d of
        (Some job, d') \<Rightarrow> Some (job, d' # ds)
      | (None, _) \<Rightarrow> map_option (\<lambda>(job, ds'). (job, d # ds')) (pop_scan ds))"

text \<open>
  One turn of the loop of \<^verbatim>\<open>Dequeue\<close>, up to the wait: a job, or the caller sleeps (\<open>None\<close>). The caller goes on
  with \<open>dequeue_wake\<close> when it was woken: \<open>Some None\<close> is the return of \<^verbatim>\<open>nil\<close> from a closed queue.
\<close>

definition count_dequeued :: "PriorityQueue \<Rightarrow> PriorityQueue" where
  "count_dequeued pq = pq\<lparr>pq_dequeued := wrap64 (pq_dequeued pq + 1)\<rparr>"

definition dequeue_pass :: "gotime \<Rightarrow> PriorityQueue \<Rightarrow> Job option \<times> PriorityQueue" where
  "dequeue_pass now pq =
     (case findUrgentDeadlineJob now pq of
        (Some job, pq') \<Rightarrow> (Some job, count_dequeued pq')
      | (None, _) \<Rightarrow>
          (case pop_scan (pq_queues pq) of
             Some (job, ds) \<Rightarrow> (Some job, count_dequeued (pq\<lparr>pq_queues := ds\<rparr>))
           | None \<Rightarrow> (None, cond_Wait pq)))"

definition pq_Dequeue :: "gotime \<Rightarrow> PriorityQueue \<Rightarrow> Job option \<times> PriorityQueue" where
  "pq_Dequeue now pq = dequeue_pass now pq"

definition dequeue_wake :: "gotime \<Rightarrow> PriorityQueue \<Rightarrow> Job option option \<times> PriorityQueue" where
  "dequeue_wake now pq =
     (let pq1 = pq\<lparr>pq_woken := pq_woken pq - 1\<rparr>
      in if pq_closed pq1 then (Some None, pq1)
         else case dequeue_pass now pq1 of
             (Some job, pq2) \<Rightarrow> (Some (Some job), pq2)
           | (None, pq2) \<Rightarrow> (None, pq2))"

fun peek_scan :: "concurrentDeque list \<Rightarrow> Job option" where
  "peek_scan [] = None"
| "peek_scan (d # ds) = (case peekFront d of Some job \<Rightarrow> Some job | None \<Rightarrow> peek_scan ds)"

definition pq_Peek :: "gotime \<Rightarrow> PriorityQueue \<Rightarrow> Job option \<times> PriorityQueue" where
  "pq_Peek now pq =
     (case findUrgentDeadlineJob now pq of
        (Some job, pq') \<Rightarrow> (Some job, pq')
      | (None, _) \<Rightarrow> (peek_scan (pq_queues pq), pq))"

definition pq_Len :: "PriorityQueue \<Rightarrow> int" where
  "pq_Len pq = foldl (\<lambda>total q. total + deque_len q) 0 (pq_queues pq)"

definition LenByPriority :: "int \<Rightarrow> PriorityQueue \<Rightarrow> int" where
  "LenByPriority p pq = (if p < PriorityRealtime \<or> p > PriorityLow_job then 0 else deque_len (pq_queues pq ! nat p))"

fun cancel_scan :: "string \<Rightarrow> concurrentDeque list \<Rightarrow> bool \<times> concurrentDeque list" where
  "cancel_scan jobID [] = (False, [])"
| "cancel_scan jobID (d # ds) =
     (case deque_remove jobID d of
        (True, d') \<Rightarrow> (True, d' # ds)
      | (False, _) \<Rightarrow> map_prod id ((#) d) (cancel_scan jobID ds))"

definition pq_Cancel :: "string \<Rightarrow> PriorityQueue \<Rightarrow> bool \<times> PriorityQueue" where
  "pq_Cancel jobID pq =
     (case cancel_scan jobID (pq_queues pq) of (ok, ds) \<Rightarrow> (ok, pq\<lparr>pq_queues := ds\<rparr>))"

definition pq_Close :: "PriorityQueue \<Rightarrow> PriorityQueue" where
  "pq_Close pq = cond_Broadcast (pq\<lparr>pq_closed := True\<rparr>)"

record QueueStats =
  qs_RealtimeDepth :: int
  qs_HighDepth :: int
  qs_NormalDepth :: int
  qs_LowDepth :: int
  qs_TotalEnqueued :: int
  qs_TotalDequeued :: int
  qs_TotalDropped :: int

definition pq_GetStats :: "PriorityQueue \<Rightarrow> QueueStats" where
  "pq_GetStats pq =
     \<lparr>qs_RealtimeDepth = deque_len (pq_queues pq ! nat PriorityRealtime),
      qs_HighDepth = deque_len (pq_queues pq ! nat PriorityHigh_job),
      qs_NormalDepth = deque_len (pq_queues pq ! nat PriorityNormal_job),
      qs_LowDepth = deque_len (pq_queues pq ! nat PriorityLow_job),
      qs_TotalEnqueued = pq_enqueued pq, qs_TotalDequeued = pq_dequeued pq, qs_TotalDropped = pq_dropped pq\<rparr>"

text \<open>
  \<^verbatim>\<open>Stats\<close> calls \<^verbatim>\<open>Len\<close>, which locks the mutex \<^verbatim>\<open>Stats\<close> already holds; Go's mutexes are not reentrant. A lock
  taken while held never returns: \<open>None\<close>.
\<close>

definition with_lock :: "bool \<Rightarrow> 'a option \<Rightarrow> 'a option" where
  "with_lock held body = (if held then None else body)"

definition pq_Len_locking :: "bool \<Rightarrow> PriorityQueue \<Rightarrow> int option" where
  "pq_Len_locking held pq = with_lock held (Some (pq_Len pq))"

definition pq_Stats :: "bool \<Rightarrow> PriorityQueue \<Rightarrow> (int \<times> QueueStats) option" where
  "pq_Stats held pq = with_lock held
     (case pq_Len_locking True pq of None \<Rightarrow> None | Some n \<Rightarrow> Some (n, pq_GetStats pq))"

lemmas deque_defs = newConcurrentDeque_def pushBack_def pushFront_def popFront_def peekFront_def deque_len_def
  deque_remove_def

lemmas pq_frame_defs = cond_Signal_def cond_Broadcast_def cond_Wait_def set_deque_def count_dequeued_def

lemma pq_Stats_deadlocks: "pq_Stats False pq = None"
  by (simp add: pq_Stats_def pq_Len_locking_def with_lock_def)

section \<open>The tiers\<close>

text \<open>The jobs in the order the tiers are served, and the invariant: four tiers, each with its own jobs.\<close>

definition pq_items :: "PriorityQueue \<Rightarrow> Job list" where
  "pq_items pq = concat (map d_items (pq_queues pq))"

definition tiers_ok :: "concurrentDeque list \<Rightarrow> bool" where
  "tiers_ok ds \<longleftrightarrow> length ds = 4 \<and> (\<forall>p < 4. \<forall>job \<in> set (d_items (ds ! p)). j_Priority job = int p)"

lemma tiers_okE:
  assumes "tiers_ok ds"
  obtains a b c d where "ds = [a, b, c, d]" "\<forall>j \<in> set (d_items a). j_Priority j = 0"
    "\<forall>j \<in> set (d_items b). j_Priority j = 1" "\<forall>j \<in> set (d_items c). j_Priority j = 2"
    "\<forall>j \<in> set (d_items d). j_Priority j = 3"
proof -
  from assms have len: "length ds = 4"
    and p: "\<And>p. p < 4 \<Longrightarrow> \<forall>job \<in> set (d_items (ds ! p)). j_Priority job = int p"
    by (auto simp: tiers_ok_def)
  from len obtain a b c d where ds: "ds = [a, b, c, d]"
    by (auto simp: length_Suc_conv numeral_eq_Suc)
  show thesis
    by (rule that [OF ds]) (use p [of 0] p [of 1] p [of 2] p [of 3] in \<open>simp_all add: ds\<close>)
qed

lemma tiers_ok_intro:
  assumes "\<forall>j \<in> set (d_items a). j_Priority j = 0" "\<forall>j \<in> set (d_items b). j_Priority j = 1"
    "\<forall>j \<in> set (d_items c). j_Priority j = 2" "\<forall>j \<in> set (d_items d). j_Priority j = 3"
  shows "tiers_ok [a, b, c, d]"
  using assms by (auto simp: tiers_ok_def less_Suc_eq numeral_eq_Suc)

lemma tiers_sorted: "tiers_ok (pq_queues pq) \<Longrightarrow> sorted (map j_Priority (pq_items pq))"
proof (elim tiers_okE)
  fix a b c d
  assume q: "pq_queues pq = [a, b, c, d]" and
    t: "\<forall>j \<in> set (d_items a). j_Priority j = 0" "\<forall>j \<in> set (d_items b). j_Priority j = 1"
    "\<forall>j \<in> set (d_items c). j_Priority j = 2" "\<forall>j \<in> set (d_items d). j_Priority j = 3"
  have const: "sorted (map j_Priority js)" if "\<forall>j \<in> set js. j_Priority j = k" for js k
    using that by (induction js) auto
  show "sorted (map j_Priority (pq_items pq))"
    using t const [OF t(1)] const [OF t(2)] const [OF t(3)] const [OF t(4)]
    by (auto simp: pq_items_def q sorted_append)
qed

lemma norm_priority_range: "0 \<le> j_Priority (norm_priority job) \<and> j_Priority (norm_priority job) \<le> 3"
  by (simp add: norm_priority_def job_priority_defs)

lemma filter_tier:
  "\<forall>j \<in> set js. j_Priority j = k \<Longrightarrow> filter (\<lambda>j. j_Priority j \<le> p) js = (if k \<le> p then js else [])"
  "\<forall>j \<in> set js. j_Priority j = k \<Longrightarrow> filter (\<lambda>j. \<not> j_Priority j \<le> p) js = (if k \<le> p then [] else js)"
  by (induction js) auto

lemma pq_Enqueue_queues:
  "\<not> pq_closed pq \<Longrightarrow> pq_queues (snd (pq_Enqueue job pq)) =
     (let p = nat (j_Priority (norm_priority job))
      in (pq_queues pq)[p := pushBack (norm_priority job) (pq_queues pq ! p)])"
  by (simp add: pq_Enqueue_def Let_def pq_frame_defs)

interpretation tiers: priority_fifo "\<lambda>pq job. snd (pq_Enqueue job pq)" pq_items norm_priority j_Priority
    "\<lambda>pq job. \<not> pq_closed pq" "\<lambda>pq. tiers_ok (pq_queues pq)"
proof
  fix pq :: PriorityQueue and job :: Job
  assume inv: "tiers_ok (pq_queues pq)"
  let ?j = "norm_priority job"
  show "pq_items (snd (pq_Enqueue job pq)) = pq_items pq" if "\<not> \<not> pq_closed pq"
    using that by (simp add: pq_Enqueue_def)
  from norm_priority_range [of job] consider "j_Priority ?j = 0" | "j_Priority ?j = 1" | "j_Priority ?j = 2" | "j_Priority ?j = 3"
    by linarith
  note tier = this
  from inv obtain a b c d where q: "pq_queues pq = [a, b, c, d]" and
    t: "\<forall>j \<in> set (d_items a). j_Priority j = 0" "\<forall>j \<in> set (d_items b). j_Priority j = 1"
    "\<forall>j \<in> set (d_items c). j_Priority j = 2" "\<forall>j \<in> set (d_items d). j_Priority j = 3"
    by (rule tiers_okE)
  note F = filter_tier [OF t(1)] filter_tier [OF t(2)] filter_tier [OF t(3)] filter_tier [OF t(4)]
  show "pq_items (snd (pq_Enqueue job pq)) = stable_insert j_Priority ?j (pq_items pq)" if "\<not> pq_closed pq"
    using tier unfolding pq_items_def pq_Enqueue_queues [OF that] stable_insert_def
    by cases (simp_all add: q F pushBack_def Let_def nat_numeral numeral_eq_Suc del: not_le)
  show "tiers_ok (pq_queues (snd (pq_Enqueue job pq)))"
  proof (cases "pq_closed pq")
    case True
    with inv show ?thesis by (simp add: pq_Enqueue_def)
  next
    case False
    show ?thesis
      using tier t unfolding pq_Enqueue_queues [OF False] q
      by cases (auto simp: pushBack_def Let_def numeral_eq_Suc intro!: tiers_ok_intro)
  qed
qed

text \<open>
  Jobs put into a new queue come to stand in the stable sort of the accepted ones by tier, most
  urgent tier first and in order of arrival within a tier; a job with a priority outside the four tiers
  counts as normal. All of them are accepted while the queue is open.
\<close>

theorem pq_Enqueue_stable_sort:
  "pq_items (foldl (\<lambda>pq job. snd (pq_Enqueue job pq)) NewPriorityQueue jobs)
     = sort_key j_Priority (map norm_priority jobs)"
proof -
  have acc: "accepted (\<lambda>pq job. \<not> pq_closed pq) (\<lambda>pq job. snd (pq_Enqueue job pq)) pq jobs = jobs"
    if "\<not> pq_closed pq" for pq
    using that by (induction jobs arbitrary: pq) (simp_all add: pq_Enqueue_def Let_def pq_frame_defs)
  have new: "tiers_ok (pq_queues NewPriorityQueue)" "pq_items NewPriorityQueue = []" "\<not> pq_closed NewPriorityQueue"
    by (simp_all add: NewPriorityQueue_def tiers_ok_def pq_items_def newConcurrentDeque_def)
  with tiers.enqs_stable_sort [OF new(1), of jobs] acc [OF new(3)] show ?thesis by simp
qed

section \<open>What is taken out\<close>

abbreviation all_items :: "concurrentDeque list \<Rightarrow> Job list" where
  "all_items ds \<equiv> concat (map d_items ds)"

lemma remove_nth_distinct:
  "find_index (\<lambda>x. f x = f y) xs = Some i \<Longrightarrow> distinct (map f xs) \<Longrightarrow> y \<in> set xs \<Longrightarrow> remove_nth i xs = remove1 y xs"
proof (induction xs arbitrary: i)
  case (Cons x xs)
  then show ?case by (cases "f x = f y") (auto simp: remove_nth_def image_iff)
qed simp

lemma deque_remove_mem:
  assumes "job \<in> set (d_items d)"
  shows "length (d_items (snd (deque_remove (j_ID job) d))) = length (d_items d) - 1"
    and "set (d_items (snd (deque_remove (j_ID job) d))) \<subseteq> set (d_items d)"
    and "distinct (map j_ID (d_items d)) \<Longrightarrow> d_items (snd (deque_remove (j_ID job) d)) = remove1 job (d_items d)"
proof -
  from assms obtain i where i: "find_index (\<lambda>x. j_ID x = j_ID job) (d_items d) = Some i"
    using find_index_None [of "\<lambda>x. j_ID x = j_ID job" "d_items d"] by (cases "find_index (\<lambda>x. j_ID x = j_ID job) (d_items d)") auto
  with find_index_SomeD [OF i] set_remove_nth [of i "d_items d"] remove_nth_distinct [OF i _ assms]
  show "length (d_items (snd (deque_remove (j_ID job) d))) = length (d_items d) - 1"
    "set (d_items (snd (deque_remove (j_ID job) d))) \<subseteq> set (d_items d)"
    "distinct (map j_ID (d_items d)) \<Longrightarrow> d_items (snd (deque_remove (j_ID job) d)) = remove1 job (d_items d)"
    by (simp_all add: deque_remove_def)
qed

lemma find_append: "find P (xs @ ys) = (case find P xs of Some x \<Rightarrow> Some x | None \<Rightarrow> find P ys)"
  by (induction xs) auto

lemma urgent_scan_find: "map_option fst (urgent_scan now ds) = find (urgent now) (all_items ds)"
proof (induction ds)
  case (Cons d ds)
  have "map_option fst (map_option (\<lambda>(job, ds'). (job, d # ds')) x) = map_option fst x" for x :: "(Job \<times> concurrentDeque list) option"
    by (cases x) auto
  with Cons show ?case by (auto simp: find_append split: option.splits)
qed simp

lemma urgent_scan_SomeD:
  assumes "urgent_scan now ds = Some (job, ds')"
  shows "job \<in> set (all_items ds) \<and> length (all_items ds') = length (all_items ds) - 1 \<and>
    (distinct (map j_ID (all_items ds)) \<longrightarrow> all_items ds' = remove1 job (all_items ds))"
  using assms
proof (induction ds arbitrary: ds')
  case (Cons d ds)
  show ?case
  proof (cases "find (urgent now) (d_items d)")
    case (Some j)
    then have j: "j \<in> set (d_items d)" by (auto simp: find_Some_iff)
    from j have "0 < length (d_items d)" by (metis length_pos_if_in_set)
    then have "length (d_items d) - Suc 0 + n = length (d_items d) + n - Suc 0" for n by linarith
    with Cons.prems Some j deque_remove_mem [OF j] show ?thesis
      by (auto simp: remove1_append)
  next
    case None
    with Cons.prems obtain ds1 where ds1: "urgent_scan now ds = Some (job, ds1)" "ds' = d # ds1" by auto
    from Cons.IH [OF ds1(1)] have mem: "job \<in> set (all_items ds)"
      and len: "length (all_items ds1) = length (all_items ds) - 1"
      and eq: "distinct (map j_ID (all_items ds)) \<longrightarrow> all_items ds1 = remove1 job (all_items ds)" by auto
    from mem have "0 < length (all_items ds)" by (metis length_pos_if_in_set)
    then have pos: "n + (length (all_items ds) - Suc 0) = n + length (all_items ds) - Suc 0" for n by linarith
    have "job \<notin> set (d_items d)" if "distinct (map j_ID (all_items (d # ds)))"
      using that mem by auto
    then show ?thesis using ds1(2) mem len eq pos by (auto simp: remove1_append)
  qed
qed simp

lemma pop_scan_cases:
  "case pop_scan ds of None \<Rightarrow> all_items ds = [] | Some (job, ds') \<Rightarrow> all_items ds = job # all_items ds'"
proof (induction ds)
  case (Cons d ds)
  then show ?case by (cases "d_items d") (auto simp: popFront_def split: option.splits)
qed simp

lemma peek_scan_hd: "peek_scan ds = (case all_items ds of [] \<Rightarrow> None | j # _ \<Rightarrow> Some j)"
proof (induction ds)
  case (Cons d ds)
  then show ?case by (cases "d_items d") (auto simp: peekFront_def)
qed simp

lemma dequeue_pass_length:
  "case dequeue_pass now pq of
     (None, pq') \<Rightarrow> pq_items pq = [] \<and> pq' = cond_Wait pq
   | (Some job, pq') \<Rightarrow> length (pq_items pq') + 1 = length (pq_items pq) \<and> pq_waiting pq' = pq_waiting pq \<and>
       pq_woken pq' = pq_woken pq \<and> pq_closed pq' = pq_closed pq"
proof (cases "urgent_scan now (pq_queues pq)")
  case None
  then show ?thesis using pop_scan_cases [of "pq_queues pq"]
    by (auto simp: dequeue_pass_def findUrgentDeadlineJob_def pq_items_def count_dequeued_def split: option.splits)
next
  case (Some x)
  obtain job ds where x: "x = (job, ds)" by (cases x)
  note U = urgent_scan_SomeD [OF Some [unfolded x]]
  then have "0 < length (all_items (pq_queues pq))" by (metis length_pos_if_in_set)
  with U Some x show ?thesis
    by (simp add: dequeue_pass_def findUrgentDeadlineJob_def pq_items_def count_dequeued_def)
qed

text \<open>
  C10. Which job \<^verbatim>\<open>Dequeue\<close> hands out, when job IDs are distinct: if any queued job is within five seconds of
  its deadline or past it, the first such job in the order of tiers and arrival; otherwise the oldest job
  of the most urgent tier that has one. Exactly that job leaves the queue. The caller sleeps only if
  the queue is empty.
\<close>

theorem pq_Dequeue_spec:
  assumes "distinct (map j_ID (pq_items pq))"
  shows "case pq_Dequeue now pq of
     (None, pq') \<Rightarrow> pq_items pq = [] \<and> pq' = cond_Wait pq
   | (Some job, pq') \<Rightarrow> pq_items pq' = remove1 job (pq_items pq) \<and>
       (case find (urgent now) (pq_items pq) of Some u \<Rightarrow> job = u | None \<Rightarrow> job = hd (pq_items pq) \<and> pq_items pq \<noteq> [])"
proof (cases "urgent_scan now (pq_queues pq)")
  case None
  then have "find (urgent now) (pq_items pq) = None"
    using urgent_scan_find [of now "pq_queues pq"] by (simp add: pq_items_def)
  with None pop_scan_cases [of "pq_queues pq"] show ?thesis
    by (auto simp: pq_Dequeue_def dequeue_pass_def findUrgentDeadlineJob_def pq_items_def count_dequeued_def
        simp del: concat_eq_Nil_conv split: option.splits)
next
  case (Some x)
  obtain job ds where x: "x = (job, ds)" by (cases x)
  have "find (urgent now) (pq_items pq) = Some job"
    using urgent_scan_find [of now "pq_queues pq"] Some x by (simp add: pq_items_def)
  with urgent_scan_SomeD [OF Some [unfolded x]] Some x assms show ?thesis
    by (simp add: pq_Dequeue_def dequeue_pass_def findUrgentDeadlineJob_def pq_items_def count_dequeued_def)
qed

text \<open>\<^verbatim>\<open>Peek\<close> shows the job \<^verbatim>\<open>Dequeue\<close> would hand out, but takes it out of the queue if it is urgent.\<close>

lemma pq_Peek_removes_urgent:
  assumes "distinct (map j_ID (pq_items pq))" "find (urgent now) (pq_items pq) = Some job"
  shows "fst (pq_Peek now pq) = Some job \<and> pq_items (snd (pq_Peek now pq)) = remove1 job (pq_items pq)"
proof -
  obtain ds where "urgent_scan now (pq_queues pq) = Some (job, ds)"
    using urgent_scan_find [of now "pq_queues pq"] assms(2) by (auto simp: pq_items_def)
  with urgent_scan_SomeD [OF this] assms(1) show ?thesis
    by (simp add: pq_Peek_def findUrgentDeadlineJob_def pq_items_def)
qed

section \<open>Sleeping and waking\<close>

text \<open>Everything callers can do; a sleeper runs on only after it was woken.\<close>

inductive pq_step :: "PriorityQueue \<Rightarrow> PriorityQueue \<Rightarrow> bool" where
  enqueue: "pq_step pq (snd (pq_Enqueue job pq))"
| dequeue: "pq_step pq (snd (pq_Dequeue now pq))"
| wake: "pq_woken pq > 0 \<Longrightarrow> pq_step pq (snd (dequeue_wake now pq))"
| peek: "pq_step pq (snd (pq_Peek now pq))"
| cancel: "pq_step pq (snd (pq_Cancel i pq))"
| close: "pq_step pq (pq_Close pq)"

lemma pq_items_frame [simp]:
  "pq_items (pq\<lparr>pq_waiting := n\<rparr>) = pq_items pq" "pq_items (pq\<lparr>pq_woken := n\<rparr>) = pq_items pq"
  by (simp_all add: pq_items_def)

lemma cancel_scan_length:
  "length (all_items (snd (cancel_scan i ds))) \<le> length (all_items ds) \<and> length (snd (cancel_scan i ds)) = length ds"
proof (induction ds)
  case (Cons d ds)
  show ?case
  proof (cases "find_index (\<lambda>job. j_ID job = i) (d_items d)")
    case None
    with Cons show ?thesis by (auto simp: deque_remove_def map_prod_def case_prod_unfold)
  next
    case (Some k)
    with find_index_SomeD [OF Some] show ?thesis by (simp add: deque_remove_def)
  qed
qed simp

lemma Peek_length:
  "length (pq_items (snd (pq_Peek now pq))) \<le> length (pq_items pq) \<and> pq_waiting (snd (pq_Peek now pq)) = pq_waiting pq \<and>
     pq_woken (snd (pq_Peek now pq)) = pq_woken pq \<and> pq_closed (snd (pq_Peek now pq)) = pq_closed pq"
proof (cases "urgent_scan now (pq_queues pq)")
  case None
  then show ?thesis by (simp add: pq_Peek_def findUrgentDeadlineJob_def)
next
  case (Some x)
  obtain job ds where x: "x = (job, ds)" by (cases x)
  from urgent_scan_SomeD [OF Some [unfolded x]] Some x show ?thesis
    by (simp add: pq_Peek_def findUrgentDeadlineJob_def pq_items_def)
qed

text \<open>
  While some caller sleeps, every queued job has a woken caller that has yet to run; and if the queue
  was closed under a sleeper, it is empty.
\<close>

definition wakeups_ok :: "PriorityQueue \<Rightarrow> bool" where
  "wakeups_ok pq \<longleftrightarrow> length (pq_queues pq) = 4 \<and>
     (pq_waiting pq > 0 \<longrightarrow> length (pq_items pq) \<le> pq_woken pq \<and> (pq_closed pq \<longrightarrow> pq_items pq = []))"

lemma length_queues_pass: "length (pq_queues (snd (dequeue_pass now pq))) = length (pq_queues pq)"
proof -
  have "length ds' = length ds" if "urgent_scan now ds = Some (job, ds')" for job ds ds'
    using that by (induction ds arbitrary: ds') (auto split: option.splits)
  moreover have "length ds' = length ds" if "pop_scan ds = Some (job, ds')" for job ds ds'
    using that by (induction ds arbitrary: ds') (auto split: option.splits prod.splits)
  ultimately show ?thesis
    by (auto simp: dequeue_pass_def findUrgentDeadlineJob_def count_dequeued_def cond_Wait_def split: option.splits)
qed

lemma length_queues_peek: "length (pq_queues (snd (pq_Peek now pq))) = length (pq_queues pq)"
proof -
  have "length ds' = length ds" if "urgent_scan now ds = Some (job, ds')" for job ds ds'
    using that by (induction ds arbitrary: ds') (auto split: option.splits)
  then show ?thesis by (auto simp: pq_Peek_def findUrgentDeadlineJob_def split: option.splits)
qed

lemma Enqueue_length:
  assumes "\<not> pq_closed pq" "length (pq_queues pq) = 4"
  shows "length (pq_items (snd (pq_Enqueue job pq))) = Suc (length (pq_items pq)) \<and>
    pq_closed (snd (pq_Enqueue job pq)) = pq_closed pq \<and>
    pq_waiting (snd (pq_Enqueue job pq)) = pq_waiting pq - 1 \<and>
    pq_woken (snd (pq_Enqueue job pq)) = pq_woken pq + (if pq_waiting pq > 0 then 1 else 0)"
proof -
  let ?p = "nat (j_Priority (norm_priority job))"
  have "?p < 4" using norm_priority_range [of job] by linarith
  then have p: "?p < length (pq_queues pq)" using assms(2) by simp
  have "pq_queues (snd (pq_Enqueue job pq)) = (pq_queues pq)[?p := pushBack (norm_priority job) (pq_queues pq ! ?p)]"
    using pq_Enqueue_queues [OF assms(1)] by (simp add: Let_def)
  moreover have "length (all_items (ds[k := pushBack j (ds ! k)])) = Suc (length (all_items ds))"
    if "k < length ds" for ds k j
    using that by (induction ds arbitrary: k) (auto simp: pushBack_def split: nat.splits)
  ultimately show ?thesis using p assms(1)
    by (simp add: pq_items_def) (simp add: pq_Enqueue_def Let_def pq_frame_defs)
qed

lemma wakeups_ok_step: "pq_step pq pq' \<Longrightarrow> wakeups_ok pq \<Longrightarrow> wakeups_ok pq'"
proof (induction rule: pq_step.induct)
  case (enqueue pq job)
  show ?case
  proof (cases "pq_closed pq")
    case True
    with enqueue show ?thesis by (simp add: pq_Enqueue_def)
  next
    case False
    have "length (pq_queues (snd (pq_Enqueue job pq))) = 4"
      using enqueue pq_Enqueue_queues [OF False, of job] by (simp add: wakeups_ok_def Let_def)
    with False enqueue Enqueue_length [OF False] show ?thesis by (auto simp: wakeups_ok_def)
  qed
next
  case (dequeue pq now)
  then show ?case using dequeue_pass_length [where now = now and pq = pq] length_queues_pass [of now pq]
    by (cases "dequeue_pass now pq")
      (auto simp: wakeups_ok_def pq_Dequeue_def cond_Wait_def split: option.splits)
next
  case (wake pq now)
  let ?pq = "pq\<lparr>pq_woken := pq_woken pq - 1\<rparr>"
  show ?case
  proof (cases "pq_closed pq")
    case True
    with wake show ?thesis by (auto simp: wakeups_ok_def dequeue_wake_def)
  next
    case False
    then have "snd (dequeue_wake now pq) = snd (dequeue_pass now ?pq)"
      by (simp add: dequeue_wake_def Let_def split: prod.splits option.splits)
    with False wake dequeue_pass_length [where now = now and pq = ?pq] length_queues_pass [of now ?pq] show ?thesis
      by (cases "dequeue_pass now ?pq") (auto simp: wakeups_ok_def cond_Wait_def split: option.splits)
  qed
next
  case (peek pq now)
  then show ?case using Peek_length [of now pq] length_queues_peek [of now pq]
    by (auto simp: wakeups_ok_def)
next
  case (cancel pq i)
  then show ?case using cancel_scan_length [of i "pq_queues pq"]
    by (auto simp: wakeups_ok_def pq_Cancel_def pq_items_def case_prod_unfold simp del: concat_eq_Nil_conv)
next
  case (close pq)
  then show ?case by (simp add: wakeups_ok_def pq_Close_def cond_Broadcast_def)
qed

text \<open>
  C22. No wake-up is lost: in every state a queue can reach, with any number of callers, if a caller sleeps in
  \<^verbatim>\<open>Dequeue\<close> then either nothing is queued, or for each queued job there is a caller that was woken and
  will look for it.
\<close>

theorem no_lost_wakeup:
  assumes "pq_step\<^sup>*\<^sup>* NewPriorityQueue pq" "pq_waiting pq > 0"
  shows "length (pq_items pq) \<le> pq_woken pq"
proof -
  have "wakeups_ok pq"
    using assms(1) by (induction rule: rtranclp_induct)
      (simp add: wakeups_ok_def NewPriorityQueue_def, erule wakeups_ok_step)
  with assms(2) show ?thesis by (simp add: wakeups_ok_def)
qed

text \<open>
  After \<^verbatim>\<open>Close\<close>, a caller of \<^verbatim>\<open>Dequeue\<close> on an empty queue goes to sleep all the same, and nothing but another
  \<^verbatim>\<open>Close\<close> wakes it.
\<close>

lemma Dequeue_after_Close:
  assumes "pq_closed pq" "pq_items pq = []"
  shows "fst (pq_Dequeue now pq) = None \<and> pq_waiting (snd (pq_Dequeue now pq)) = Suc (pq_waiting pq) \<and>
    pq_Enqueue job pq = (False, pq)"
  using assms dequeue_pass_length [where now = now and pq = pq]
  by (auto simp: pq_Dequeue_def pq_Enqueue_def cond_Wait_def split: prod.splits option.splits)

section \<open>Witnesses\<close>

definition sample_job :: "string \<Rightarrow> int \<Rightarrow> gotime \<Rightarrow> Job" where
  "sample_job i p dl = (NewJob 0 i ''c'' ''chat'' [])\<lparr>j_Priority := p, j_Deadline := dl\<rparr>"

definition sample_pq :: PriorityQueue where
  "sample_pq = foldl (\<lambda>pq job. snd (pq_Enqueue job pq)) NewPriorityQueue
     [sample_job ''a'' 0 0, sample_job ''b'' 3 100, sample_job ''c'' 9 0]"

lemma sample_pq_items:
  "pq_items sample_pq = [sample_job ''a'' 0 0, sample_job ''c'' 2 0, sample_job ''b'' 3 100]"
  by (simp add: sample_pq_def pq_items_def pq_Enqueue_def NewPriorityQueue_def norm_priority_def job_priority_defs
      sample_job_def NewJob_def pq_frame_defs deque_defs Let_def numeral_eq_Suc)

theorem pq_Dequeue_spec_witness:
  "\<exists>pq'. pq_Dequeue 50 sample_pq = (Some (sample_job ''b'' 3 100), pq') \<and>
     pq_items pq' = [sample_job ''a'' 0 0, sample_job ''c'' 2 0]"
proof -
  have "distinct (map j_ID (pq_items sample_pq))" by (simp add: sample_pq_items sample_job_def NewJob_def)
  from pq_Dequeue_spec [OF this, of 50] show ?thesis
    by (cases "pq_Dequeue 50 sample_pq")
      (auto simp: sample_pq_items urgent_def sample_job_def NewJob_def split: option.splits if_splits)
qed

theorem no_lost_wakeup_witness:
  "\<exists>pq. pq_step\<^sup>*\<^sup>* NewPriorityQueue pq \<and> pq_waiting pq = 1 \<and> length (pq_items pq) \<le> pq_woken pq"
proof -
  let ?pq = "snd (pq_Dequeue 5 NewPriorityQueue)"
  have r: "pq_step\<^sup>*\<^sup>* NewPriorityQueue ?pq" by (rule r_into_rtranclp, rule pq_step.dequeue)
  have w: "pq_waiting ?pq = 1"
    by (simp add: pq_Dequeue_def dequeue_pass_def findUrgentDeadlineJob_def NewPriorityQueue_def deque_defs cond_Wait_def numeral_eq_Suc)
  with no_lost_wakeup [OF r] r show ?thesis by (intro exI [of _ ?pq]) simp
qed

end
