(* ===== verification/Circuit_Breaker.thy ===== *)
theory Circuit_Breaker
  imports Hive_Prelude
begin

text \<open>
  The circuit breakers of the hive server, \<^verbatim>\<open>hive-server-go/circuit_breaker.go\<close>: one breaker as a state machine
  driven by the clock, and the manager that keeps one breaker per name. The theory shows when a breaker
  opens, that an open one lets nothing through before its timeout, and how it closes again.
\<close>

section \<open>One breaker\<close>

datatype CircuitState = CircuitClosed | CircuitOpen | CircuitHalfOpen

definition CircuitState_String :: "CircuitState \<Rightarrow> string" where
  "CircuitState_String s = (case s of CircuitClosed \<Rightarrow> ''closed'' | CircuitOpen \<Rightarrow> ''open'' | CircuitHalfOpen \<Rightarrow> ''half-open'')"

record CircuitBreakerConfig =
  cc_FailureThreshold :: int
  cc_SuccessThreshold :: int
  cc_Timeout :: duration
  cc_Interval :: duration

definition DefaultCircuitBreakerConfig :: CircuitBreakerConfig where
  "DefaultCircuitBreakerConfig = \<lparr>cc_FailureThreshold = 5, cc_SuccessThreshold = 3,
     cc_Timeout = 30 * second, cc_Interval = 60 * second\<rparr>"

record CircuitBreaker =
  cb_state :: CircuitState
  cb_failures :: int
  cb_successes :: int
  cb_lastFailure :: gotime
  cb_lastStateChange :: gotime
  cb_config :: CircuitBreakerConfig
  cb_name :: string

definition NewCircuitBreaker :: "gotime \<Rightarrow> string \<Rightarrow> CircuitBreakerConfig option \<Rightarrow> CircuitBreaker" where
  "NewCircuitBreaker now name config =
     \<lparr>cb_state = CircuitClosed, cb_failures = 0, cb_successes = 0, cb_lastFailure = 0, cb_lastStateChange = now,
      cb_config = (case config of None \<Rightarrow> DefaultCircuitBreakerConfig | Some c \<Rightarrow> c), cb_name = name\<rparr>"

definition transitionTo :: "gotime \<Rightarrow> CircuitState \<Rightarrow> CircuitBreaker \<Rightarrow> CircuitBreaker" where
  "transitionTo now st cb =
     (let cb1 = cb\<lparr>cb_state := st, cb_lastStateChange := now\<rparr>
      in if st = CircuitClosed then cb1\<lparr>cb_failures := 0, cb_successes := 0\<rparr>
         else if st = CircuitHalfOpen then cb1\<lparr>cb_successes := 0\<rparr>
         else cb1)"

definition cb_Allow :: "gotime \<Rightarrow> CircuitBreaker \<Rightarrow> bool \<times> CircuitBreaker" where
  "cb_Allow now cb = (case cb_state cb of
     CircuitClosed \<Rightarrow> (True, cb)
   | CircuitOpen \<Rightarrow>
       (if now - cb_lastFailure cb > cc_Timeout (cb_config cb) then (True, transitionTo now CircuitHalfOpen cb)
        else (False, cb))
   | CircuitHalfOpen \<Rightarrow> (True, cb))"

definition RecordSuccess :: "gotime \<Rightarrow> CircuitBreaker \<Rightarrow> CircuitBreaker" where
  "RecordSuccess now cb = (case cb_state cb of
     CircuitHalfOpen \<Rightarrow>
       (let cb1 = cb\<lparr>cb_successes := cb_successes cb + 1\<rparr>
        in if cb_successes cb1 \<ge> cc_SuccessThreshold (cb_config cb) then transitionTo now CircuitClosed cb1 else cb1)
   | CircuitClosed \<Rightarrow> cb\<lparr>cb_failures := 0\<rparr>
   | CircuitOpen \<Rightarrow> cb)"

definition RecordFailure :: "gotime \<Rightarrow> CircuitBreaker \<Rightarrow> CircuitBreaker" where
  "RecordFailure now cb =
     (let cb1 = cb\<lparr>cb_failures := cb_failures cb + 1, cb_lastFailure := now\<rparr>
      in case cb_state cb of
           CircuitClosed \<Rightarrow>
             (if cb_failures cb1 \<ge> cc_FailureThreshold (cb_config cb) then transitionTo now CircuitOpen cb1 else cb1)
         | CircuitHalfOpen \<Rightarrow> transitionTo now CircuitOpen cb1
         | CircuitOpen \<Rightarrow> cb1)"

definition cb_State :: "CircuitBreaker \<Rightarrow> CircuitState" where
  "cb_State cb = cb_state cb"

record BreakerStats =
  bs_name :: string
  bs_state :: string
  bs_failures :: int
  bs_successes :: int
  bs_last_failure :: int
  bs_last_state_change :: int
  bs_failure_threshold :: int
  bs_success_threshold :: int
  bs_timeout_seconds :: real

definition cb_Stats :: "CircuitBreaker \<Rightarrow> BreakerStats" where
  "cb_Stats cb =
     \<lparr>bs_name = cb_name cb, bs_state = CircuitState_String (cb_state cb), bs_failures = cb_failures cb,
      bs_successes = cb_successes cb, bs_last_failure = cb_lastFailure cb div second,
      bs_last_state_change = cb_lastStateChange cb div second,
      bs_failure_threshold = cc_FailureThreshold (cb_config cb),
      bs_success_threshold = cc_SuccessThreshold (cb_config cb),
      bs_timeout_seconds = of_int (cc_Timeout (cb_config cb)) / of_int second\<rparr>"

definition cb_Reset :: "gotime \<Rightarrow> CircuitBreaker \<Rightarrow> CircuitBreaker" where
  "cb_Reset now cb = transitionTo now CircuitClosed cb"

section \<open>The manager\<close>

text \<open>The breakers by name; what a caller holds is the name, as a pointer of the table.\<close>

record CircuitBreakerManager =
  cm_breakers :: "string \<rightharpoonup> CircuitBreaker"
  cm_defaultConfig :: CircuitBreakerConfig

definition NewCircuitBreakerManager :: CircuitBreakerManager where
  "NewCircuitBreakerManager = \<lparr>cm_breakers = Map.empty, cm_defaultConfig = DefaultCircuitBreakerConfig\<rparr>"

definition cm_GetWithConfig ::
  "gotime \<Rightarrow> string \<Rightarrow> CircuitBreakerConfig option \<Rightarrow> CircuitBreakerManager \<Rightarrow> CircuitBreaker \<times> CircuitBreakerManager" where
  "cm_GetWithConfig now name config m =
     (case cm_breakers m name of
        Some cb \<Rightarrow> (cb, m)
      | None \<Rightarrow> let cb = NewCircuitBreaker now name config
                in (cb, m\<lparr>cm_breakers := (cm_breakers m)(name \<mapsto> cb)\<rparr>))"

definition cm_Get :: "gotime \<Rightarrow> string \<Rightarrow> CircuitBreakerManager \<Rightarrow> CircuitBreaker \<times> CircuitBreakerManager" where
  "cm_Get now name m =
     (case cm_breakers m name of
        Some cb \<Rightarrow> (cb, m)
      | None \<Rightarrow> let cb = NewCircuitBreaker now name (Some (cm_defaultConfig m))
                in (cb, m\<lparr>cm_breakers := (cm_breakers m)(name \<mapsto> cb)\<rparr>))"

definition cm_GetAll :: "CircuitBreakerManager \<Rightarrow> (string \<rightharpoonup> CircuitBreaker)" where
  "cm_GetAll m = cm_breakers m"

definition cm_Remove :: "string \<Rightarrow> CircuitBreakerManager \<Rightarrow> CircuitBreakerManager" where
  "cm_Remove name m = m\<lparr>cm_breakers := (cm_breakers m)(name := None)\<rparr>"

definition ErrCircuitOpen :: string where
  "ErrCircuitOpen = ''circuit breaker is open''"

text \<open>
  \<open>Execute\<close> with the call's outcome \<open>fn\<close> (\<open>None\<close>: no error), the time \<open>now\<close> it is admitted and the time \<open>done\<close> the
  call returns. The second component says whether the function was called at all.
\<close>

definition cm_Execute ::
  "gotime \<Rightarrow> gotime \<Rightarrow> string \<Rightarrow> string option \<Rightarrow> CircuitBreakerManager
     \<Rightarrow> (string option \<times> bool) \<times> CircuitBreakerManager" where
  "cm_Execute now done name fn m =
     (case cm_Get now name m of (cb, m1) \<Rightarrow>
       (case cb_Allow now cb of (ok, cb1) \<Rightarrow>
          let m2 = m1\<lparr>cm_breakers := (cm_breakers m1)(name \<mapsto> cb1)\<rparr>
          in if \<not> ok then ((Some ErrCircuitOpen, False), m2)
             else let cb2 = (case fn of Some err \<Rightarrow> RecordFailure done cb1 | None \<Rightarrow> RecordSuccess done cb1)
                  in ((fn, True), m2\<lparr>cm_breakers := (cm_breakers m2)(name \<mapsto> cb2)\<rparr>)))"

lemmas breaker_defs = transitionTo_def cb_Allow_def RecordSuccess_def RecordFailure_def cb_Reset_def Let_def

section \<open>Opening\<close>

text \<open>Outcomes of calls, in the order they are recorded: the time, and whether the call succeeded.\<close>

definition record_outcome :: "CircuitBreaker \<Rightarrow> gotime \<times> bool \<Rightarrow> CircuitBreaker" where
  "record_outcome cb = (\<lambda>(t, ok). if ok then RecordSuccess t cb else RecordFailure t cb)"

text \<open>\<open>fail_run k n bs\<close>: counting from \<open>n\<close> failures in a row, some point of \<open>bs\<close> has \<open>k\<close> in a row.\<close>

fun fail_run :: "nat \<Rightarrow> nat \<Rightarrow> bool list \<Rightarrow> bool" where
  "fail_run k n [] = False"
| "fail_run k n (b # bs) = (if b then fail_run k 0 bs else k \<le> Suc n \<or> fail_run k (Suc n) bs)"

lemma records_config: "cb_config (foldl record_outcome cb es) = cb_config cb"
  by (induction es arbitrary: cb) (auto simp: record_outcome_def breaker_defs split: CircuitState.splits)

lemma records_open: "cb_state cb = CircuitOpen \<Longrightarrow> cb_state (foldl record_outcome cb es) = CircuitOpen"
  by (induction es arbitrary: cb) (auto simp: record_outcome_def breaker_defs)

lemma records_state:
  assumes "cb_state cb = CircuitClosed" "cb_failures cb = int n" "cc_FailureThreshold (cb_config cb) = int k"
  shows "cb_state (foldl record_outcome cb es) = (if fail_run k n (map snd es) then CircuitOpen else CircuitClosed)"
  using assms
proof (induction es arbitrary: cb n)
  case (Cons e es)
  obtain t ok where e: "e = (t, ok)" by (cases e)
  show ?case
  proof (cases ok)
    case True
    with Cons e show ?thesis by (simp add: record_outcome_def breaker_defs)
  next
    case False
    have cb: "record_outcome cb (t, False) = RecordFailure t cb" by (simp add: record_outcome_def)
    show ?thesis
    proof (cases "k \<le> Suc n")
      case True
      then have "cb_state (RecordFailure t cb) = CircuitOpen" using Cons.prems by (simp add: breaker_defs)
      then show ?thesis using True False by (simp add: cb e records_open)
    next
      case F: False
      then have "cb_state (RecordFailure t cb) = CircuitClosed" "cb_failures (RecordFailure t cb) = int (Suc n)"
        "cb_config (RecordFailure t cb) = cb_config cb"
        using Cons.prems by (simp_all add: breaker_defs)
      with Cons.IH [OF this(1,2)] Cons.prems F False show ?thesis by (simp add: cb e)
    qed
  qed
qed simp

text \<open>\<open>k\<close> failures in a row somewhere, or at the beginning enough to bring a count of \<open>n\<close> to \<open>k\<close>.\<close>

definition has_run :: "nat \<Rightarrow> nat \<Rightarrow> bool list \<Rightarrow> bool" where
  "has_run k n bs \<longleftrightarrow> (\<exists>a b. bs = a @ replicate k False @ b) \<or> (\<exists>m b. bs = replicate m False @ b \<and> 0 < m \<and> k \<le> n + m)"

lemma has_run_0: "has_run k 0 bs \<longleftrightarrow> (\<exists>a b. bs = a @ replicate k False @ b)"
proof -
  have "(\<exists>m b. bs = replicate m False @ b \<and> 0 < m \<and> k \<le> 0 + m) \<Longrightarrow> \<exists>a b. bs = a @ replicate k False @ b"
    by (metis append_Nil append_assoc le_add_diff_inverse replicate_add add_0)
  then show ?thesis unfolding has_run_def by blast
qed

lemma has_run_success:
  assumes "0 < k"
  shows "has_run k n (True # bs) \<longleftrightarrow> has_run k 0 bs"
proof -
  have "(\<exists>m b. True # bs = replicate m False @ b \<and> 0 < m \<and> k \<le> n + m) \<longleftrightarrow> False"
    by (auto simp: gr0_conv_Suc)
  moreover have "(\<exists>a b. True # bs = a @ replicate k False @ b) \<longleftrightarrow> (\<exists>a b. bs = a @ replicate k False @ b)"
    using assms by (auto simp: gr0_conv_Suc Cons_eq_append_conv)
  ultimately show ?thesis unfolding has_run_0 unfolding has_run_def by blast
qed

lemma has_run_failureI:
  assumes "has_run k (Suc n) bs \<or> k \<le> Suc n"
  shows "has_run k n (False # bs)"
  using assms unfolding has_run_def [of k "Suc n"]
proof (elim disjE exE conjE)
  show ?thesis if "bs = a @ replicate k False @ b" for a b
    using that unfolding has_run_def by (metis append_Cons)
  show ?thesis if "bs = replicate m False @ b" "0 < m" "k \<le> Suc n + m" for m b
    using that unfolding has_run_def by (intro disjI2 exI [of _ "Suc m"] exI [of _ b]) simp
  show ?thesis if "k \<le> Suc n"
    using that unfolding has_run_def by (intro disjI2 exI [of _ 1] exI [of _ bs]) simp
qed

lemma has_run_failureD:
  assumes "has_run k n (False # bs)" "0 < k"
  shows "has_run k (Suc n) bs \<or> k \<le> Suc n"
proof -
  have tail: ?thesis if "bs = replicate m False @ b" "k \<le> Suc n + m" for m b
    using that unfolding has_run_def by (cases "m = 0") auto
  from assms(1) consider a b where "False # bs = a @ replicate k False @ b" | m b where "False # bs = replicate m False @ b" "k \<le> n + m" "0 < m"
    unfolding has_run_def by blast
  then show ?thesis
  proof cases
    case 1
    then show ?thesis using assms(2) tail [of "k - 1" b]
      by (cases a) (cases k; auto simp: has_run_def)+
  next
    case 2
    then show ?thesis using tail [of "m - 1" b] by (cases m) auto
  qed
qed

lemma fail_run_iff: "0 < k \<Longrightarrow> fail_run k n bs \<longleftrightarrow> has_run k n bs"
proof (induction bs arbitrary: n)
  case Nil
  then show ?case by (auto simp: has_run_def)
next
  case (Cons c bs)
  then show ?case using has_run_success [of k n bs] has_run_failureI [of k n bs] has_run_failureD [of k n bs] by (cases c) auto
qed

text \<open>
  C11. A new breaker, whatever outcomes are recorded on it, is open exactly if some \<open>k\<close> of them in a row were failures,
  \<open>k\<close> being the failure threshold: a success in between starts the count again, and once open it stays open
  until a request is admitted to test the service.
\<close>

theorem breaker_trips:
  assumes "0 < k" "cc_FailureThreshold cfg = int k"
  shows "cb_state (foldl record_outcome (NewCircuitBreaker t0 name (Some cfg)) es) =
    (if \<exists>a b. map snd es = a @ replicate k False @ b then CircuitOpen else CircuitClosed)"
proof -
  have "fail_run k 0 (map snd es) \<longleftrightarrow> (\<exists>a b. map snd es = a @ replicate k False @ b)"
    by (simp only: fail_run_iff [OF assms(1)] has_run_0)
  with records_state [of "NewCircuitBreaker t0 name (Some cfg)" 0 k es] assms(2) show ?thesis
    by (simp add: NewCircuitBreaker_def)
qed

theorem breaker_trips_witness:
  "cb_state (foldl record_outcome (NewCircuitBreaker 1 ''x'' (Some DefaultCircuitBreakerConfig))
     (map (\<lambda>t. (t, False)) [1, 2, 3, 4, 5])) = CircuitOpen"
proof -
  have "\<exists>a b. map snd (map (\<lambda>t. (t :: int, False)) [1, 2, 3, 4, 5]) = a @ replicate 5 False @ b"
    by (intro exI [of _ "[]"]) (simp add: numeral_eq_Suc)
  moreover have "cc_FailureThreshold DefaultCircuitBreakerConfig = int 5" by (simp add: DefaultCircuitBreakerConfig_def)
  ultimately show ?thesis
    by (subst breaker_trips [of 5 DefaultCircuitBreakerConfig]) simp_all
qed

section \<open>Open and half-open\<close>

text \<open>A run of \<^verbatim>\<open>Execute\<close> calls: admission time, end, name and outcome of each.\<close>

type_synonym exec_call = "gotime \<times> gotime \<times> string \<times> string option"

fun exec_run :: "exec_call list \<Rightarrow> CircuitBreakerManager \<Rightarrow> (string option \<times> bool) list \<times> CircuitBreakerManager" where
  "exec_run [] m = ([], m)"
| "exec_run ((now, done, name, fn) # calls) m =
     (case cm_Execute now done name fn m of (r, m1) \<Rightarrow>
       (case exec_run calls m1 of (rs, m2) \<Rightarrow> (r # rs, m2)))"

lemma Execute_other: "name' \<noteq> name \<Longrightarrow> cm_breakers (snd (cm_Execute now dn name' fn m)) name = cm_breakers m name"
  by (auto simp: cm_Execute_def cm_Get_def Let_def split: option.splits prod.splits)

lemma Execute_breaker:
  assumes "cm_breakers m name = Some cb"
  shows "cm_Execute now dn name fn m =
    (if fst (cb_Allow now cb)
     then ((fn, True), m\<lparr>cm_breakers := (cm_breakers m)(name \<mapsto>
        (if fn = None then RecordSuccess dn (snd (cb_Allow now cb)) else RecordFailure dn (snd (cb_Allow now cb))))\<rparr>)
     else ((Some ErrCircuitOpen, False), m\<lparr>cm_breakers := (cm_breakers m)(name \<mapsto> snd (cb_Allow now cb))\<rparr>))"
  using assms by (auto simp: cm_Execute_def cm_Get_def Let_def split: option.splits prod.splits)

text \<open>
  While a breaker is open and its timeout has not passed since its last failure, no call under its name
  reaches the service, in any run of calls under any names: each is answered with the error that the
  circuit is open, and the breaker is unchanged.
\<close>

theorem open_blocks:
  assumes "cm_breakers m name = Some cb" "cb_state cb = CircuitOpen"
    and "\<forall>(now, done, n, fn) \<in> set calls. now \<le> cb_lastFailure cb + cc_Timeout (cb_config cb)"
    and "exec_run calls m = (rs, m')"
  shows "cm_breakers m' name = Some cb \<and>
    (\<forall>k < length calls. fst (snd (snd (calls ! k))) = name \<longrightarrow> rs ! k = (Some ErrCircuitOpen, False))"
  using assms
proof (induction calls arbitrary: m rs m')
  case (Cons c calls)
  obtain now dn n fn where c: "c = (now, dn, n, fn)" by (metis surj_pair)
  obtain r m1 where e: "cm_Execute now dn n fn m = (r, m1)" by (metis surj_pair)
  obtain rs1 m2 where run: "exec_run calls m1 = (rs1, m2)" by (metis surj_pair)
  have rs: "rs = r # rs1" "m' = m2" using Cons.prems(4) by (simp_all add: c e run)
  have deny: "cb_Allow now cb = (False, cb)"
    using Cons.prems(2,3) by (simp add: c cb_Allow_def)
  have m1: "cm_breakers m1 name = Some cb" "n = name \<longrightarrow> r = (Some ErrCircuitOpen, False)"
    using e Execute_other [of n name now dn fn m] Execute_breaker [OF Cons.prems(1), of now dn fn] deny Cons.prems(1)
    by (cases "n = name"; auto)+
  note IH = Cons.IH [OF m1(1) Cons.prems(2) _ run]
  show ?case
    using IH Cons.prems(3) m1(2) rs by (auto simp: c nth_Cons split: nat.splits)
qed simp

theorem open_blocks_witness:
  "\<exists>cb. cb_state cb = CircuitOpen \<and> cm_breakers (snd (exec_run [(20, 21, ''x'', None)]
     \<lparr>cm_breakers = [''x'' \<mapsto> cb], cm_defaultConfig = DefaultCircuitBreakerConfig\<rparr>)) ''x'' = Some cb"
proof -
  let ?cb = "(NewCircuitBreaker 1 ''x'' None)\<lparr>cb_state := CircuitOpen, cb_lastFailure := 9\<rparr>"
  let ?m = "\<lparr>cm_breakers = [''x'' \<mapsto> ?cb], cm_defaultConfig = DefaultCircuitBreakerConfig\<rparr>"
  obtain rs m' where run: "exec_run [(20, 21, ''x'', None)] ?m = (rs, m')" by (metis surj_pair)
  have "cm_breakers m' ''x'' = Some ?cb"
    using open_blocks [OF _ _ _ run, of "''x''" ?cb]
    by (simp add: NewCircuitBreaker_def DefaultCircuitBreakerConfig_def)
  with run show ?thesis by (intro exI [of _ ?cb]) simp
qed

definition succeed_all :: "string \<Rightarrow> (gotime \<times> gotime) list \<Rightarrow> CircuitBreakerManager \<Rightarrow> CircuitBreakerManager" where
  "succeed_all name ts m = foldl (\<lambda>m (now, dn). snd (cm_Execute now dn name None m)) m ts"

lemma succeed_closed:
  "cm_breakers m name = Some cb \<Longrightarrow> cb_state cb = CircuitClosed \<Longrightarrow> cb_failures cb = 0 \<Longrightarrow>
     \<exists>cb'. cm_breakers (succeed_all name ts m) name = Some cb' \<and> cb_state cb' = CircuitClosed \<and> cb_failures cb' = 0"
  unfolding succeed_all_def
proof (induction ts arbitrary: m cb)
  case (Cons t ts)
  obtain now dn where "t = (now, dn)" by (cases t)
  with Cons.prems Cons.IH [of "snd (cm_Execute now dn name None m)" "cb\<lparr>cb_failures := 0\<rparr>"] show ?case
    by (simp add: Execute_breaker breaker_defs)
qed simp

lemma succeed_half_open:
  assumes "cm_breakers m name = Some cb" "cb_state cb = CircuitHalfOpen" "0 \<le> cb_successes cb"
    and "cb_successes cb < cc_SuccessThreshold (cb_config cb)"
  shows "\<exists>cb'. cm_breakers (succeed_all name ts m) name = Some cb' \<and>
    (if cb_successes cb + int (length ts) < cc_SuccessThreshold (cb_config cb)
     then cb_state cb' = CircuitHalfOpen else cb_state cb' = CircuitClosed \<and> cb_failures cb' = 0)"
  using assms
proof (induction ts arbitrary: m cb)
  case Nil
  then show ?case by (simp add: succeed_all_def)
next
  case (Cons t ts)
  obtain now dn where t: "t = (now, dn)" by (cases t)
  let ?m = "snd (cm_Execute now dn name None m)" and ?cb = "RecordSuccess dn cb"
  have run: "succeed_all name (t # ts) m = succeed_all name ts ?m" by (simp add: succeed_all_def t)
  have m: "cm_breakers ?m name = Some ?cb" using Cons.prems by (simp add: Execute_breaker cb_Allow_def)
  show ?case
  proof (cases "cb_successes cb + 1 < cc_SuccessThreshold (cb_config cb)")
    case True
    then have "cb_state ?cb = CircuitHalfOpen" "cb_successes ?cb = cb_successes cb + 1" "cb_config ?cb = cb_config cb"
      using Cons.prems by (simp_all add: breaker_defs)
    with Cons.IH [OF m] True Cons.prems(3) show ?thesis by (simp add: run add.assoc)
  next
    case False
    then have "cb_state ?cb = CircuitClosed" "cb_failures ?cb = 0"
      using Cons.prems by (simp_all add: breaker_defs)
    from succeed_closed [OF m this] False show ?thesis by (auto simp: run)
  qed
qed

text \<open>
  C23. Recovery. When the timeout of an open breaker has passed, the next call is let through; after as many
  successful calls as the success threshold says the breaker is closed with its failure count at zero, and
  before that it is half-open.
\<close>

theorem breaker_recovers:
  assumes "cm_breakers m name = Some cb" "cb_state cb = CircuitOpen" "0 < cc_SuccessThreshold (cb_config cb)"
    and "cb_lastFailure cb + cc_Timeout (cb_config cb) < now"
  shows "\<exists>cb'. cm_breakers (succeed_all name ((now, dn) # ts) m) name = Some cb' \<and>
    (if int (length ts) + 1 < cc_SuccessThreshold (cb_config cb)
     then cb_state cb' = CircuitHalfOpen else cb_state cb' = CircuitClosed \<and> cb_failures cb' = 0)"
proof -
  let ?h = "transitionTo now CircuitHalfOpen cb"
  let ?m = "m\<lparr>cm_breakers := (cm_breakers m)(name \<mapsto> ?h)\<rparr>"
  have "cb_Allow now cb = (True, ?h)" "cb_Allow now ?h = (True, ?h)"
    using assms(2,4) by (simp_all add: cb_Allow_def transitionTo_def Let_def)
  then have "snd (cm_Execute now dn name None m) = snd (cm_Execute now dn name None ?m)"
    using assms(1) by (simp add: Execute_breaker)
  then have "succeed_all name ((now, dn) # ts) m = succeed_all name ((now, dn) # ts) ?m"
    by (simp add: succeed_all_def)
  moreover have "cb_state ?h = CircuitHalfOpen" "cb_successes ?h = 0" "cb_config ?h = cb_config cb"
    by (simp_all add: transitionTo_def Let_def)
  ultimately show ?thesis
    using succeed_half_open [of ?m name ?h "(now, dn) # ts"] assms(3) by (simp add: add.commute)
qed

theorem breaker_recovers_witness:
  "\<exists>cb'. cm_breakers (succeed_all ''x'' [(31 * second, 32 * second), (33 * second, 34 * second), (35 * second, 36 * second)]
     \<lparr>cm_breakers = [''x'' \<mapsto> (NewCircuitBreaker 1 ''x'' None)\<lparr>cb_state := CircuitOpen\<rparr>],
      cm_defaultConfig = DefaultCircuitBreakerConfig\<rparr>) ''x'' = Some cb' \<and> cb_state cb' = CircuitClosed"
  using breaker_recovers [of "\<lparr>cm_breakers = [''x'' \<mapsto> (NewCircuitBreaker 1 ''x'' None)\<lparr>cb_state := CircuitOpen\<rparr>],
      cm_defaultConfig = DefaultCircuitBreakerConfig\<rparr>" "''x''" _ "31 * second" "32 * second"
      "[(33 * second, 34 * second), (35 * second, 36 * second)]"]
  by (simp add: NewCircuitBreaker_def DefaultCircuitBreakerConfig_def) blast

end
