(* ===== verification/Rate_Auth.thy ===== *)
theory Rate_Auth
  imports Hive_Prelude
begin

text \<open>
  The rate limiter and the API-key check of the hive server, \<^verbatim>\<open>hive-server-go/auth.go\<close>. The theory shows how
  many requests of one client pass in any time window, that the cleanup changes no decision, and which
  requests get past the middleware.
\<close>

section \<open>The rate limiter\<close>

record rateBucket =
  rb_count :: int
  rb_resetAt :: gotime

record RateLimiter =
  rl_clients :: "string \<rightharpoonup> rateBucket"
  rl_rate :: int
  rl_window :: duration

definition NewRateLimiter :: "int \<Rightarrow> duration \<Rightarrow> RateLimiter" where
  "NewRateLimiter rate window = \<lparr>rl_clients = Map.empty, rl_rate = rate, rl_window = window\<rparr>"

definition rl_Allow :: "gotime \<Rightarrow> string \<Rightarrow> RateLimiter \<Rightarrow> bool \<times> RateLimiter" where
  "rl_Allow now client rl =
     (let fresh = (True, rl\<lparr>rl_clients := (rl_clients rl)(client \<mapsto> \<lparr>rb_count = 1, rb_resetAt = now + rl_window rl\<rparr>)\<rparr>)
      in case rl_clients rl client of
           None \<Rightarrow> fresh
         | Some bucket \<Rightarrow>
             if now > rb_resetAt bucket then fresh
             else if rb_count bucket \<ge> rl_rate rl then (False, rl)
             else (True, rl\<lparr>rl_clients := (rl_clients rl)(client \<mapsto> bucket\<lparr>rb_count := rb_count bucket + 1\<rparr>)\<rparr>))"

text \<open>One tick of the cleanup loop; \<open>ks\<close> is the order in which the clients are visited.\<close>

definition rl_cleanup :: "gotime \<Rightarrow> string list \<Rightarrow> RateLimiter \<Rightarrow> RateLimiter" where
  "rl_cleanup now ks rl = rl\<lparr>rl_clients := sweep (\<lambda>b. now > rb_resetAt b) ks (rl_clients rl)\<rparr>"

interpretation buckets: map_sweeper rl_clients rl_cleanup "\<lambda>rl now b. now > rb_resetAt b"
  by unfold_locales (auto simp: rl_cleanup_def)

section \<open>The middleware\<close>

record auth_request =
  ar_Path :: string
  ar_Method :: string
  ar_RemoteAddr :: string
  ar_XForwardedFor :: string
  ar_Authorization :: string
  ar_api_key :: string

datatype auth_result = ServeNext | RateLimitExceeded | Unauthorized

definition clientIP :: "auth_request \<Rightarrow> string" where
  "clientIP r = (if ar_XForwardedFor r \<noteq> [] then hd (str_split (ar_XForwardedFor r) '','') else ar_RemoteAddr r)"

definition presented_key :: "auth_request \<Rightarrow> string" where
  "presented_key r = (let key = trim_prefix (ar_Authorization r) ''Bearer '' in if key = [] then ar_api_key r else key)"

definition AuthMiddleware :: "string \<Rightarrow> gotime \<Rightarrow> auth_request \<Rightarrow> RateLimiter \<Rightarrow> auth_result \<times> RateLimiter" where
  "AuthMiddleware apiKey now r rl =
     (if ar_Path r = ''/'' \<or> ar_Path r = ''/v1/health'' \<or> ar_Method r = ''OPTIONS'' then (ServeNext, rl)
      else case rl_Allow now (clientIP r) rl of (ok, rl') \<Rightarrow>
        if \<not> ok then (RateLimitExceeded, rl')
        else if apiKey \<noteq> [] then
          (if has_prefix (ar_Path r) ''/api/peers'' \<or> has_prefix (ar_Path r) ''/api/logs'' \<or>
              ar_Path r = ''/api/status'' \<or> ar_Path r = ''/v1/health''
           then (ServeNext, rl')
           else if presented_key r \<noteq> apiKey then (Unauthorized, rl')
           else (ServeNext, rl'))
        else (ServeNext, rl'))"

section \<open>How many requests pass\<close>

datatype rate_event = RateRequest gotime string | RateCleanup gotime "string list"

fun rate_time :: "rate_event \<Rightarrow> gotime" where
  "rate_time (RateRequest t c) = t"
| "rate_time (RateCleanup t ks) = t"

fun rate_step :: "rate_event \<Rightarrow> RateLimiter \<Rightarrow> RateLimiter" where
  "rate_step (RateRequest t c) rl = snd (rl_Allow t c rl)"
| "rate_step (RateCleanup t ks) rl = rl_cleanup t ks rl"

text \<open>How many requests of client \<open>c\<close> are let through in a run.\<close>

fun admitted :: "string \<Rightarrow> rate_event list \<Rightarrow> RateLimiter \<Rightarrow> nat" where
  "admitted c [] rl = 0"
| "admitted c (e # es) rl =
     (case e of RateRequest t c' \<Rightarrow> if c' = c \<and> fst (rl_Allow t c rl) then 1 else 0 | _ \<Rightarrow> 0)
     + admitted c es (rate_step e rl)"

definition bucket_cap :: "RateLimiter \<Rightarrow> int" where
  "bucket_cap rl = max 1 (rl_rate rl)"

definition buckets_ok :: "RateLimiter \<Rightarrow> bool" where
  "buckets_ok rl \<longleftrightarrow> (\<forall>c b. rl_clients rl c = Some b \<longrightarrow> 1 \<le> rb_count b \<and> rb_count b \<le> bucket_cap rl)"

lemma rate_step_config [simp]:
  "rl_rate (rate_step e rl) = rl_rate rl" "rl_window (rate_step e rl) = rl_window rl"
  "bucket_cap (rate_step e rl) = bucket_cap rl"
  by (cases e; simp add: rl_Allow_def rl_cleanup_def bucket_cap_def Let_def split: option.splits)+

lemma Allow_config [simp]:
  "bucket_cap (snd (rl_Allow t c rl)) = bucket_cap rl" "bucket_cap (rl_cleanup t ks rl) = bucket_cap rl"
  by (simp_all add: rl_Allow_def rl_cleanup_def bucket_cap_def Let_def split: option.splits)

lemma buckets_ok_step: "buckets_ok rl \<Longrightarrow> buckets_ok (rate_step e rl)"
proof (cases e)
  case (RateRequest t c)
  assume ok: "buckets_ok rl"
  have "1 \<le> rb_count b \<and> rb_count b \<le> bucket_cap rl"
    if b: "rl_clients (snd (rl_Allow t c rl)) c' = Some b" for c' b
  proof (cases "c' = c")
    case False
    with b ok show ?thesis by (auto simp: rl_Allow_def buckets_ok_def Let_def split: option.splits if_splits)
  next
    case True
    with b ok show ?thesis
      by (auto simp: rl_Allow_def buckets_ok_def bucket_cap_def Let_def split: option.splits if_splits) force+
  qed
  moreover have "bucket_cap (snd (rl_Allow t c rl)) = bucket_cap rl"
    using rate_step_config(3) [of e rl] RateRequest by simp
  ultimately show ?thesis using RateRequest by (simp add: buckets_ok_def)
next
  case (RateCleanup t ks)
  assume "buckets_ok rl"
  with RateCleanup show ?thesis
    by (auto simp: buckets_ok_def rl_cleanup_def bucket_cap_def sweep_apply split: option.splits if_splits)
qed

lemma buckets_ok_run: "buckets_ok rl \<Longrightarrow> buckets_ok (foldl (\<lambda>rl e. rate_step e rl) rl es)"
  by (induction es arbitrary: rl) (auto simp: buckets_ok_step)

text \<open>A bucket that outlives the run: what it has left is all that can pass.\<close>

lemma admitted_within:
  assumes "rl_clients rl c = Some b" "rb_count b \<le> bucket_cap rl" "\<forall>e \<in> set es. rate_time e \<le> rb_resetAt b"
  shows "int (admitted c es rl) \<le> bucket_cap rl - rb_count b"
  using assms
proof (induction es arbitrary: rl b)
  case (Cons e es)
  show ?case
  proof (cases e)
    case (RateRequest t c')
    show ?thesis
    proof (cases "c' = c \<and> rb_count b < rl_rate rl")
      case True
      let ?b = "b\<lparr>rb_count := rb_count b + 1\<rparr>"
      have "rl_Allow t c rl = (True, rl\<lparr>rl_clients := (rl_clients rl)(c \<mapsto> ?b)\<rparr>)"
        using True Cons.prems RateRequest by (simp add: rl_Allow_def)
      moreover have "int (admitted c es (rate_step e rl)) \<le> bucket_cap (rate_step e rl) - rb_count ?b"
        using True Cons.prems RateRequest calculation
        by (intro Cons.IH) (auto simp: bucket_cap_def)
      ultimately show ?thesis using True RateRequest by (simp add: bucket_cap_def)
    next
      case False
      have same: "rl_clients (rate_step e rl) c = Some b"
        using False Cons.prems RateRequest by (auto simp: rl_Allow_def Let_def split: option.splits)
      have "int (admitted c es (rate_step e rl)) \<le> bucket_cap (rate_step e rl) - rb_count b"
        using same Cons.prems by (intro Cons.IH) auto
      moreover have "c' = c \<Longrightarrow> \<not> fst (rl_Allow t c rl)"
        using False Cons.prems RateRequest by (simp add: rl_Allow_def)
      ultimately show ?thesis using RateRequest by auto
    qed
  next
    case (RateCleanup t ks)
    have "rl_clients (rate_step e rl) c = Some b"
      using Cons.prems RateCleanup by (simp add: rl_cleanup_def sweep_apply)
    then have "int (admitted c es (rate_step e rl)) \<le> bucket_cap (rate_step e rl) - rb_count b"
      using Cons.prems by (intro Cons.IH) auto
    then show ?thesis using RateCleanup by simp
  qed
qed simp

text \<open>What a client can still get within a window: a new bucket, after the one it has.\<close>

definition window_bound :: "string \<Rightarrow> RateLimiter \<Rightarrow> int" where
  "window_bound c rl = (case rl_clients rl c of None \<Rightarrow> bucket_cap rl | Some b \<Rightarrow> 2 * bucket_cap rl - rb_count b)"

lemma window_bound_ge: "buckets_ok rl \<Longrightarrow> bucket_cap rl \<le> window_bound c rl"
  by (auto simp: window_bound_def buckets_ok_def split: option.splits)

lemma admitted_new_bucket:
  assumes "\<not> (\<exists>b. rl_clients rl c = Some b \<and> s \<le> rb_resetAt b)" "\<forall>e \<in> set es. rate_time e \<le> s + rl_window rl"
  shows "int (admitted c (RateRequest s c # es) rl) \<le> bucket_cap rl"
proof -
  let ?b = "\<lparr>rb_count = 1, rb_resetAt = s + rl_window rl\<rparr>" and ?rl = "rate_step (RateRequest s c) rl"
  have new: "rl_Allow s c rl = (True, rl\<lparr>rl_clients := (rl_clients rl)(c \<mapsto> ?b)\<rparr>)"
    using assms(1) by (auto simp: rl_Allow_def Let_def split: option.splits)
  then have "int (admitted c es ?rl) \<le> bucket_cap ?rl - 1"
    using admitted_within [of ?rl c ?b es] assms(2) by (simp add: bucket_cap_def)
  with new show ?thesis by (simp add: bucket_cap_def)
qed

lemma admitted_window:
  assumes "\<forall>e \<in> set es. t \<le> rate_time e \<and> rate_time e \<le> t + rl_window rl" "buckets_ok rl"
  shows "int (admitted c es rl) \<le> window_bound c rl"
  using assms
proof (induction es arbitrary: rl)
  case Nil
  then show ?case using window_bound_ge [of rl c] by (simp add: bucket_cap_def)
next
  case (Cons e es)
  let ?rl = "rate_step e rl"
  have IH: "int (admitted c es ?rl) \<le> window_bound c ?rl"
    using Cons.prems by (intro Cons.IH) (auto simp: buckets_ok_step)
  show ?case
  proof (cases e)
    case (RateCleanup s ks)
    have "window_bound c ?rl \<le> window_bound c rl"
      using RateCleanup window_bound_ge [OF Cons.prems(2), of c]
      by (auto simp: window_bound_def rl_cleanup_def sweep_apply bucket_cap_def split: option.splits)
    with IH RateCleanup show ?thesis by simp
  next
    case (RateRequest s c')
    consider (other) "c' \<noteq> c" | (fresh) "c' = c" "\<not> (\<exists>b. rl_clients rl c = Some b \<and> s \<le> rb_resetAt b)"
      | (inside) b where "c' = c" "rl_clients rl c = Some b" "s \<le> rb_resetAt b" by blast
    then show ?thesis
    proof cases
      case other
      then have "rl_clients ?rl c = rl_clients rl c"
        using RateRequest by (auto simp: rl_Allow_def Let_def split: option.splits)
      with IH other RateRequest show ?thesis by (auto simp: window_bound_def split: option.splits)
    next
      case fresh
      have "\<forall>e \<in> set es. rate_time e \<le> s + rl_window rl" using Cons.prems(1) RateRequest by force
      from admitted_new_bucket [OF fresh(2) this] window_bound_ge [OF Cons.prems(2), of c] fresh(1) RateRequest
      show ?thesis by simp
    next
      case inside
      then show ?thesis using IH RateRequest by (auto simp: window_bound_def rl_Allow_def bucket_cap_def split: if_splits)
    qed
  qed
qed

text \<open>
  C8. The rate limit. After any run of requests and cleanups on a new limiter, in any stretch of time as long as the
  window at most \<open>2 r - 1\<close> requests of one client pass, where \<open>r\<close> is the configured rate (a rate below 1 counts
  as 1); the clock need not even be monotone.
\<close>

theorem rate_bound:
  assumes "\<forall>e \<in> set es2. t \<le> rate_time e \<and> rate_time e \<le> t + window"
  shows "int (admitted c es2 (foldl (\<lambda>rl e. rate_step e rl) (NewRateLimiter rate window) es1)) \<le> 2 * max 1 rate - 1"
proof -
  let ?rl = "foldl (\<lambda>rl e. rate_step e rl) (NewRateLimiter rate window) es1"
  have ok: "buckets_ok ?rl"
    by (rule buckets_ok_run) (simp add: buckets_ok_def NewRateLimiter_def)
  have "rl_rate ?rl = rate \<and> rl_window ?rl = window"
  proof (induction es1 rule: rev_induct)
    case Nil
    then show ?case by (simp add: NewRateLimiter_def)
  qed simp
  then have cfg: "rl_window ?rl = window" "bucket_cap ?rl = max 1 rate" by (simp_all add: bucket_cap_def)
  have "int (admitted c es2 ?rl) \<le> window_bound c ?rl"
    using assms by (intro admitted_window [OF _ ok]) (simp add: cfg)
  also have "\<dots> \<le> 2 * max 1 rate - 1"
  proof -
    have "1 \<le> rb_count b" if "rl_clients ?rl c = Some b" for b using that ok by (auto simp: buckets_ok_def)
    then show ?thesis by (fastforce simp: window_bound_def cfg split: option.splits)
  qed
  finally show ?thesis .
qed

theorem rate_bound_witness:
  "\<exists>n. admitted ''c'' [RateRequest 11 ''c'', RateRequest 16 ''c'', RateRequest 17 ''c'', RateRequest 18 ''c'', RateRequest 19 ''c'']
     (foldl (\<lambda>rl e. rate_step e rl) (NewRateLimiter 2 10) [RateRequest 5 ''c'']) = n \<and> int n \<le> 3 \<and> n = 3"
proof -
  let ?es = "[RateRequest 11 ''c'', RateRequest 16 ''c'', RateRequest 17 ''c'', RateRequest 18 ''c'', RateRequest 19 ''c'']"
  let ?rl = "foldl (\<lambda>rl e. rate_step e rl) (NewRateLimiter 2 10) [RateRequest 5 ''c'']"
  have "admitted ''c'' ?es ?rl = 3" by (simp add: rl_Allow_def NewRateLimiter_def Let_def)
  with rate_bound [of ?es 11 10 "''c''" 2 "[RateRequest 5 ''c'']"] show ?thesis by simp
qed

section \<open>Cleanup and authentication\<close>

text \<open>
  Cleaning up changes no decision: for a clock that does not run backwards, whether a request of any client is
  let through is the same with and without a cleanup before it, in whatever order the cleanup went.
\<close>

theorem cleanup_neutral:
  assumes "ranges ks (rl_clients rl)" "t \<le> t'"
  shows "fst (rl_Allow t' c (rl_cleanup t ks rl)) = fst (rl_Allow t' c rl)"
proof -
  have "rl_clients (rl_cleanup t ks rl) c =
      (case rl_clients rl c of None \<Rightarrow> None | Some b \<Rightarrow> if t > rb_resetAt b then None else Some b)"
    using assms(1) by (simp add: rl_cleanup_def sweep_ranges split: option.splits)
  with assms(2) show ?thesis
    by (auto simp: rl_Allow_def rl_cleanup_def Let_def split: option.splits if_splits)
qed

theorem cleanup_neutral_witness:
  "fst (rl_Allow 20 ''c'' (rl_cleanup 19 [''c''] (snd (rl_Allow 5 ''c'' (NewRateLimiter 1 10))))) = True"
proof -
  have "ranges [''c''] (rl_clients (snd (rl_Allow 5 ''c'' (NewRateLimiter 1 10))))"
    by (simp add: ranges_def rl_Allow_def NewRateLimiter_def Let_def)
  from cleanup_neutral [OF this, of 19 20 "''c''"] show ?thesis
    by (simp add: rl_Allow_def NewRateLimiter_def Let_def)
qed

text \<open>The paths the middleware leaves open even when an API key is set.\<close>

definition public_path :: "string \<Rightarrow> bool" where
  "public_path p \<longleftrightarrow> p = ''/'' \<or> p = ''/v1/health'' \<or> p = ''/api/status'' \<or>
     has_prefix p ''/api/peers'' \<or> has_prefix p ''/api/logs''"

text \<open>
  C13. With an API key configured, whatever requests came before, a request for any other path and with a method other
  than \<^verbatim>\<open>OPTIONS\<close> is passed on only if it presents that key, in the header (with or without the
  \<^verbatim>\<open>Bearer\<close> prefix) or, when the header gives none, as the query parameter; and a request that presents it is
  turned away only by the rate limit.
\<close>

theorem auth_gate:
  assumes "apiKey \<noteq> []" "\<not> public_path (ar_Path r)" "ar_Method r \<noteq> ''OPTIONS''"
  shows "fst (AuthMiddleware apiKey now r rl) = ServeNext \<longleftrightarrow>
    fst (rl_Allow now (clientIP r) rl) \<and>
    (ar_Authorization r \<in> {apiKey, ''Bearer '' @ apiKey} \<and> trim_prefix (ar_Authorization r) ''Bearer '' = apiKey \<or>
     ar_Authorization r \<in> {[], ''Bearer ''} \<and> ar_api_key r = apiKey)"
proof -
  have tp: "trim_prefix a ''Bearer '' = k \<longleftrightarrow> (a = k \<and> \<not> has_prefix a ''Bearer '' \<or> a = ''Bearer '' @ k)" for a k
    by (auto simp: trim_prefix_def has_prefix_iff)
  have key: "presented_key r = apiKey \<longleftrightarrow>
      (ar_Authorization r \<in> {apiKey, ''Bearer '' @ apiKey} \<and> trim_prefix (ar_Authorization r) ''Bearer '' = apiKey \<or>
       ar_Authorization r \<in> {[], ''Bearer ''} \<and> ar_api_key r = apiKey)"
    using assms(1) unfolding presented_key_def Let_def tp [of "ar_Authorization r" "[]"] tp [of "ar_Authorization r" apiKey]
    by (auto simp: has_prefix_def tp)
  show ?thesis unfolding key [symmetric]
    using assms by (auto simp: AuthMiddleware_def public_path_def split: prod.splits)
qed

theorem auth_gate_witness:
  "\<not> public_path ''/api/jobs'' \<and>
   fst (AuthMiddleware ''k'' 5 \<lparr>ar_Path = ''/api/jobs'', ar_Method = ''GET'', ar_RemoteAddr = ''1'', ar_XForwardedFor = [],
     ar_Authorization = ''Bearer k'', ar_api_key = []\<rparr> (NewRateLimiter 2 10)) = ServeNext"
proof -
  let ?r = "\<lparr>ar_Path = ''/api/jobs'', ar_Method = ''GET'', ar_RemoteAddr = ''1'', ar_XForwardedFor = [],
     ar_Authorization = ''Bearer k'', ar_api_key = []\<rparr>"
  have p: "\<not> public_path (ar_Path ?r)" by (simp add: public_path_def has_prefix_def)
  have "trim_prefix ''Bearer k'' ''Bearer '' = ''k''" by (simp add: trim_prefix_def has_prefix_def)
  with auth_gate [of "''k''" ?r 5 "NewRateLimiter 2 10"] p show ?thesis
    by (simp add: rl_Allow_def NewRateLimiter_def Let_def)
qed

end
