(* ===== verification/Response_Cache.thy ===== *)
theory Response_Cache
  imports Hive_Prelude
begin

text \<open>
  The response cache of the hive server, \<^verbatim>\<open>hive-server-go/cache.go\<close>. It wraps a third-party cache, ristretto, whose
  operations are the argument \<open>ops\<close>; \<open>ristretto_ok\<close> states what its documentation promises: a lookup misses or
  gives the value last set under the key and not deleted since. SHA-256 is the argument \<open>hash\<close>. Entries are
  shared by pointer between ristretto and the table \<^verbatim>\<open>items\<close>, so they live in a heap. The theory shows that an
  answer found in the cache was stored for a request with the same key, that nothing older than the time to live
  is found after a cleanup, and what the hit and miss counters count.
\<close>

section \<open>Data\<close>

type_synonym entry_addr = nat

record CacheEntry =
  ce_Response :: string
  ce_Model :: string
  ce_Tokens :: int
  ce_CreatedAt :: gotime
  ce_LastAccessed :: gotime
  ce_AccessCount :: int

record CacheConfig =
  cf_MaxEntries :: int
  cf_EnableSemantic :: bool
  cf_TTLDuration :: duration

record CacheStats =
  cst_Hits :: int
  cst_Misses :: int
  cst_SemanticHits :: int
  cst_Size :: int
  cst_Cost :: int

record 'c ristretto_ops =
  r_Get :: "'c \<Rightarrow> string \<Rightarrow> entry_addr option"
  r_Set :: "'c \<Rightarrow> string \<Rightarrow> entry_addr \<Rightarrow> 'c"
  r_Del :: "'c \<Rightarrow> string \<Rightarrow> 'c"
  r_Clear :: "'c \<Rightarrow> 'c"

record 'c ResponseCache =
  rc_cache :: 'c
  rc_config :: CacheConfig
  rc_stats :: CacheStats
  rc_items :: "string \<rightharpoonup> entry_addr"
  rc_heap :: "entry_addr \<Rightarrow> CacheEntry"
  rc_next :: entry_addr

section \<open>Operations\<close>

text \<open>\<open>c0\<close>: what \<^verbatim>\<open>ristretto.NewCache\<close> returned, or its error; \<open>h\<close>, \<open>n\<close>: the heap and a free address.\<close>

definition NewResponseCache ::
  "CacheConfig \<Rightarrow> string + 'c \<Rightarrow> (entry_addr \<Rightarrow> CacheEntry) \<Rightarrow> entry_addr \<Rightarrow> string + 'c ResponseCache" where
  "NewResponseCache config c0 h n = (case c0 of
     Inl err \<Rightarrow> Inl (''failed to create cache: '' @ err)
   | Inr c \<Rightarrow> Inr \<lparr>rc_cache = c, rc_config = config,
       rc_stats = \<lparr>cst_Hits = 0, cst_Misses = 0, cst_SemanticHits = 0, cst_Size = 0, cst_Cost = 0\<rparr>,
       rc_items = Map.empty, rc_heap = h, rc_next = n\<rparr>)"

definition key_text :: "string \<Rightarrow> string \<Rightarrow> string \<Rightarrow> string" where
  "key_text model systemPrompt userMessage = model @ ''|'' @ systemPrompt @ ''|'' @ userMessage"

definition GenerateCacheKey :: "(string \<Rightarrow> string) \<Rightarrow> string \<Rightarrow> string \<Rightarrow> string \<Rightarrow> string" where
  "GenerateCacheKey hash model systemPrompt userMessage = hash (key_text model systemPrompt userMessage)"

definition cache_Get ::
  "'c ristretto_ops \<Rightarrow> (string \<Rightarrow> string) \<Rightarrow> gotime \<Rightarrow> string \<Rightarrow> string \<Rightarrow> string \<Rightarrow> 'c ResponseCache
     \<Rightarrow> entry_addr option \<times> 'c ResponseCache" where
  "cache_Get ops hash now model sys usr rc =
     (let key = GenerateCacheKey hash model sys usr;
          rc1 = rc\<lparr>rc_stats := (rc_stats rc)\<lparr>cst_Misses := cst_Misses (rc_stats rc) + 1\<rparr>\<rparr>
      in case r_Get ops (rc_cache rc1) key of
           None \<Rightarrow> (None, rc1\<lparr>rc_stats := (rc_stats rc1)\<lparr>cst_Misses := cst_Misses (rc_stats rc1) - 1\<rparr>\<rparr>)
         | Some a \<Rightarrow> (Some a, rc1\<lparr>
             rc_heap := (rc_heap rc1)(a := (rc_heap rc1 a)\<lparr>ce_AccessCount := ce_AccessCount (rc_heap rc1 a) + 1,
               ce_LastAccessed := now\<rparr>),
             rc_stats := (rc_stats rc1)\<lparr>cst_Hits := cst_Hits (rc_stats rc1) + 1\<rparr>\<rparr>))"

definition cache_Set ::
  "'c ristretto_ops \<Rightarrow> (string \<Rightarrow> string) \<Rightarrow> gotime \<Rightarrow> string \<Rightarrow> string \<Rightarrow> string \<Rightarrow> string \<Rightarrow> int
     \<Rightarrow> 'c ResponseCache \<Rightarrow> 'c ResponseCache" where
  "cache_Set ops hash now model sys usr response tokens rc =
     (let key = GenerateCacheKey hash model sys usr;
          a = rc_next rc;
          entry = \<lparr>ce_Response = response, ce_Model = model, ce_Tokens = tokens, ce_CreatedAt = now,
            ce_LastAccessed = now, ce_AccessCount = 1\<rparr>
      in rc\<lparr>rc_heap := (rc_heap rc)(a := entry), rc_next := Suc a,
            rc_cache := r_Set ops (rc_cache rc) key a, rc_items := (rc_items rc)(key \<mapsto> a)\<rparr>)"

definition cache_Delete ::
  "'c ristretto_ops \<Rightarrow> (string \<Rightarrow> string) \<Rightarrow> string \<Rightarrow> string \<Rightarrow> string \<Rightarrow> 'c ResponseCache \<Rightarrow> 'c ResponseCache" where
  "cache_Delete ops hash model sys usr rc =
     (let key = GenerateCacheKey hash model sys usr
      in rc\<lparr>rc_cache := r_Del ops (rc_cache rc) key, rc_items := (rc_items rc)(key := None)\<rparr>)"

definition cache_Stats :: "'c ResponseCache \<Rightarrow> CacheStats \<times> 'c ResponseCache" where
  "cache_Stats rc =
     (let size = int (card (dom (rc_items rc)));
          st = (rc_stats rc)\<lparr>cst_Size := size, cst_Cost := size\<rparr>
      in (st, rc\<lparr>rc_stats := st\<rparr>))"

definition cache_Clear :: "'c ristretto_ops \<Rightarrow> 'c ResponseCache \<Rightarrow> 'c ResponseCache" where
  "cache_Clear ops rc = rc\<lparr>rc_cache := r_Clear ops (rc_cache rc), rc_items := Map.empty\<rparr>"

text \<open>One tick of the cleanup; \<open>ks\<close> is the order in which the items are visited.\<close>

definition expired :: "'c ResponseCache \<Rightarrow> gotime \<Rightarrow> entry_addr \<Rightarrow> bool" where
  "expired rc now a \<longleftrightarrow> now - ce_CreatedAt (rc_heap rc a) > cf_TTLDuration (rc_config rc)"

definition cleanupExpired :: "'c ristretto_ops \<Rightarrow> gotime \<Rightarrow> string list \<Rightarrow> 'c ResponseCache \<Rightarrow> 'c ResponseCache" where
  "cleanupExpired ops now ks rc =
     rc\<lparr>rc_cache := foldl (\<lambda>c k. case rc_items rc k of Some a \<Rightarrow> if expired rc now a then r_Del ops c k else c | None \<Rightarrow> c)
          (rc_cache rc) ks,
        rc_items := sweep (expired rc now) ks (rc_items rc)\<rparr>"

interpretation cached: map_sweeper rc_items "cleanupExpired ops" expired for ops :: "'c ristretto_ops"
  by unfold_locales (auto simp: cleanupExpired_def expired_def fun_eq_iff)

section \<open>What ristretto promises\<close>

text \<open>\<open>holds c\<close>: what the cache may answer. Entries may vanish at any time; values never come from elsewhere.\<close>

definition ristretto_ok :: "'c ristretto_ops \<Rightarrow> ('c \<Rightarrow> string \<rightharpoonup> entry_addr) \<Rightarrow> bool" where
  "ristretto_ok ops holds \<longleftrightarrow>
     (\<forall>c k a. r_Get ops c k = Some a \<longrightarrow> holds c k = Some a) \<and>
     (\<forall>c k a. holds (r_Set ops c k a) \<subseteq>\<^sub>m (holds c)(k \<mapsto> a)) \<and>
     (\<forall>c k. holds (r_Del ops c k) \<subseteq>\<^sub>m (holds c)(k := None)) \<and>
     (\<forall>c. holds (r_Clear ops c) = Map.empty)"

lemma ristretto_okD:
  assumes "ristretto_ok ops holds"
  shows "r_Get ops c k = Some a \<Longrightarrow> holds c k = Some a"
    and "holds (r_Set ops c k a) k' = Some b \<Longrightarrow> (if k' = k then b = a else holds c k' = Some b)"
    and "holds (r_Del ops c k) k' = Some b \<Longrightarrow> k' \<noteq> k \<and> holds c k' = Some b"
    and "holds (r_Clear ops c) = Map.empty"
proof -
  show "r_Get ops c k = Some a \<Longrightarrow> holds c k = Some a" "holds (r_Clear ops c) = Map.empty"
    using assms by (auto simp: ristretto_ok_def)
  have S: "holds (r_Set ops c k a) \<subseteq>\<^sub>m (holds c)(k \<mapsto> a)" and D: "holds (r_Del ops c k) \<subseteq>\<^sub>m (holds c)(k := None)"
    using assms by (auto simp: ristretto_ok_def)
  show "if k' = k then b = a else holds c k' = Some b" if "holds (r_Set ops c k a) k' = Some b"
  proof -
    have "((holds c)(k \<mapsto> a)) k' = Some b" using S that by (metis domI map_le_def)
    then show ?thesis by (auto split: if_splits)
  qed
  show "k' \<noteq> k \<and> holds c k' = Some b" if "holds (r_Del ops c k) k' = Some b"
  proof -
    have "((holds c)(k := None)) k' = Some b" using D that by (metis domI map_le_def)
    then show ?thesis by (auto split: if_splits)
  qed
qed

lemma holds_dels:
  assumes "ristretto_ok ops holds"
    "holds (foldl (\<lambda>c k. if P k then r_Del ops c k else c) c ks) k = Some a"
  shows "holds c k = Some a \<and> \<not> (k \<in> set ks \<and> P k)"
  using assms(2)
proof (induction ks arbitrary: c)
  case (Cons k' ks)
  then show ?case using ristretto_okD(3) [OF assms(1), of c k' k a] by (auto split: if_splits)
qed simp

section \<open>Runs of the cache\<close>

datatype cache_event =
    CGet gotime string string string
  | CSet gotime string string string string int
  | CDelete string string string
  | CClear
  | CCleanup gotime "string list"
  | CStats

fun cache_step :: "'c ristretto_ops \<Rightarrow> (string \<Rightarrow> string) \<Rightarrow> 'c ResponseCache \<Rightarrow> cache_event \<Rightarrow> 'c ResponseCache" where
  "cache_step ops hash rc (CGet now m s u) = snd (cache_Get ops hash now m s u rc)"
| "cache_step ops hash rc (CSet now m s u r tk) = cache_Set ops hash now m s u r tk rc"
| "cache_step ops hash rc (CDelete m s u) = cache_Delete ops hash m s u rc"
| "cache_step ops hash rc CClear = cache_Clear ops rc"
| "cache_step ops hash rc (CCleanup now ks) = cleanupExpired ops now ks rc"
| "cache_step ops hash rc CStats = snd (cache_Stats rc)"

lemmas cache_op_defs = cache_Get_def cache_Set_def cache_Delete_def cache_Clear_def cleanupExpired_def
  cache_Stats_def Let_def

text \<open>
  Both counters count the lookups that found something: a miss is counted before the lookup and taken back
  when nothing was found.
\<close>

text \<open>
  In every run, on any ristretto and any hash, the miss counter and the hit counter are equal: misses are not
  counted, and every hit is counted as a miss too.
\<close>

theorem misses_equal_hits:
  assumes "NewResponseCache config (Inr c) h n = Inr rc"
  shows "cst_Misses (rc_stats (foldl (cache_step ops hash) rc es)) = cst_Hits (rc_stats (foldl (cache_step ops hash) rc es))"
proof -
  have step: "cst_Misses (rc_stats (cache_step ops hash rc e)) = cst_Hits (rc_stats (cache_step ops hash rc e))"
    if "cst_Misses (rc_stats rc) = cst_Hits (rc_stats rc)" for rc :: "'a ResponseCache" and e
    using that by (cases e) (simp_all add: cache_op_defs split: option.splits)
  have "cst_Misses (rc_stats rc) = cst_Hits (rc_stats rc)"
    using assms by (auto simp: NewResponseCache_def)
  then show ?thesis by (induction es arbitrary: rc) (simp_all add: step)
qed

section \<open>What is found\<close>

text \<open>
  The specification: a plain table of the answer last stored under each key and when, from which a deletion and
  a clearing remove.
\<close>

fun spec_step :: "(string \<Rightarrow> string) \<Rightarrow> (string \<rightharpoonup> string \<times> gotime) \<Rightarrow> cache_event \<Rightarrow> (string \<rightharpoonup> string \<times> gotime)" where
  "spec_step hash t (CSet now m s u r tk) = t(GenerateCacheKey hash m s u \<mapsto> (r, now))"
| "spec_step hash t (CDelete m s u) = t(GenerateCacheKey hash m s u := None)"
| "spec_step hash t CClear = Map.empty"
| "spec_step hash t _ = t"

definition cache_refines :: "('c \<Rightarrow> string \<rightharpoonup> entry_addr) \<Rightarrow> 'c ResponseCache \<Rightarrow> (string \<rightharpoonup> string \<times> gotime) \<Rightarrow> bool" where
  "cache_refines holds rc t \<longleftrightarrow> (\<forall>k a. holds (rc_cache rc) k = Some a \<longrightarrow>
     rc_items rc k = Some a \<and> a < rc_next rc \<and> t k = Some (ce_Response (rc_heap rc a), ce_CreatedAt (rc_heap rc a)))"

lemma cache_refinesD:
  "cache_refines holds rc t \<Longrightarrow> holds (rc_cache rc) k = Some a \<Longrightarrow> rc_items rc k = Some a \<and> a < rc_next rc \<and>
     t k = Some (ce_Response (rc_heap rc a), ce_CreatedAt (rc_heap rc a))"
  unfolding cache_refines_def by blast

lemma cache_refinesI:
  assumes "\<And>k a. holds (rc_cache rc) k = Some a \<Longrightarrow> rc_items rc k = Some a \<and> a < rc_next rc \<and>
     t k = Some (ce_Response (rc_heap rc a), ce_CreatedAt (rc_heap rc a))"
  shows "cache_refines holds rc t"
  using assms unfolding cache_refines_def by blast

lemma cache_refines_Get:
  assumes "cache_refines holds rc t"
  shows "cache_refines holds (snd (cache_Get ops hash now m s u rc)) t"
proof -
  let ?rc = "snd (cache_Get ops hash now m s u rc)"
  have "rc_cache ?rc = rc_cache rc" "rc_items ?rc = rc_items rc" "rc_next ?rc = rc_next rc"
    "ce_Response (rc_heap ?rc a) = ce_Response (rc_heap rc a)" "ce_CreatedAt (rc_heap ?rc a) = ce_CreatedAt (rc_heap rc a)" for a
    by (simp_all add: cache_op_defs split: option.splits)
  with assms show ?thesis by (simp add: cache_refines_def)
qed

lemma cache_refines_Set:
  assumes "ristretto_ok ops holds" "cache_refines holds rc t"
  shows "cache_refines holds (cache_Set ops hash now m s u r tk rc) (t(GenerateCacheKey hash m s u \<mapsto> (r, now)))"
proof (rule cache_refinesI)
  let ?k = "GenerateCacheKey hash m s u" and ?rc = "cache_Set ops hash now m s u r tk rc"
  fix k a
  assume "holds (rc_cache ?rc) k = Some a"
  then have "holds (r_Set ops (rc_cache rc) ?k (rc_next rc)) k = Some a" by (simp add: cache_op_defs)
  note S = ristretto_okD(2) [OF assms(1) this]
  have "rc_items rc k = Some a \<and> a < rc_next rc \<and> t k = Some (ce_Response (rc_heap rc a), ce_CreatedAt (rc_heap rc a))" if "k \<noteq> ?k"
    using S that by (intro cache_refinesD [OF assms(2)]) simp
  with S show "rc_items ?rc k = Some a \<and> a < rc_next ?rc \<and>
      (t(?k \<mapsto> (r, now))) k = Some (ce_Response (rc_heap ?rc a), ce_CreatedAt (rc_heap ?rc a))"
    by (cases "k = ?k") (simp_all add: cache_op_defs)
qed

lemma cache_refines_Delete:
  assumes "ristretto_ok ops holds" "cache_refines holds rc t"
  shows "cache_refines holds (cache_Delete ops hash m s u rc) (t(GenerateCacheKey hash m s u := None))"
proof (rule cache_refinesI)
  let ?k = "GenerateCacheKey hash m s u" and ?rc = "cache_Delete ops hash m s u rc"
  fix k a
  assume "holds (rc_cache ?rc) k = Some a"
  then have "holds (r_Del ops (rc_cache rc) ?k) k = Some a" by (simp add: cache_op_defs)
  with ristretto_okD(3) [OF assms(1) this] cache_refinesD [OF assms(2), of k a]
  show "rc_items ?rc k = Some a \<and> a < rc_next ?rc \<and>
      (t(?k := None)) k = Some (ce_Response (rc_heap ?rc a), ce_CreatedAt (rc_heap ?rc a))"
    by (simp add: cache_op_defs)
qed

lemma cache_refines_cleanup:
  assumes "ristretto_ok ops holds" "cache_refines holds rc t"
  shows "cache_refines holds (cleanupExpired ops now ks rc) t"
proof (rule cache_refinesI)
  let ?rc = "cleanupExpired ops now ks rc" and ?x = "\<lambda>k. case rc_items rc k of Some a \<Rightarrow> expired rc now a | None \<Rightarrow> False"
  have eq: "(\<lambda>c k. case rc_items rc k of Some a \<Rightarrow> if expired rc now a then r_Del ops c k else c | None \<Rightarrow> c)
      = (\<lambda>c k. if ?x k then r_Del ops c k else c)"
    by (auto simp: fun_eq_iff split: option.splits)
  fix k a
  assume "holds (rc_cache ?rc) k = Some a"
  then have "holds (foldl (\<lambda>c k. if ?x k then r_Del ops c k else c) (rc_cache rc) ks) k = Some a"
    by (simp add: cleanupExpired_def eq)
  with holds_dels [OF assms(1) this] cache_refinesD [OF assms(2), of k a]
  show "rc_items ?rc k = Some a \<and> a < rc_next ?rc \<and> t k = Some (ce_Response (rc_heap ?rc a), ce_CreatedAt (rc_heap ?rc a))"
    by (auto simp: cleanupExpired_def sweep_apply)
qed

lemma cache_refines_step:
  assumes "ristretto_ok ops holds" "cache_refines holds rc t"
  shows "cache_refines holds (cache_step ops hash rc e) (spec_step hash t e)"
proof (cases e)
  case CClear
  then show ?thesis using ristretto_okD(4) [OF assms(1)] by (simp add: cache_refines_def cache_op_defs)
next
  case CStats
  then show ?thesis using assms(2) by (simp add: cache_refines_def cache_op_defs)
qed (simp_all add: cache_refines_Get cache_refines_Set cache_refines_Delete cache_refines_cleanup assms)

lemma cache_refines_run:
  assumes "ristretto_ok ops holds"
  shows "cache_refines holds rc t \<Longrightarrow>
    cache_refines holds (foldl (cache_step ops hash) rc es) (foldl (spec_step hash) t es)"
  by (induction es arbitrary: rc t) (simp_all add: cache_refines_step [OF assms])

text \<open>
  C14. The cache refines a plain table. In any run of operations on a new cache over a ristretto that keeps its
  promise, whatever \<^verbatim>\<open>Get\<close> finds is the answer last stored under the request's key, with the time it was
  stored, and it has not been deleted since.
\<close>

theorem cache_Get_sound:
  assumes "ristretto_ok ops holds" "holds c = Map.empty" "NewResponseCache config (Inr c) h n = Inr rc0"
    and "rc = foldl (cache_step ops hash) rc0 es"
    and "fst (cache_Get ops hash now model sys usr rc) = Some a"
  shows "foldl (spec_step hash) Map.empty es (GenerateCacheKey hash model sys usr)
    = Some (ce_Response (rc_heap rc a), ce_CreatedAt (rc_heap rc a))"
proof -
  have "cache_refines holds rc0 Map.empty" using assms(2,3) by (auto simp: NewResponseCache_def cache_refines_def)
  from cache_refines_run [OF assms(1) this, of hash es]
  have R: "cache_refines holds rc (foldl (spec_step hash) Map.empty es)" by (simp add: assms(4))
  from assms(5) have "r_Get ops (rc_cache rc) (GenerateCacheKey hash model sys usr) = Some a"
    by (auto simp: cache_Get_def Let_def split: option.splits)
  from cache_refinesD [OF R ristretto_okD(1) [OF assms(1) this]] show ?thesis by simp
qed

text \<open>
  Nothing stale after a cleanup: what a lookup finds right after a cleanup at time \<open>t\<close> was stored at most the
  time to live before \<open>t\<close>.
\<close>

theorem cache_no_stale:
  assumes "ristretto_ok ops holds" "holds c = Map.empty" "NewResponseCache config (Inr c) h n = Inr rc0"
    and "rc = foldl (cache_step ops hash) rc0 es" "ranges ks (rc_items rc)"
    and "fst (cache_Get ops hash now model sys usr (cleanupExpired ops t ks rc)) = Some a"
  shows "t - ce_CreatedAt (rc_heap rc a) \<le> cf_TTLDuration (rc_config rc)"
proof -
  let ?k = "GenerateCacheKey hash model sys usr" and ?rc = "cleanupExpired ops t ks rc"
  have "cache_refines holds rc0 Map.empty" using assms(2,3) by (auto simp: NewResponseCache_def cache_refines_def)
  from cache_refines_run [OF assms(1) this, of hash "es @ [CCleanup t ks]"]
  have R: "cache_refines holds ?rc (foldl (spec_step hash) Map.empty (es @ [CCleanup t ks]))" by (simp add: assms(4))
  from assms(6) have "r_Get ops (rc_cache ?rc) ?k = Some a"
    by (auto simp: cache_Get_def Let_def split: option.splits)
  from cache_refinesD [OF R ristretto_okD(1) [OF assms(1) this]] have "rc_items ?rc ?k = Some a" by simp
  with cached.tick_exact [OF assms(5), of ops t] show ?thesis by (auto simp: expired_def)
qed

text \<open>
  The key joins its three parts with a bar, so different requests can share a key, whatever the hash.
\<close>

lemma cache_key_ambiguous:
  "GenerateCacheKey hash ''m'' ''a|b'' ''c'' = GenerateCacheKey hash ''m'' ''a'' ''b|c''"
  by (simp add: GenerateCacheKey_def key_text_def)

section \<open>Witnesses\<close>

text \<open>A ristretto with room for everything.\<close>

definition map_ops :: "(string \<rightharpoonup> entry_addr) ristretto_ops" where
  "map_ops = \<lparr>r_Get = (\<lambda>c k. c k), r_Set = (\<lambda>c k a. c(k \<mapsto> a)), r_Del = (\<lambda>c k. c(k := None)), r_Clear = (\<lambda>c. Map.empty)\<rparr>"

lemma map_ops_ok: "ristretto_ok map_ops (\<lambda>c. c)"
  by (simp add: ristretto_ok_def map_ops_def)

definition sample_cache :: "(string \<rightharpoonup> entry_addr) ResponseCache" where
  "sample_cache = \<lparr>rc_cache = Map.empty, rc_config = \<lparr>cf_MaxEntries = 9, cf_EnableSemantic = False, cf_TTLDuration = 10\<rparr>,
     rc_stats = \<lparr>cst_Hits = 0, cst_Misses = 0, cst_SemanticHits = 0, cst_Size = 0, cst_Cost = 0\<rparr>,
     rc_items = Map.empty, rc_heap = (\<lambda>a. \<lparr>ce_Response = [], ce_Model = [], ce_Tokens = 0, ce_CreatedAt = 0,
       ce_LastAccessed = 0, ce_AccessCount = 0\<rparr>), rc_next = 0\<rparr>"

lemma sample_cache_new:
  "NewResponseCache (rc_config sample_cache) (Inr Map.empty) (rc_heap sample_cache) 0 = Inr sample_cache"
  by (simp add: NewResponseCache_def sample_cache_def)

lemmas sample_cache_defs = cache_op_defs sample_cache_def map_ops_def GenerateCacheKey_def key_text_def

theorem cache_Get_sound_witness:
  "fst (cache_Get map_ops (\<lambda>s. s) 7 ''m'' [] ''u'' (foldl (cache_step map_ops (\<lambda>s. s)) sample_cache [CSet 5 ''m'' [] ''u'' ''hi'' 3])) = Some 0 \<and>
   foldl (spec_step (\<lambda>s. s)) Map.empty [CSet 5 ''m'' [] ''u'' ''hi'' 3] (GenerateCacheKey (\<lambda>s. s) ''m'' [] ''u'') = Some (''hi'', 5)"
proof -
  let ?rc = "foldl (cache_step map_ops (\<lambda>s. s)) sample_cache [CSet 5 ''m'' [] ''u'' ''hi'' 3]"
  have g: "fst (cache_Get map_ops (\<lambda>s. s) 7 ''m'' [] ''u'' ?rc) = Some 0" by (simp add: sample_cache_defs)
  have h: "ce_Response (rc_heap ?rc 0) = ''hi''" "ce_CreatedAt (rc_heap ?rc 0) = 5" by (simp_all add: sample_cache_defs)
  from cache_Get_sound [OF map_ops_ok refl sample_cache_new refl g] g h show ?thesis by (simp only: simp_thms)
qed

theorem cache_no_stale_witness:
  "fst (cache_Get map_ops (\<lambda>s. s) 7 ''m'' [] ''u'' (cleanupExpired map_ops 9 [''m||u'']
     (foldl (cache_step map_ops (\<lambda>s. s)) sample_cache [CSet 5 ''m'' [] ''u'' ''hi'' 3]))) = Some 0 \<and> 9 - (5::int) \<le> 10"
proof -
  let ?rc = "foldl (cache_step map_ops (\<lambda>s. s)) sample_cache [CSet 5 ''m'' [] ''u'' ''hi'' 3]"
  have g: "fst (cache_Get map_ops (\<lambda>s. s) 7 ''m'' [] ''u'' (cleanupExpired map_ops 9 [''m||u''] ?rc)) = Some 0"
    by (simp add: sample_cache_defs expired_def)
  have r: "ranges [''m||u''] (rc_items ?rc)" by (simp add: ranges_def sample_cache_defs)
  from cache_no_stale [OF map_ops_ok refl sample_cache_new refl r g] g show ?thesis by (simp add: sample_cache_defs)
qed

theorem misses_equal_hits_witness:
  "cst_Misses (rc_stats (foldl (cache_step map_ops (\<lambda>s. s)) sample_cache [CSet 5 ''m'' [] ''u'' ''hi'' 3, CGet 6 ''m'' [] ''u''])) = 1"
proof -
  have "cst_Hits (rc_stats (foldl (cache_step map_ops (\<lambda>s. s)) sample_cache [CSet 5 ''m'' [] ''u'' ''hi'' 3, CGet 6 ''m'' [] ''u''])) = 1"
    by (simp add: sample_cache_defs)
  with misses_equal_hits [OF sample_cache_new, of map_ops "\<lambda>s. s" "[CSet 5 ''m'' [] ''u'' ''hi'' 3, CGet 6 ''m'' [] ''u'']"]
  show ?thesis by (simp only:)
qed

end
