(* ===== verification/Job_Queue.thy ===== *)
theory Job_Queue
  imports Job_Model
begin

text \<open>
  The job queue and its workers, \<^verbatim>\<open>hive-server-go/queue.go\<close>: the calls to Ollama a job is turned into, the
  execution of a job, the tables of running and completed jobs, and the worker goroutines as a step relation. The
  theory shows that no job is lost or executed twice under any interleaving, that at most \<^verbatim>\<open>maxConcurrent\<close> jobs
  run, that completed jobs are final, and how each outcome of a call ends the job.
\<close>

section \<open>Calls to Ollama\<close>

text \<open>
  What is outside: the Ollama service, and the text functions of the standard library, whose results are arguments:
  \<^verbatim>\<open>json.Marshal\<close> (it cannot fail on values that were decoded from JSON), \<^verbatim>\<open>json.Unmarshal\<close> into a map (\<open>None\<close>: an
  error, \<open>Some None\<close>: the text is \<^verbatim>\<open>null\<close> and the map stays nil), the first group of a regular expression's match,
  and \<^verbatim>\<open>fmt\<close>'s text of a status code and an error body.
\<close>

datatype ollama_reply = RequestFails string | Reply int "string + json"

record ollama_env =
  oe_post :: "string \<Rightarrow> jobj \<Rightarrow> ollama_reply"
  oe_get :: "string \<Rightarrow> ollama_reply"
  oe_marshal :: "jobj \<Rightarrow> string"
  oe_unmarshal :: "string \<Rightarrow> jobj option option"
  oe_match :: "nat \<Rightarrow> string \<Rightarrow> string option"
  oe_fmt :: "int \<Rightarrow> string + json \<Rightarrow> string"

text \<open>A call returns a result or an error, or panics.\<close>

datatype call_result = CallOk json | CallErr string | CallPanic string

definition postOllama :: "ollama_env \<Rightarrow> string \<Rightarrow> jobj \<Rightarrow> call_result" where
  "postOllama env path body = (case oe_post env path body of
     RequestFails e \<Rightarrow> CallErr (''ollama request failed: '' @ e)
   | Reply code r \<Rightarrow>
       if code \<ge> 400 then CallErr (oe_fmt env code r)
       else (case r of Inl e \<Rightarrow> CallErr (''ollama decode failed: '' @ e) | Inr v \<Rightarrow> CallOk v))"

definition getOllama :: "ollama_env \<Rightarrow> string \<Rightarrow> call_result" where
  "getOllama env path = (case oe_get env path of
     RequestFails e \<Rightarrow> CallErr (''ollama request failed: '' @ e)
   | Reply code r \<Rightarrow>
       if code \<ge> 400 then CallErr (oe_fmt env code (Inl []))
       else (case r of Inl e \<Rightarrow> CallErr (''ollama decode failed: '' @ e) | Inr v \<Rightarrow> CallOk v))"

definition pick_model :: "string \<Rightarrow> jobj \<Rightarrow> string" where
  "pick_model dflt payload = (case get_str payload ''model'' of Some m \<Rightarrow> if m \<noteq> [] then m else dflt | None \<Rightarrow> dflt)"

definition pick_stream :: "jobj \<Rightarrow> bool" where
  "pick_stream payload = (case get_bool payload ''stream'' of Some s \<Rightarrow> s | None \<Rightarrow> False)"

definition json_or_null :: "json option \<Rightarrow> json" where
  "json_or_null v = (case v of Some j \<Rightarrow> j | None \<Rightarrow> JNull)"

definition callOllamaGenerate :: "ollama_env \<Rightarrow> string \<Rightarrow> jobj \<Rightarrow> call_result" where
  "callOllamaGenerate env model0 payload =
     (let prompt = str_or_empty (get_str payload ''prompt'');
          system = str_or_empty (get_str payload ''system'');
          temperature = (case get_num payload ''temperature'' of Some t \<Rightarrow> t | None \<Rightarrow> 1 / 10)
      in postOllama env ''/api/generate''
           ([(''model'', JStr (pick_model model0 payload)), (''prompt'', JStr prompt),
             (''stream'', JBool (pick_stream payload)), (''temperature'', JNum temperature)]
            @ (if system \<noteq> [] then [(''system'', JStr system)] else [])))"

definition callOllamaChat :: "ollama_env \<Rightarrow> string \<Rightarrow> jobj \<Rightarrow> call_result" where
  "callOllamaChat env model0 payload = postOllama env ''/api/chat''
     [(''model'', JStr (pick_model model0 payload)),
      (''messages'', case get_arr payload ''messages'' of Some ms \<Rightarrow> JArr ms | None \<Rightarrow> JNull),
      (''stream'', JBool (pick_stream payload))]"

definition callOllamaChatPayload :: "ollama_env \<Rightarrow> jobj \<Rightarrow> call_result" where
  "callOllamaChatPayload env payload = postOllama env ''/api/chat''
     [(''model'', json_or_null (map_of payload ''model'')), (''messages'', json_or_null (map_of payload ''messages'')),
      (''stream'', JBool False)]"

definition callOllamaEmbed :: "ollama_env \<Rightarrow> jobj \<Rightarrow> call_result" where
  "callOllamaEmbed env payload =
     (let p = str_or_empty (get_str payload ''prompt'');
          prompt = (if p = [] then str_or_empty (get_str payload ''text'') else p)
      in postOllama env ''/api/embeddings''
           [(''model'', JStr (pick_model ''nomic-embed-text'' payload)), (''prompt'', JStr prompt)])"

definition callOllamaListModels :: "ollama_env \<Rightarrow> call_result" where
  "callOllamaListModels env = getOllama env ''/api/tags''"

definition callOllamaPullModel :: "ollama_env \<Rightarrow> jobj \<Rightarrow> call_result" where
  "callOllamaPullModel env payload =
     (let name = str_or_empty (get_str payload ''name'')
      in if name = [] then CallErr ''model name required''
         else postOllama env ''/api/pull'' [(''name'', JStr name), (''stream'', JBool False)])"

definition callOllamaCustom :: "ollama_env \<Rightarrow> jobj \<Rightarrow> call_result" where
  "callOllamaCustom env payload =
     (let p = str_or_empty (get_str payload ''path'')
      in postOllama env (if p = [] then ''/api/generate'' else p) (filter (\<lambda>(k, v). k \<noteq> ''path'') payload))"

definition truncStr :: "string \<Rightarrow> nat \<Rightarrow> string" where
  "truncStr s maxLen = (if length s \<le> maxLen then s else take maxLen s)"

definition truncPayload :: "ollama_env \<Rightarrow> jobj \<Rightarrow> string" where
  "truncPayload env payload = oe_marshal env
     (map (\<lambda>(k, v). (k, case v of JStr s \<Rightarrow> if length s > 200 then JStr (truncStr s 200) else v | _ \<Rightarrow> v)) payload)"

text \<open>The JSON object in a model's answer: the whole text, or what one of the three patterns finds. \<open>None\<close>: the nil map.\<close>

fun try_patterns :: "ollama_env \<Rightarrow> string \<Rightarrow> nat list \<Rightarrow> jobj option option" where
  "try_patterns env response [] = None"
| "try_patterns env response (p # ps) =
     (case oe_match env p response of
        None \<Rightarrow> try_patterns env response ps
      | Some s \<Rightarrow> (case oe_unmarshal env s of Some parsed \<Rightarrow> Some parsed | None \<Rightarrow> try_patterns env response ps))"

definition extractJSONFromResponse :: "ollama_env \<Rightarrow> jobj \<Rightarrow> jobj option" where
  "extractJSONFromResponse env resp =
     (let response = str_or_empty (get_str resp ''response'')
      in if response = [] then Some resp
         else case oe_unmarshal env response of
             Some parsed \<Rightarrow> parsed
           | None \<Rightarrow>
               (case try_patterns env response [0, 1, 2] of
                  Some parsed \<Rightarrow> parsed
                | None \<Rightarrow> Some (put_key resp ''raw_response'' (JStr response))))"

text \<open>Writing to a nil map panics.\<close>

definition copy_key :: "jobj \<Rightarrow> string \<Rightarrow> (json \<Rightarrow> bool) \<Rightarrow> string + jobj option \<Rightarrow> string + jobj option" where
  "copy_key resp k ok ex = (case ex of
     Inl msg \<Rightarrow> Inl msg
   | Inr m \<Rightarrow> (case map_of resp k of
       None \<Rightarrow> ex
     | Some v \<Rightarrow>
         if \<not> ok v then ex
         else (case m of None \<Rightarrow> Inl ''assignment to entry in nil map'' | Some m' \<Rightarrow> Inr (Some (put_key m' k v)))))"

definition is_num :: "json \<Rightarrow> bool" where "is_num v = (case v of JNum _ \<Rightarrow> True | _ \<Rightarrow> False)"
definition is_str :: "json \<Rightarrow> bool" where "is_str v = (case v of JStr _ \<Rightarrow> True | _ \<Rightarrow> False)"

definition generic_prompt :: "ollama_env \<Rightarrow> jobj \<Rightarrow> string \<Rightarrow> string" where
  "generic_prompt env payload jobType =
     (let t = str_or_empty (get_str payload ''text'');
          text = (if t = [] then str_or_empty (get_str payload ''prompt'') else t);
          nl = [CHR 0x0A, CHR 0x0A]
      in if text = []
         then ''Job type: '' @ jobType @ nl @ ''Payload: '' @ truncPayload env payload @ nl
           @ ''Please process this request and return a structured JSON response.''
         else ''Job type: '' @ jobType @ nl @ ''Text:'' @ [CHR 0x0A] @ truncStr text 16000 @ nl
           @ ''Analyze the above text and return a structured JSON response according to the job type.'')"

definition callOllamaGeneric :: "ollama_env \<Rightarrow> string \<Rightarrow> jobj \<Rightarrow> string \<Rightarrow> call_result" where
  "callOllamaGeneric env model0 payload jobType =
     (case postOllama env ''/api/generate''
          [(''model'', JStr model0), (''prompt'', JStr (generic_prompt env payload jobType)),
           (''stream'', JBool False), (''temperature'', JNum (1 / 10))] of
        CallOk (JObj resp) \<Rightarrow>
          (case copy_key resp ''model'' is_str (copy_key resp ''eval_duration'' is_num
             (copy_key resp ''prompt_eval_count'' is_num (copy_key resp ''eval_count'' is_num
               (Inr (extractJSONFromResponse env resp))))) of
             Inl msg \<Rightarrow> CallPanic msg
           | Inr None \<Rightarrow> CallOk JNull
           | Inr (Some m) \<Rightarrow> CallOk (JObj m))
      | r \<Rightarrow> r)"

section \<open>Executing a job\<close>

definition call_for_job :: "ollama_env \<Rightarrow> string \<Rightarrow> Job \<Rightarrow> call_result" where
  "call_for_job env model0 job =
     (let ty = j_JobType job; p = j_PayloadMap job
      in if ty = ''generate'' then callOllamaGenerate env model0 p
         else if ty = ''chat'' then callOllamaChat env model0 p
         else if ty = ''coding_agent_chat'' then callOllamaChatPayload env p
         else if ty \<in> {''embed'', ''get_embedding''} then callOllamaEmbed env p
         else if ty = ''list_models'' then callOllamaListModels env
         else if ty = ''pull_model'' then callOllamaPullModel env p
         else callOllamaGeneric env model0 p ty)"

text \<open>
  The job as it is after its call, and the usage record to be inserted if there is one and a database is open; \<open>Inl\<close>
  is a panic, which ends the process. \<open>node\<close> and \<open>styp\<close> are the globals that name this server.
\<close>

definition executeJob ::
  "ollama_env \<Rightarrow> string \<Rightarrow> string \<times> string \<Rightarrow> bool \<Rightarrow> gotime \<Rightarrow> Job \<Rightarrow> string + Job \<times> TokenRecord option" where
  "executeJob env model0 server db now job =
     (case call_for_job env model0 job of
        CallPanic msg \<Rightarrow> Inl msg
      | CallErr e \<Rightarrow> Inr (job\<lparr>j_CompletedAt := Some (now_seconds now), j_Status := JobFailed, j_Error := e, j_Result := None\<rparr>, None)
      | CallOk v \<Rightarrow>
          let j1 = job\<lparr>j_CompletedAt := Some (now_seconds now), j_Status := JobCompleted, j_Result := Some v\<rparr>;
              j2 = parseTokenMetrics j1 v
          in Inr (j2, if db then recordFromResult (fst server) (snd server) now j2 v else None))"

section \<open>The queue\<close>

type_synonym job_addr = nat

record OllamaQueue =
  oq_jobCh :: "job_addr list"
  oq_stopCh :: bool
  oq_running :: "string \<rightharpoonup> job_addr"
  oq_completed :: "string \<rightharpoonup> job_addr"
  oq_maxConcurrent :: int
  oq_ollamaURL :: string
  oq_ollamaModel :: string
  oq_heap :: "job_addr \<Rightarrow> Job"

text \<open>\<open>oq_heap\<close> holds the jobs the pointers refer to; \<open>oq_stopCh\<close> says whether the stop channel is closed.\<close>

definition NewOllamaQueue :: "int \<Rightarrow> string \<Rightarrow> string \<Rightarrow> (job_addr \<Rightarrow> Job) \<Rightarrow> OllamaQueue" where
  "NewOllamaQueue maxConcurrent url model h = \<lparr>oq_jobCh = [], oq_stopCh = False, oq_running = Map.empty,
     oq_completed = Map.empty, oq_maxConcurrent = maxConcurrent, oq_ollamaURL = url, oq_ollamaModel = model, oq_heap = h\<rparr>"

definition oq_Submit :: "job_addr \<Rightarrow> OllamaQueue \<Rightarrow> bool \<times> OllamaQueue" where
  "oq_Submit a q = (if length (oq_jobCh q) < 1000 then (True, q\<lparr>oq_jobCh := oq_jobCh q @ [a]\<rparr>) else (False, q))"

text \<open>The first half of \<^verbatim>\<open>Stop\<close>: closing a closed channel panics (\<open>None\<close>). The second half waits for the workers (\<open>all_stopped\<close> below).\<close>

definition oq_Stop :: "OllamaQueue \<Rightarrow> OllamaQueue option" where
  "oq_Stop q = (if oq_stopCh q then None else Some (q\<lparr>oq_stopCh := True\<rparr>))"

text \<open>The parts of a worker's turn: receive and mark, publish as running, execute, move to the completed jobs.\<close>

definition worker_take :: "gotime \<Rightarrow> OllamaQueue \<Rightarrow> (job_addr \<times> OllamaQueue) option" where
  "worker_take now q = (case oq_jobCh q of
     [] \<Rightarrow> None
   | a # rest \<Rightarrow> Some (a, q\<lparr>oq_jobCh := rest, oq_heap := (oq_heap q)(a := (oq_heap q a)\<lparr>j_Status := JobRunning,
       j_StartedAt := Some (now_seconds now)\<rparr>)\<rparr>))"

definition worker_publish :: "job_addr \<Rightarrow> OllamaQueue \<Rightarrow> OllamaQueue" where
  "worker_publish a q = q\<lparr>oq_running := (oq_running q)(j_ID (oq_heap q a) \<mapsto> a)\<rparr>"

definition worker_execute ::
  "ollama_env \<Rightarrow> string \<times> string \<Rightarrow> bool \<Rightarrow> gotime \<Rightarrow> job_addr \<Rightarrow> OllamaQueue \<Rightarrow> (string + TokenRecord option) \<times> OllamaQueue" where
  "worker_execute env server db now a q =
     (case executeJob env (oq_ollamaModel q) server db now (oq_heap q a) of
        Inl msg \<Rightarrow> (Inl msg, q)
      | Inr (j, rec) \<Rightarrow> (Inr rec, q\<lparr>oq_heap := (oq_heap q)(a := j)\<rparr>))"

definition worker_retire :: "job_addr \<Rightarrow> OllamaQueue \<Rightarrow> OllamaQueue" where
  "worker_retire a q = q\<lparr>oq_running := (oq_running q)(j_ID (oq_heap q a) := None),
     oq_completed := (oq_completed q)(j_ID (oq_heap q a) \<mapsto> a)\<rparr>"

definition recent :: "gotime \<Rightarrow> Job \<Rightarrow> bool" where
  "recent now j \<longleftrightarrow> (case j_CompletedAt j of Some x \<Rightarrow> now_seconds now - x < 3600 | None \<Rightarrow> False)"

record QueueStatus =
  qst_pending :: int
  qst_running :: int
  qst_completed_recent :: int
  qst_max_concurrent :: int
  qst_ollama_url :: string
  qst_ollama_model :: string

definition GetQueueStatus :: "gotime \<Rightarrow> string list \<Rightarrow> OllamaQueue \<Rightarrow> QueueStatus" where
  "GetQueueStatus now ks q =
     \<lparr>qst_pending = int (length (oq_jobCh q)), qst_running = int (card (dom (oq_running q))),
      qst_completed_recent = int (length (filter (\<lambda>k. recent now (oq_heap q (the (oq_completed q k)))) ks)),
      qst_max_concurrent = oq_maxConcurrent q, qst_ollama_url = oq_ollamaURL q, qst_ollama_model = oq_ollamaModel q\<rparr>"

definition GetAvailableCapacity :: "OllamaQueue \<Rightarrow> int" where
  "GetAvailableCapacity q = maxInt 0 (oq_maxConcurrent q - int (card (dom (oq_running q))))"

definition GetJob :: "string \<Rightarrow> OllamaQueue \<Rightarrow> Job option" where
  "GetJob i q = (case oq_running q i of
     Some a \<Rightarrow> Some (oq_heap q a)
   | None \<Rightarrow> (case oq_completed q i of Some a \<Rightarrow> Some (oq_heap q a) | None \<Rightarrow> None))"

text \<open>\<open>rs\<close>, \<open>cs\<close>: the orders in which the two tables are visited.\<close>

definition GetAllJobs :: "gotime \<Rightarrow> string list \<Rightarrow> string list \<Rightarrow> OllamaQueue \<Rightarrow> jobj list" where
  "GetAllJobs now rs cs q =
     map (\<lambda>k. jobToMap (oq_heap q (the (oq_running q k)))) rs
     @ map jobToMap (filter (recent now) (map (\<lambda>k. oq_heap q (the (oq_completed q k))) cs))"

definition too_old :: "int \<Rightarrow> OllamaQueue \<Rightarrow> gotime \<Rightarrow> job_addr \<Rightarrow> bool" where
  "too_old maxAgeHours q now a \<longleftrightarrow> (case j_CompletedAt (oq_heap q a) of
     Some x \<Rightarrow> x < now_seconds now - of_int (maxAgeHours * 3600) | None \<Rightarrow> False)"

definition CleanupOldJobs :: "int \<Rightarrow> gotime \<Rightarrow> string list \<Rightarrow> OllamaQueue \<Rightarrow> OllamaQueue" where
  "CleanupOldJobs maxAgeHours now ks q = q\<lparr>oq_completed := sweep (too_old maxAgeHours q now) ks (oq_completed q)\<rparr>"

interpretation finished_jobs: map_sweeper oq_completed "CleanupOldJobs h" "too_old h" for h
proof
  fix t t' q a
  show "oq_completed (CleanupOldJobs h t ks q) = sweep (too_old h q t) ks (oq_completed q)" for ks
    by (simp add: CleanupOldJobs_def)
  show "too_old h (CleanupOldJobs h t ks q) = too_old h q" for ks
    by (simp add: CleanupOldJobs_def too_old_def fun_eq_iff)
  show "too_old h q t' a" if "too_old h q t a" "t \<le> t'"
    using that now_seconds_mono [of t t'] by (auto simp: too_old_def split: option.splits)
qed

section \<open>The workers\<close>

text \<open>
  A worker between the parts of its turn. \<open>js_next\<close> is an address no job has yet; \<open>js_accepted\<close> and \<open>js_done\<close> record, for the
  statements, the jobs \<^verbatim>\<open>Submit\<close> accepted and the jobs moved to the completed table. A panic ends the process: a state in
  which the next step of a worker panics has no step of that worker.
\<close>

datatype worker = Idle | Took job_addr | Executing job_addr | Executed job_addr | Stopped

record job_sys =
  js_q :: OllamaQueue
  js_workers :: "worker list"
  js_next :: job_addr
  js_accepted :: "job_addr list"
  js_done :: "job_addr list"

definition Start :: "OllamaQueue \<Rightarrow> job_sys" where
  "Start q = \<lparr>js_q = q, js_workers = replicate (nat (oq_maxConcurrent q)) Idle, js_next = 0, js_accepted = [], js_done = []\<rparr>"

inductive job_step :: "job_sys \<Rightarrow> job_sys \<Rightarrow> bool" where
  submit: "oq_Submit (js_next s) ((js_q s)\<lparr>oq_heap := (oq_heap (js_q s))(js_next s := NewJob now i c ty p)\<rparr>) = (ok, q') \<Longrightarrow>
     job_step s (s\<lparr>js_q := q', js_next := Suc (js_next s),
       js_accepted := js_accepted s @ (if ok then [js_next s] else [])\<rparr>)"
| take: "k < length (js_workers s) \<Longrightarrow> js_workers s ! k = Idle \<Longrightarrow> worker_take now (js_q s) = Some (a, q') \<Longrightarrow>
     job_step s (s\<lparr>js_q := q', js_workers := (js_workers s)[k := Took a]\<rparr>)"
| publish: "k < length (js_workers s) \<Longrightarrow> js_workers s ! k = Took a \<Longrightarrow>
     job_step s (s\<lparr>js_q := worker_publish a (js_q s), js_workers := (js_workers s)[k := Executing a]\<rparr>)"
| execute: "k < length (js_workers s) \<Longrightarrow> js_workers s ! k = Executing a \<Longrightarrow>
     worker_execute env server db now a (js_q s) = (Inr rec, q') \<Longrightarrow>
     job_step s (s\<lparr>js_q := q', js_workers := (js_workers s)[k := Executed a]\<rparr>)"
| retire: "k < length (js_workers s) \<Longrightarrow> js_workers s ! k = Executed a \<Longrightarrow>
     job_step s (s\<lparr>js_q := worker_retire a (js_q s), js_workers := (js_workers s)[k := Idle], js_done := js_done s @ [a]\<rparr>)"
| close_stop: "oq_Stop (js_q s) = Some q' \<Longrightarrow> job_step s (s\<lparr>js_q := q'\<rparr>)"
| stop: "k < length (js_workers s) \<Longrightarrow> js_workers s ! k = Idle \<Longrightarrow> oq_stopCh (js_q s) \<Longrightarrow>
     job_step s (s\<lparr>js_workers := (js_workers s)[k := Stopped]\<rparr>)"
| cleanup: "job_step s (s\<lparr>js_q := CleanupOldJobs h now ks (js_q s)\<rparr>)"

text \<open>What \<^verbatim>\<open>wg.Wait\<close> in \<^verbatim>\<open>Stop\<close> waits for.\<close>

definition all_stopped :: "job_sys \<Rightarrow> bool" where
  "all_stopped s \<longleftrightarrow> list_all (\<lambda>w. w = Stopped) (js_workers s)"

fun held_by :: "worker \<Rightarrow> job_addr list" where
  "held_by (Took a) = [a]"
| "held_by (Executing a) = [a]"
| "held_by (Executed a) = [a]"
| "held_by _ = []"

definition held :: "worker list \<Rightarrow> job_addr list" where
  "held ws = concat (map held_by ws)"

definition final_job :: "Job \<Rightarrow> bool" where
  "final_job j \<longleftrightarrow> j_Status j \<in> {JobCompleted, JobFailed} \<and> j_CompletedAt j \<noteq> None"

definition jobs_conserved :: "job_sys \<Rightarrow> bool" where
  "jobs_conserved s \<longleftrightarrow> distinct (js_accepted s) \<and> (\<forall>a \<in> set (js_accepted s). a < js_next s) \<and>
     mset (js_accepted s) = mset (oq_jobCh (js_q s)) + mset (held (js_workers s)) + mset (js_done s)"

lemma mset_held_update:
  "k < length ws \<Longrightarrow> mset (held (ws[k := w])) + mset (held_by (ws ! k)) = mset (held ws) + mset (held_by w)"
  unfolding held_def by (induction ws arbitrary: k) (auto split: nat.splits simp: nth_Cons' gr0_conv_Suc)

lemma jobs_conserved_step: "job_step s t \<Longrightarrow> jobs_conserved s \<Longrightarrow> jobs_conserved t"
proof (induction rule: job_step.induct)
  case (submit s now i c ty p ok q')
  then show ?case
    by (auto simp: jobs_conserved_def oq_Submit_def split: if_splits)
next
  case (take k s now a q')
  then show ?case using mset_held_update [OF take.hyps(1), of "Took a"]
    by (auto simp: jobs_conserved_def worker_take_def split: list.splits)
next
  case (publish k s a)
  then show ?case using mset_held_update [OF publish.hyps(1), of "Executing a"]
    by (simp add: jobs_conserved_def worker_publish_def)
next
  case (execute k s a env server db now rec q')
  then show ?case using mset_held_update [OF execute.hyps(1), of "Executed a"]
    by (auto simp: jobs_conserved_def worker_execute_def split: sum.splits prod.splits)
next
  case (retire k s a)
  then show ?case using mset_held_update [OF retire.hyps(1), of "Idle"]
    by (auto simp: jobs_conserved_def worker_retire_def)
next
  case (close_stop s q')
  then show ?case by (auto simp: jobs_conserved_def oq_Stop_def split: if_splits)
next
  case (stop k s)
  then show ?case using mset_held_update [OF stop.hyps(1), of "Stopped"] by (simp add: jobs_conserved_def)
next
  case (cleanup s h now ks)
  then show ?case by (simp add: jobs_conserved_def CleanupOldJobs_def)
qed


section \<open>The tables of running and completed jobs\<close>

lemma parseTokenMetrics_frame [simp]:
  "j_ID (parseTokenMetrics j v) = j_ID j" "j_Status (parseTokenMetrics j v) = j_Status j"
  "j_CompletedAt (parseTokenMetrics j v) = j_CompletedAt j" "j_Result (parseTokenMetrics j v) = j_Result j"
  "j_Error (parseTokenMetrics j v) = j_Error j" "j_StartedAt (parseTokenMetrics j v) = j_StartedAt j"
  by (cases v; simp add: parseTokenMetrics_def Let_def split: option.splits)+

lemma executeJob_final:
  "executeJob env m server db now j = Inr (j', rec) \<Longrightarrow> final_job j' \<and> j_ID j' = j_ID j"
  by (auto simp: executeJob_def final_job_def Let_def split: call_result.splits)

text \<open>
  \<open>tables_ok\<close>: a running entry is the job of a worker at work; what was retired, and what a worker is about to retire, is
  final; the completed table holds retired jobs only, each under its ID.
\<close>

definition tables_ok :: "job_sys \<Rightarrow> bool" where
  "tables_ok s \<longleftrightarrow>
     (\<forall>i a. oq_running (js_q s) i = Some a \<longrightarrow>
        (Executing a \<in> set (js_workers s) \<or> Executed a \<in> set (js_workers s)) \<and> j_ID (oq_heap (js_q s) a) = i) \<and>
     (\<forall>a. Executed a \<in> set (js_workers s) \<or> a \<in> set (js_done s) \<longrightarrow> final_job (oq_heap (js_q s) a)) \<and>
     (\<forall>i a. oq_completed (js_q s) i = Some a \<longrightarrow> a \<in> set (js_done s) \<and> j_ID (oq_heap (js_q s) a) = i)"

lemma tables_okD:
  assumes "tables_ok s"
  shows "oq_running (js_q s) i = Some a \<Longrightarrow>
      (Executing a \<in> set (js_workers s) \<or> Executed a \<in> set (js_workers s)) \<and> j_ID (oq_heap (js_q s) a) = i"
    and "Executed a \<in> set (js_workers s) \<Longrightarrow> final_job (oq_heap (js_q s) a)"
    and "a \<in> set (js_done s) \<Longrightarrow> final_job (oq_heap (js_q s) a)"
    and "oq_completed (js_q s) i = Some a \<Longrightarrow> a \<in> set (js_done s) \<and> j_ID (oq_heap (js_q s) a) = i"
  using assms by (auto simp: tables_ok_def)

lemma tables_okI:
  assumes "\<And>i a. oq_running (js_q s) i = Some a \<Longrightarrow>
      (Executing a \<in> set (js_workers s) \<or> Executed a \<in> set (js_workers s)) \<and> j_ID (oq_heap (js_q s) a) = i"
    and "\<And>a. Executed a \<in> set (js_workers s) \<or> a \<in> set (js_done s) \<Longrightarrow> final_job (oq_heap (js_q s) a)"
    and "\<And>i a. oq_completed (js_q s) i = Some a \<Longrightarrow> a \<in> set (js_done s) \<and> j_ID (oq_heap (js_q s) a) = i"
  shows "tables_ok s"
  using assms unfolding tables_ok_def by blast

text \<open>The addresses in use lie below the next one, and one worker holds a job.\<close>

lemma held_mem: "w \<in> set ws \<Longrightarrow> a \<in> set (held_by w) \<Longrightarrow> a \<in> set (held ws)"
  by (auto simp: held_def)

lemma conserved_distinct:
  assumes "jobs_conserved s"
  shows "distinct (oq_jobCh (js_q s) @ held (js_workers s) @ js_done s)"
    and "\<forall>a \<in> set (oq_jobCh (js_q s) @ held (js_workers s) @ js_done s). a < js_next s"
proof -
  from assms have m: "mset (js_accepted s) = mset (oq_jobCh (js_q s) @ held (js_workers s) @ js_done s)"
    and d: "distinct (js_accepted s)" "\<forall>a \<in> set (js_accepted s). a < js_next s"
    by (auto simp: jobs_conserved_def)
  show "distinct (oq_jobCh (js_q s) @ held (js_workers s) @ js_done s)"
    using d(1) m by (metis mset_eq_imp_distinct_iff)
  show "\<forall>a \<in> set (oq_jobCh (js_q s) @ held (js_workers s) @ js_done s). a < js_next s"
    using d(2) m by (metis mset_eq_setD)
qed

lemma held_unique:
  assumes "distinct (held ws)" "k < length ws" "a \<in> set (held_by (ws ! k))" "w \<in> set (ws[k := v])" "a \<in> set (held_by w)"
  shows "w = v"
proof -
  have "mset (held (ws[k := v])) + mset (held_by (ws ! k)) = mset (held ws) + mset (held_by v)"
    by (rule mset_held_update [OF assms(2)])
  from assms(4) obtain l where l: "l < length ws" "w = ws[k := v] ! l" by (metis in_set_conv_nth length_list_update)
  show ?thesis
  proof (cases "l = k")
    case True
    with l show ?thesis by simp
  next
    case False
    with l have w: "w = ws ! l" by simp
    have "distinct (concat (map held_by ws))" using assms(1) by (simp add: held_def)
    moreover have "concat (map held_by ws) = concat (map held_by (take (min k l) ws)) @ held_by (ws ! min k l) @
        concat (map held_by (take (max k l - Suc (min k l)) (drop (Suc (min k l)) ws))) @ held_by (ws ! max k l) @
        concat (map held_by (drop (Suc (max k l)) ws))"
    proof -
      have A: "ws = take (min k l) ws @ ws ! min k l # drop (Suc (min k l)) ws"
        using l(1) assms(2) by (intro id_take_nth_drop) auto
      have mk: "max k l - Suc (min k l) < length (drop (Suc (min k l)) ws)" using l(1) assms(2) False by auto
      have B: "drop (Suc (min k l)) ws = take (max k l - Suc (min k l)) (drop (Suc (min k l)) ws)
          @ ws ! max k l # drop (Suc (max k l)) ws"
        using id_take_nth_drop [OF mk] False l(1) assms(2) by (auto simp: min_def max_def)
      show ?thesis by (subst A, subst B) simp
    qed
    ultimately have "set (held_by (ws ! min k l)) \<inter> set (held_by (ws ! max k l)) = {}" by auto
    with assms(3,5) w show ?thesis by (auto simp: min_def max_def split: if_splits)
  qed
qed

lemma in_update_other: "w \<in> set ws \<Longrightarrow> w \<noteq> ws ! k \<Longrightarrow> w \<in> set (ws[k := v])"
  by (metis in_set_conv_nth length_list_update nth_list_update_neq)

lemma in_updateD: "w \<in> set (ws[k := v]) \<Longrightarrow> w = v \<or> w \<in> set ws"
  using set_update_subset_insert [of ws k v] by auto

text \<open>A step that writes only to jobs neither held nor done, and gives a worker a job it has not yet published.\<close>

lemma tables_ok_frame:
  assumes ok: "tables_ok s"
    and "oq_running (js_q t) = oq_running (js_q s)" "js_done t = js_done s"
    and com: "\<And>i a. oq_completed (js_q t) i = Some a \<Longrightarrow> oq_completed (js_q s) i = Some a"
    and heap: "\<And>a. a \<in> set (held (js_workers s)) \<union> set (js_done s) \<Longrightarrow> oq_heap (js_q t) a = oq_heap (js_q s) a"
    and up: "\<And>a. Executing a \<in> set (js_workers s) \<Longrightarrow> Executing a \<in> set (js_workers t)"
      "\<And>a. Executed a \<in> set (js_workers s) \<longleftrightarrow> Executed a \<in> set (js_workers t)"
  shows "tables_ok t"
proof -
  have h: "Executing a \<in> set (js_workers s) \<or> Executed a \<in> set (js_workers s) \<or> a \<in> set (js_done s) \<Longrightarrow>
      oq_heap (js_q t) a = oq_heap (js_q s) a" for a
    using heap held_mem [of "Executing a" "js_workers s" a] held_mem [of "Executed a" "js_workers s" a] by auto
  show ?thesis unfolding tables_ok_def
  proof (intro conjI allI impI)
    fix i a assume "oq_running (js_q t) i = Some a"
    with tables_okD(1) [OF ok, of i a] assms(2) h [of a] up
    show "Executing a \<in> set (js_workers t) \<or> Executed a \<in> set (js_workers t)" "j_ID (oq_heap (js_q t) a) = i" by auto
  next
    fix a assume "Executed a \<in> set (js_workers t) \<or> a \<in> set (js_done t)"
    with tables_okD(2,3) [OF ok, of a] assms(3) h [of a] up show "final_job (oq_heap (js_q t) a)" by auto
  next
    fix i a assume "oq_completed (js_q t) i = Some a"
    from tables_okD(4) [OF ok com [OF this]] assms(3) h [of a]
    show "a \<in> set (js_done t)" "j_ID (oq_heap (js_q t) a) = i" by auto
  qed
qed

lemma tables_ok_execute:
  assumes ok: "tables_ok s" "jobs_conserved s" and k: "k < length (js_workers s)" "js_workers s ! k = Executing a"
    and x: "worker_execute env server db now a (js_q s) = (Inr rec, q')"
  shows "tables_ok (s\<lparr>js_q := q', js_workers := (js_workers s)[k := Executed a]\<rparr>)"
proof -
  obtain j where e: "executeJob env (oq_ollamaModel (js_q s)) server db now (oq_heap (js_q s) a) = Inr (j, rec)"
    and q': "q' = (js_q s)\<lparr>oq_heap := (oq_heap (js_q s))(a := j)\<rparr>"
    using x by (auto simp: worker_execute_def split: sum.splits prod.splits)
  from executeJob_final [OF e] have j: "final_job j" "j_ID j = j_ID (oq_heap (js_q s) a)" by auto
  let ?ws = "(js_workers s)[k := Executed a]"
  have E: "Executing b \<in> set (js_workers s) \<Longrightarrow> b = a \<or> Executing b \<in> set ?ws"
    "Executed b \<in> set (js_workers s) \<Longrightarrow> Executed b \<in> set ?ws" for b
    using k in_update_other [of _ "js_workers s" k "Executed a"] by auto
  have a: "Executed a \<in> set ?ws" using k by (metis length_list_update nth_list_update_eq nth_mem)
  let ?t = "s\<lparr>js_q := q', js_workers := ?ws\<rparr>"
  have heap: "oq_heap (js_q ?t) b = (if b = a then j else oq_heap (js_q s) b)" for b by (simp add: q')
  have same: "oq_running (js_q ?t) = oq_running (js_q s)" "oq_completed (js_q ?t) = oq_completed (js_q s)"
    "js_done ?t = js_done s" "js_workers ?t = ?ws" by (simp_all add: q')
  show ?thesis
  proof (rule tables_okI)
    show "(Executing b \<in> set (js_workers ?t) \<or> Executed b \<in> set (js_workers ?t)) \<and> j_ID (oq_heap (js_q ?t) b) = i"
      if "oq_running (js_q ?t) i = Some b" for i b
      using tables_okD(1) [OF ok(1) that [unfolded same]] E [of b] a j(2) unfolding heap same by auto
    show "final_job (oq_heap (js_q ?t) b)" if "Executed b \<in> set (js_workers ?t) \<or> b \<in> set (js_done ?t)" for b
      using that j(1) tables_okD(2,3) [OF ok(1), of b] in_updateD [of "Executed b" "js_workers s" k "Executed a"]
      unfolding heap same by auto
    show "b \<in> set (js_done ?t) \<and> j_ID (oq_heap (js_q ?t) b) = i" if "oq_completed (js_q ?t) i = Some b" for i b
      using tables_okD(4) [OF ok(1) that [unfolded same]] j(2) unfolding heap same by auto
  qed
qed

lemma tables_ok_retire:
  assumes ok: "tables_ok s" and k: "k < length (js_workers s)" "js_workers s ! k = Executed a"
  shows "tables_ok (s\<lparr>js_q := worker_retire a (js_q s), js_workers := (js_workers s)[k := Idle], js_done := js_done s @ [a]\<rparr>)"
proof -
  let ?ws = "(js_workers s)[k := Idle]"
  let ?t = "s\<lparr>js_q := worker_retire a (js_q s), js_workers := ?ws, js_done := js_done s @ [a]\<rparr>"
  have a: "Executed a \<in> set (js_workers s)" using k by (metis nth_mem)
  have same: "oq_heap (js_q ?t) = oq_heap (js_q s)" "js_done ?t = js_done s @ [a]" "js_workers ?t = ?ws"
    "oq_running (js_q ?t) = (oq_running (js_q s))(j_ID (oq_heap (js_q s) a) := None)"
    "oq_completed (js_q ?t) = (oq_completed (js_q s))(j_ID (oq_heap (js_q s) a) \<mapsto> a)"
    by (simp_all add: worker_retire_def)
  show ?thesis
  proof (rule tables_okI)
    fix i b assume "oq_running (js_q ?t) i = Some b"
    then have r: "oq_running (js_q s) i = Some b" "i \<noteq> j_ID (oq_heap (js_q s) a)"
      unfolding same by (auto split: if_splits)
    note R = tables_okD(1) [OF ok r(1)]
    with r(2) have "b \<noteq> a" by auto
    with R k in_update_other [of _ "js_workers s" k Idle]
    show "(Executing b \<in> set (js_workers ?t) \<or> Executed b \<in> set (js_workers ?t)) \<and> j_ID (oq_heap (js_q ?t) b) = i"
      unfolding same by auto
  next
    show "final_job (oq_heap (js_q ?t) b)" if "Executed b \<in> set (js_workers ?t) \<or> b \<in> set (js_done ?t)" for b
      using that tables_okD(2,3) [OF ok, of b] a in_updateD [of "Executed b" "js_workers s" k Idle]
      unfolding same by auto
    show "b \<in> set (js_done ?t) \<and> j_ID (oq_heap (js_q ?t) b) = i" if "oq_completed (js_q ?t) i = Some b" for i b
      using that tables_okD(4) [OF ok, of i b] unfolding same by (auto split: if_splits)
  qed
qed

lemma tables_ok_publish:
  assumes ok: "tables_ok s" and k: "k < length (js_workers s)" "js_workers s ! k = Took a"
  shows "tables_ok (s\<lparr>js_q := worker_publish a (js_q s), js_workers := (js_workers s)[k := Executing a]\<rparr>)"
proof -
  let ?ws = "(js_workers s)[k := Executing a]"
  have a: "Executing a \<in> set ?ws" using k by (metis length_list_update nth_list_update_eq nth_mem)
  have E: "w \<in> set (js_workers s) \<Longrightarrow> w \<noteq> Took a \<Longrightarrow> w \<in> set ?ws" for w
    using k in_update_other [of w "js_workers s" k] by auto
  have D: "Executed b \<in> set ?ws \<Longrightarrow> Executed b \<in> set (js_workers s)" for b
    using in_updateD [of "Executed b" "js_workers s" k] by auto
  let ?t = "s\<lparr>js_q := worker_publish a (js_q s), js_workers := ?ws\<rparr>"
  have same: "oq_heap (js_q ?t) = oq_heap (js_q s)" "js_done ?t = js_done s" "js_workers ?t = ?ws"
    "oq_running (js_q ?t) = (oq_running (js_q s))(j_ID (oq_heap (js_q s) a) \<mapsto> a)"
    "oq_completed (js_q ?t) = oq_completed (js_q s)"
    by (simp_all add: worker_publish_def)
  show ?thesis
  proof (rule tables_okI)
    show "(Executing b \<in> set (js_workers ?t) \<or> Executed b \<in> set (js_workers ?t)) \<and> j_ID (oq_heap (js_q ?t) b) = i"
      if "oq_running (js_q ?t) i = Some b" for i b
      using that tables_okD(1) [OF ok, of i b] E a unfolding same by (auto split: if_splits)
    show "final_job (oq_heap (js_q ?t) b)" if "Executed b \<in> set (js_workers ?t) \<or> b \<in> set (js_done ?t)" for b
      using that D tables_okD(2,3) [OF ok] unfolding same by blast
    show "b \<in> set (js_done ?t) \<and> j_ID (oq_heap (js_q ?t) b) = i" if "oq_completed (js_q ?t) i = Some b" for i b
      using tables_okD(4) [OF ok] that unfolding same by blast
  qed
qed

lemma tables_ok_step: "job_step s t \<Longrightarrow> jobs_conserved s \<Longrightarrow> tables_ok s \<Longrightarrow> tables_ok t"
proof (induction rule: job_step.induct)
  case (submit s now i c ty p ok q')
  have "oq_running q' = oq_running (js_q s)" "oq_completed q' = oq_completed (js_q s)"
    "oq_heap q' = (oq_heap (js_q s))(js_next s := NewJob now i c ty p)"
    using submit.hyps by (auto simp: oq_Submit_def split: if_splits)
  with conserved_distinct(2) [OF submit.prems(1)] show ?case
    by (intro tables_ok_frame [OF submit.prems(2)]) auto
next
  case (take k s now a q')
  from take.hyps(3) obtain rest j where ch: "oq_jobCh (js_q s) = a # rest"
    and q': "q' = (js_q s)\<lparr>oq_jobCh := rest, oq_heap := (oq_heap (js_q s))(a := j)\<rparr>"
    by (auto simp: worker_take_def split: list.splits)
  have "a \<notin> set (held (js_workers s)) \<union> set (js_done s)"
    using conserved_distinct(1) [OF take.prems(1)] ch by auto
  with take.hyps q' in_update_other [of _ "js_workers s" k "Took a"] in_updateD [of _ "js_workers s" k "Took a"] show ?case
    by (intro tables_ok_frame [OF take.prems(2)]) auto
next
  case (publish k s a)
  then show ?case by (intro tables_ok_publish)
next
  case (execute k s a env server db now rec q')
  then show ?case by (intro tables_ok_execute)
next
  case (retire k s a)
  then show ?case by (intro tables_ok_retire)
next
  case (close_stop s q')
  then show ?case by (intro tables_ok_frame [OF close_stop.prems(2)]) (auto simp: oq_Stop_def split: if_splits)
next
  case (stop k s)
  then show ?case using in_update_other [of _ "js_workers s" k Stopped] in_updateD [of _ "js_workers s" k Stopped]
    by (intro tables_ok_frame [OF stop.prems(2)]) auto
next
  case (cleanup s h now ks)
  then show ?case
    by (intro tables_ok_frame [OF cleanup.prems(2)]) (auto simp: CleanupOldJobs_def sweep_apply split: option.splits if_splits)
qed

lemma reachable_tables:
  assumes "job_step\<^sup>*\<^sup>* (Start (NewOllamaQueue n url model h)) s"
  shows "jobs_conserved s \<and> tables_ok s \<and> length (js_workers s) = nat n \<and> oq_maxConcurrent (js_q s) = n"
  using assms
proof (induction rule: rtranclp_induct)
  case base
  show ?case by (simp add: jobs_conserved_def tables_ok_def Start_def NewOllamaQueue_def held_def)
next
  case (step s t)
  from step.hyps(2) have "length (js_workers t) = length (js_workers s) \<and> oq_maxConcurrent (js_q t) = oq_maxConcurrent (js_q s)"
    by (induction rule: job_step.induct)
      (auto simp: oq_Submit_def worker_take_def worker_publish_def worker_execute_def worker_retire_def oq_Stop_def
        CleanupOldJobs_def split: if_splits list.splits sum.splits prod.splits)
  with step jobs_conserved_step tables_ok_step show ?case by auto
qed

lemma running_bounded:
  assumes "tables_ok s"
  shows "card (dom (oq_running (js_q s))) \<le> length (js_workers s)"
proof -
  let ?f = "\<lambda>w. j_ID (oq_heap (js_q s) (hd (held_by w)))"
  have "dom (oq_running (js_q s)) \<subseteq> ?f ` set (js_workers s)"
    using tables_okD(1) [OF assms] by (force simp: dom_def image_iff)
  then have "card (dom (oq_running (js_q s))) \<le> card (?f ` set (js_workers s))" by (intro card_mono) auto
  also have "\<dots> \<le> card (set (js_workers s))" by (rule card_image_le) simp
  also have "\<dots> \<le> length (js_workers s)" by (rule card_length)
  finally show ?thesis .
qed

text \<open>
  C15. At most \<^verbatim>\<open>maxConcurrent\<close> jobs run, under every interleaving, so the capacity reported to the mesh is exactly
  \<^verbatim>\<open>maxConcurrent\<close> less the running jobs; and a job found in the completed table under an ID has that ID, is completed
  or failed, and has a completion time.
\<close>

theorem running_at_most_max:
  assumes "job_step\<^sup>*\<^sup>* (Start (NewOllamaQueue n url model h)) s" "0 \<le> n"
  shows "int (card (dom (oq_running (js_q s)))) \<le> n \<and>
    GetAvailableCapacity (js_q s) = n - int (card (dom (oq_running (js_q s)))) \<and>
    (\<forall>i a. oq_completed (js_q s) i = Some a \<longrightarrow> final_job (oq_heap (js_q s) a) \<and> j_ID (oq_heap (js_q s) a) = i)"
proof -
  note R = reachable_tables [OF assms(1)]
  then have "card (dom (oq_running (js_q s))) \<le> nat n" using running_bounded [of s] by simp
  then have "int (card (dom (oq_running (js_q s)))) \<le> n" using assms(2) by linarith
  with R tables_okD(3,4) [of s] show ?thesis by (auto simp: GetAvailableCapacity_def maxInt_def)
qed

text \<open>The job types with a call of their own; every other type is sent as a generic prompt.\<close>

definition direct_type :: "string \<Rightarrow> bool" where
  "direct_type ty \<longleftrightarrow> ty \<in> {''generate'', ''chat'', ''coding_agent_chat'', ''embed'', ''get_embedding'', ''list_models'', ''pull_model''}"

definition generic_body :: "ollama_env \<Rightarrow> string \<Rightarrow> Job \<Rightarrow> jobj" where
  "generic_body env model0 job = [(''model'', JStr model0), (''prompt'', JStr (generic_prompt env (j_PayloadMap job) (j_JobType job))),
     (''stream'', JBool False), (''temperature'', JNum (1 / 10))]"

lemma post_get_no_panic: "postOllama env p b \<noteq> CallPanic msg" "getOllama env p \<noteq> CallPanic msg"
  by (simp_all add: postOllama_def getOllama_def split: ollama_reply.splits sum.splits)

lemma copy_key_nil:
  "(\<exists>msg. copy_key resp k ok ex = Inl msg) \<longleftrightarrow>
     (\<exists>msg. ex = Inl msg) \<or> (ex = Inr None \<and> (\<exists>v. map_of resp k = Some v \<and> ok v))"
  "copy_key resp k ok ex = Inr None \<longleftrightarrow> ex = Inr None \<and> \<not> (\<exists>v. map_of resp k = Some v \<and> ok v)"
  by (auto simp: copy_key_def split: sum.splits option.splits if_splits)

lemma get_num_iff: "(\<exists>v. map_of m k = Some v \<and> is_num v) \<longleftrightarrow> get_num m k \<noteq> None"
  by (auto simp: get_num_def is_num_def split: option.splits json.splits)

lemma get_str_iff: "(\<exists>v. map_of m k = Some v \<and> is_str v) \<longleftrightarrow> get_str m k \<noteq> None"
  by (auto simp: get_str_def is_str_def split: option.splits json.splits)

lemma callOllamaGeneric_panics:
  "(\<exists>msg. callOllamaGeneric env model0 (j_PayloadMap job) (j_JobType job) = CallPanic msg) \<longleftrightarrow>
     (\<exists>resp. postOllama env ''/api/generate'' (generic_body env model0 job) = CallOk (JObj resp) \<and>
        extractJSONFromResponse env resp = None \<and>
        (get_num resp ''eval_count'' \<noteq> None \<or> get_num resp ''prompt_eval_count'' \<noteq> None \<or>
         get_num resp ''eval_duration'' \<noteq> None \<or> get_str resp ''model'' \<noteq> None))"
proof -
  let ?P = "postOllama env ''/api/generate'' (generic_body env model0 job)"
  let ?chain = "\<lambda>resp. copy_key resp ''model'' is_str (copy_key resp ''eval_duration'' is_num
     (copy_key resp ''prompt_eval_count'' is_num (copy_key resp ''eval_count'' is_num (Inr (extractJSONFromResponse env resp)))))"
  have C: "(\<exists>msg. ?chain resp = Inl msg) \<longleftrightarrow> extractJSONFromResponse env resp = None \<and>
        (get_num resp ''eval_count'' \<noteq> None \<or> get_num resp ''prompt_eval_count'' \<noteq> None \<or>
         get_num resp ''eval_duration'' \<noteq> None \<or> get_str resp ''model'' \<noteq> None)" for resp
    unfolding copy_key_nil get_num_iff get_str_iff by auto
  have "(\<exists>msg. callOllamaGeneric env model0 (j_PayloadMap job) (j_JobType job) = CallPanic msg) \<longleftrightarrow>
      (\<exists>resp. ?P = CallOk (JObj resp) \<and> (\<exists>msg. ?chain resp = Inl msg))"
    using post_get_no_panic(1) [of env "''/api/generate''" "generic_body env model0 job"]
    unfolding callOllamaGeneric_def generic_body_def [symmetric]
    by (auto split: call_result.splits json.splits sum.splits option.splits)
  then show ?thesis unfolding C .
qed

text \<open>
  C25. When executing a job panics, which ends the server. It is exactly when the job is of a generic type, the call for it
  succeeded with an object, the JSON found in the model's answer is \<^verbatim>\<open>null\<close>, and the reply carries the model's name
  or one of the counters, which Ollama's replies do. In every other case the job ends completed or failed,
  with a completion time and under its own ID.
\<close>

theorem executeJob_panics_iff:
  "(case executeJob env model0 server db now job of Inl msg \<Rightarrow> True | Inr (j, rec) \<Rightarrow> \<not> (final_job j \<and> j_ID j = j_ID job)) \<longleftrightarrow>
     \<not> direct_type (j_JobType job) \<and>
     (\<exists>resp. postOllama env ''/api/generate'' (generic_body env model0 job) = CallOk (JObj resp) \<and>
        extractJSONFromResponse env resp = None \<and>
        (get_num resp ''eval_count'' \<noteq> None \<or> get_num resp ''prompt_eval_count'' \<noteq> None \<or>
         get_num resp ''eval_duration'' \<noteq> None \<or> get_str resp ''model'' \<noteq> None))"
proof -
  have "(case executeJob env model0 server db now job of Inl msg \<Rightarrow> True | Inr (j, rec) \<Rightarrow> \<not> (final_job j \<and> j_ID j = j_ID job)) \<longleftrightarrow>
      (\<exists>msg. call_for_job env model0 job = CallPanic msg)"
    by (auto simp: executeJob_def final_job_def Let_def split: call_result.splits)
  moreover have "(\<exists>msg. call_for_job env model0 job = CallPanic msg) \<longleftrightarrow> \<not> direct_type (j_JobType job) \<and>
      (\<exists>msg. callOllamaGeneric env model0 (j_PayloadMap job) (j_JobType job) = CallPanic msg)"
    by (auto simp: call_for_job_def direct_type_def callOllamaGenerate_def callOllamaChat_def callOllamaChatPayload_def
        callOllamaEmbed_def callOllamaListModels_def callOllamaPullModel_def post_get_no_panic Let_def)
  ultimately show ?thesis by (simp only: callOllamaGeneric_panics)
qed

section \<open>Witnesses\<close>

definition sample_oq :: OllamaQueue where
  "sample_oq = NewOllamaQueue 1 ''http://localhost:11434'' ''llama3'' (\<lambda>a. NewJob 0 ''j'' ''c'' ''chat'' [])"

definition sample_submitted :: job_sys where
  "sample_submitted = \<lparr>js_q = sample_oq\<lparr>oq_jobCh := [0], oq_heap := (oq_heap sample_oq)(0 := NewJob 5 ''j1'' ''c'' ''chat'' [])\<rparr>,
     js_workers = [Idle], js_next = 1, js_accepted = [0], js_done = []\<rparr>"

lemma sample_job_run: "job_step\<^sup>*\<^sup>* (Start sample_oq) sample_submitted"
proof -
  have s: "oq_Submit (js_next (Start sample_oq)) ((js_q (Start sample_oq))\<lparr>oq_heap := (oq_heap (js_q (Start sample_oq)))
      (js_next (Start sample_oq) := NewJob 5 ''j1'' ''c'' ''chat'' [])\<rparr>)
      = (True, sample_oq\<lparr>oq_jobCh := [0], oq_heap := (oq_heap sample_oq)(0 := NewJob 5 ''j1'' ''c'' ''chat'' [])\<rparr>)"
    by (simp add: Start_def oq_Submit_def sample_oq_def NewOllamaQueue_def)
  from job_step.submit [OF s] have "job_step (Start sample_oq) sample_submitted"
    by (simp add: sample_submitted_def Start_def sample_oq_def NewOllamaQueue_def)
  then show ?thesis by blast
qed


theorem running_at_most_max_witness:
  "job_step\<^sup>*\<^sup>* (Start sample_oq) sample_submitted \<and> GetAvailableCapacity (js_q sample_submitted) = 1"
  using running_at_most_max [OF sample_job_run [unfolded sample_oq_def]] sample_job_run
  by (simp add: sample_submitted_def sample_oq_def NewOllamaQueue_def)

text \<open>
  A generic job whose model answers with the text \<^verbatim>\<open>null\<close> panics: the parsed map is nil, and the token counts of the reply
  are written to it.
\<close>

lemma generic_null_panics:
  assumes "oe_post env ''/api/generate''
      [(''model'', JStr model0), (''prompt'', JStr (generic_prompt env payload ty)), (''stream'', JBool False), (''temperature'', JNum (1 / 10))]
      = Reply 200 (Inr (JObj [(''response'', JStr ''null''), (''eval_count'', JNum 1)]))"
    and "oe_unmarshal env ''null'' = Some None"
  shows "callOllamaGeneric env model0 payload ty = CallPanic ''assignment to entry in nil map''"
  using assms by (simp add: callOllamaGeneric_def postOllama_def extractJSONFromResponse_def copy_key_def is_num_def
      is_str_def get_str_def)

definition null_env :: ollama_env where
  "null_env = \<lparr>oe_post = \<lambda>path body. Reply 200 (Inr (JObj [(''response'', JStr ''null''), (''eval_count'', JNum 1)])),
     oe_get = \<lambda>path. RequestFails [], oe_marshal = \<lambda>m. [],
     oe_unmarshal = \<lambda>s. if s = ''null'' then Some None else None, oe_match = \<lambda>p s. None, oe_fmt = \<lambda>c r. []\<rparr>"

theorem executeJob_panics_iff_witness:
  "(case executeJob null_env ''llama3'' ([], []) False 0 (NewJob 0 ''j'' ''c'' ''analyze_paper'' []) of
      Inl msg \<Rightarrow> True | Inr (j, rec) \<Rightarrow> \<not> (final_job j \<and> j_ID j = j_ID (NewJob 0 ''j'' ''c'' ''analyze_paper'' [])))"
proof -
  have "j_JobType (NewJob 0 ''j'' ''c'' ''analyze_paper'' []) = ''analyze_paper''"
    by (simp add: NewJob_def)
  with executeJob_panics_iff [where env = null_env and ?model0.0 = "''llama3''" and server = "([], [])" and db = False
      and now = 0 and job = "NewJob 0 ''j'' ''c'' ''analyze_paper'' []"] show ?thesis
    by (simp add: direct_type_def null_env_def postOllama_def extractJSONFromResponse_def get_num_def get_str_def str_or_empty_def)
qed

end
