(* ===== verification/Model_Context.thy ===== *)
theory Model_Context
  imports Hive_Prelude
begin

text \<open>
  The detection of context windows and the choice of a token budget, \<^verbatim>\<open>hive-server-go/model_context.go\<close>, with the
  budget constants of \<^verbatim>\<open>coding_agent.go\<close>. The answer of Ollama's \<^verbatim>\<open>/api/show\<close> is an argument. The theory shows the
  bounds of a budget and when it fits into the model's window, in which order the sources of a window are
  asked, that a window once detected stays, and properties of the two tables.
\<close>

section \<open>Tables and constants\<close>

definition DefaultTokenBudget :: int where "DefaultTokenBudget = 32000"
definition MinTokenBudget :: int where "MinTokenBudget = 4096"
definition MaxTokenBudget :: int where "MaxTokenBudget = 200000"

lemmas budget_defs = DefaultTokenBudget_def MinTokenBudget_def MaxTokenBudget_def

record ModelContextWindow =
  cw_Model :: string
  cw_ContextLength :: int
  cw_MaxOutput :: int
  cw_Source :: string

definition knownContextWindows :: "(string \<times> int) list" where
  "knownContextWindows = [
    (''qwen2.5-coder:0.5b'', 32768), (''qwen2.5-coder:1.5b'', 32768), (''qwen2.5-coder:3b'', 32768),
    (''qwen2.5-coder:7b'', 32768), (''qwen2.5-coder:14b'', 131072), (''qwen2.5-coder:32b'', 131072),
    (''qwen2.5-coder:72b'', 131072), (''qwen2.5:0.5b'', 32768), (''qwen2.5:1.5b'', 32768), (''qwen2.5:3b'', 32768),
    (''qwen2.5:7b'', 131072), (''qwen2.5:14b'', 131072), (''qwen2.5:32b'', 131072), (''qwen2.5:72b'', 131072),
    (''qwen3:0.6b'', 32768), (''qwen3:1.7b'', 32768), (''qwen3:4b'', 32768), (''qwen3:8b'', 32768),
    (''qwen3:14b'', 131072), (''qwen3:30b'', 131072), (''qwen3:32b'', 131072), (''qwen3:235b'', 131072),
    (''qwen3-coder:0.6b'', 32768), (''qwen3-coder:1.7b'', 32768), (''qwen3-coder:4b'', 32768),
    (''qwen3-coder:8b'', 32768), (''qwen3-coder:14b'', 131072), (''qwen3-coder:30b'', 131072),
    (''qwen3-coder:32b'', 131072), (''qwen3-coder:235b'', 131072), (''deepseek-coder:1.3b'', 16384),
    (''deepseek-coder:6.7b'', 16384), (''deepseek-coder:33b'', 16384), (''deepseek-coder-v2:16b'', 128000),
    (''deepseek-coder-v2:236b'', 128000), (''deepseek-v2:16b'', 128000), (''deepseek-v2:236b'', 128000),
    (''deepseek-v3'', 128000), (''deepseek-r1:1.5b'', 65536), (''deepseek-r1:7b'', 65536),
    (''deepseek-r1:8b'', 65536), (''deepseek-r1:14b'', 65536), (''deepseek-r1:32b'', 65536),
    (''deepseek-r1:70b'', 65536), (''codellama:7b'', 16384), (''codellama:13b'', 16384), (''codellama:34b'', 16384),
    (''codellama:70b'', 16384), (''codellama:7b-code'', 16384), (''codellama:13b-code'', 16384),
    (''codellama:34b-code'', 16384), (''starcoder2:3b'', 16384), (''starcoder2:7b'', 16384),
    (''starcoder2:15b'', 16384), (''qwen2.5-coder:0.5b'', 8192), (''llama3:70b'', 8192), (''llama3.1:8b'', 131072),
    (''llama3.1:70b'', 131072), (''llama3.1:405b'', 131072), (''llama3.2:1b'', 131072), (''llama3.2:3b'', 131072),
    (''llama3.3:70b'', 131072), (''mistral:7b'', 32768), (''mistral-nemo:12b'', 131072), (''mixtral:8x7b'', 32768),
    (''mixtral:8x22b'', 65536), (''gemma2:2b'', 8192), (''gemma2:9b'', 8192), (''gemma2:27b'', 8192),
    (''gemma3:1b'', 131072), (''gemma3:4b'', 131072), (''gemma3:12b'', 131072), (''gemma3:27b'', 131072),
    (''phi3:3.8b'', 131072), (''phi3:14b'', 131072), (''phi4:14b'', 16384), (''yi:6b'', 204800), (''yi:9b'', 204800),
    (''yi:34b'', 204800), (''yi-coder:1.5b'', 4096), (''yi-coder:6b'', 204800), (''yi-coder:9b'', 204800),
    (''yi-coder:34b'', 204800), (''glm-4'', 131072), (''glm-4-flash'', 131072), (''glm-4.7-flash'', 200000),
    (''glm-4.7-flash:bf16'', 200000), (''glm-4.7-flash:q4_0'', 200000), (''glm-4.7-flash:q8_0'', 200000),
    (''glm-4-plus'', 131072), (''glm-4-air'', 131072), (''glm-4-airx'', 131072), (''glm-4-long'', 1048576),
    (''glm-4v'', 8192), (''glm-4v-flash'', 8192), (''glm-4v-plus'', 8192), (''command-r:35b'', 131072),
    (''command-r-plus:104b'', 131072), (''codegemma:2b'', 8192), (''codegemma:7b'', 8192), (''codeqwen:7b'', 32768),
    (''magicoder:7b'', 8192), (''neural-chat:7b'', 8192), (''openhermes:7b'', 8192), (''nous-hermes:7b'', 8192),
    (''nous-hermes:13b'', 8192), (''nous-hermes2:7b'', 8192), (''nous-hermes2-mixtral:8x7b'', 32768),
    (''nous-hermes2-yi:34b'', 204800), (''hermes-2-pro:7b'', 4096), (''hermes-2-pro:13b'', 4096),
    (''hermes-2-pro:70b'', 4096), (''openchat:7b'', 8192), (''zephyr:7b'', 8192), (''vicuna:7b'', 4096),
    (''vicuna:13b'', 4096), (''vicuna:33b'', 4096), (''wizard-coder:7b'', 8192), (''wizard-coder:13b'', 8192),
    (''wizard-coder:34b'', 8192), (''wizard-coder:33b'', 8192), (''wizard-coder-python:7b'', 8192),
    (''mlx-community/Qwen2.5-Coder-7B-Instruct-4bit'', 32768),
    (''mlx-community/Qwen2.5-Coder-14B-Instruct-4bit'', 131072),
    (''mlx-community/DeepSeek-Coder-V2-Instruct-16B'', 128000), (''mlx-community/Llama-3.1-8B-Instruct'', 131072),
    (''mlx-community/Mistral-7B-Instruct-v0.3'', 32768)]"

definition contextPatterns :: "(string \<times> int) list" where
  "contextPatterns = [
    (''qwen2.5-coder'', 32768), (''qwen2.5'', 131072), (''qwen3-coder'', 32768), (''qwen3'', 131072),
    (''qwen-coder'', 32768), (''qwen'', 32768), (''deepseek-coder-v2'', 128000), (''deepseek-coder'', 16384),
    (''deepseek-r1'', 65536), (''deepseek'', 128000), (''codellama'', 16384), (''codegemma'', 8192),
    (''codeqwen'', 32768), (''magicoder'', 8192), (''starcoder2'', 16384), (''starcoder'', 16384),
    (''llama3.1'', 131072), (''llama3.2'', 131072), (''llama3.3'', 131072), (''llama3'', 8192),
    (''mistral-nemo'', 131072), (''mistral'', 32768), (''mixtral'', 32768), (''gemma3'', 131072), (''gemma2'', 8192),
    (''gemma'', 8192), (''phi-4'', 16384), (''phi4'', 16384), (''phi-3'', 131072), (''phi3'', 131072),
    (''yi-coder'', 204800), (''yi'', 204800), (''hermes-2'', 32768), (''hermes'', 8192), (''command-r'', 131072),
    (''glm-4.7'', 200000), (''glm-4'', 131072), (''glm'', 131072), (''openchat'', 8192), (''zephyr'', 8192),
    (''vicuna'', 4096), (''wizard-coder'', 8192), (''wizard'', 8192), (''neural-chat'', 8192),
    (''openhermes'', 8192), (''mlx'', 32768)]"

section \<open>Detection\<close>

record ModelContextDetector =
  md_cache :: "string \<rightharpoonup> ModelContextWindow"
  md_ollamaURL :: string

definition NewModelContextDetector :: "string \<Rightarrow> ModelContextDetector" where
  "NewModelContextDetector url = \<lparr>md_cache = Map.empty, md_ollamaURL = url\<rparr>"

text \<open>
  What the service answers for a model: nothing (the request fails), or a status with, if the body can be decoded,
  the numbers \<^verbatim>\<open>model_info.general.context_length\<close> and \<^verbatim>\<open>parameters.num_ctx\<close> (0 when absent).
\<close>

type_synonym show_api = "string \<Rightarrow> (int \<times> (int \<times> int) option) option"

definition mk_window :: "string \<Rightarrow> int \<Rightarrow> string \<Rightarrow> ModelContextWindow" where
  "mk_window model n src = \<lparr>cw_Model = model, cw_ContextLength = n, cw_MaxOutput = 0, cw_Source = src\<rparr>"

definition queryOllamaShow :: "show_api \<Rightarrow> string \<Rightarrow> ModelContextDetector \<Rightarrow> ModelContextWindow option" where
  "queryOllamaShow api model d =
     (if md_ollamaURL d = [] then None
      else case api model of
          None \<Rightarrow> None
        | Some (status, decoded) \<Rightarrow>
            if status \<ge> 400 then None
            else case decoded of
                None \<Rightarrow> None
              | Some (context_length, num_ctx) \<Rightarrow>
                  let ctxLen = (if context_length \<le> 0 then num_ctx else context_length)
                  in if ctxLen > 0 then Some (mk_window model ctxLen ''api'') else None)"

definition match_pattern :: "string \<Rightarrow> int option" where
  "match_pattern model = map_option snd (find (\<lambda>(p, n). str_contains (to_lower model) p) contextPatterns)"

text \<open>The sources of a window in the order they are asked; the caller stores what they give under the model's name.\<close>

definition resolve_window :: "show_api \<Rightarrow> string \<Rightarrow> ModelContextDetector \<Rightarrow> ModelContextWindow" where
  "resolve_window api model d =
     (case queryOllamaShow api model d of
        Some w \<Rightarrow> w
      | None \<Rightarrow>
          (case map_of knownContextWindows model of
             Some n \<Rightarrow> mk_window model n ''registry''
           | None \<Rightarrow>
               (case match_pattern model of
                  Some n \<Rightarrow> mk_window model n ''pattern''
                | None \<Rightarrow> mk_window model DefaultTokenBudget ''default'')))"

definition model_or_unknown :: "string \<Rightarrow> string" where
  "model_or_unknown model = (if model = [] then ''unknown'' else model)"

definition DetectContextWindow :: "show_api \<Rightarrow> string \<Rightarrow> ModelContextDetector \<Rightarrow> ModelContextWindow \<times> ModelContextDetector" where
  "DetectContextWindow api model0 d =
     (let model = model_or_unknown model0
      in case md_cache d model of
           Some w \<Rightarrow> (w, d)
         | None \<Rightarrow> let w = resolve_window api model d in (w, d\<lparr>md_cache := (md_cache d)(model \<mapsto> w)\<rparr>))"

definition clamp_budget :: "int \<Rightarrow> int" where
  "clamp_budget b = (let b1 = (if b < MinTokenBudget then MinTokenBudget else b)
     in if b1 > MaxTokenBudget then MaxTokenBudget else b1)"

definition GetContextBudgetForModel :: "show_api \<Rightarrow> string \<Rightarrow> int \<Rightarrow> ModelContextDetector \<Rightarrow> int \<times> ModelContextDetector" where
  "GetContextBudgetForModel api model explicitBudget d =
     (if explicitBudget > 0 then
        (if explicitBudget < MinTokenBudget then MinTokenBudget
         else if explicitBudget > MaxTokenBudget then MaxTokenBudget else explicitBudget, d)
      else case DetectContextWindow api model d of
        (w, d') \<Rightarrow> (clamp_budget (trunc_float (of_int (cw_ContextLength w) * (8 / 10))), d'))"

definition GetAllKnownModels :: "string list \<Rightarrow> ModelContextWindow list" where
  "GetAllKnownModels ks = map (\<lambda>k. mk_window k (the (map_of knownContextWindows k)) ''registry'') ks"

section \<open>Names\<close>

definition split_slash :: "string \<Rightarrow> (string \<times> string) option" where
  "split_slash s = (case dropWhile (\<lambda>c. c \<noteq> CHR ''/'') s of
     [] \<Rightarrow> None | _ # rest \<Rightarrow> Some (takeWhile (\<lambda>c. c \<noteq> CHR ''/'') s, rest))"

definition NormalizeModelName :: "string \<Rightarrow> string" where
  "NormalizeModelName model0 =
     (let model = trim_prefix (trim_prefix (trim_space model0) ''ollama:'') ''ollama/''
      in case split_slash model of
           Some (registry, tag) \<Rightarrow> registry @ ''/'' @ to_lower tag
         | None \<Rightarrow> to_lower model)"

text \<open>The text of \<^verbatim>\<open>%.1f\<close> is the argument \<open>f1\<close>.\<close>

definition FormatContextWindow :: "(real \<Rightarrow> string) \<Rightarrow> int \<Rightarrow> string" where
  "FormatContextWindow f1 tokens =
     (if tokens \<ge> 1000000 then f1 (of_int tokens / 1000000) @ ''M''
      else if tokens \<ge> 1000 then dec_int (go_div tokens 1000) @ ''K''
      else dec_int tokens)"

section \<open>Budgets\<close>

lemma trunc_80: "0 \<le> n \<Longrightarrow> trunc_float (of_int n * (8 / 10)) = n * 80 div 100"
proof -
  assume "0 \<le> n"
  have "(of_int n * (8 / 10) :: real) = of_int (n * 4) / of_int 5" by simp
  then have "\<lfloor>of_int n * (8 / 10) :: real\<rfloor> = n * 4 div 5" by (simp only: floor_divide_of_int_eq)
  moreover have "n * 80 div 100 = n * 4 div 5"
    using div_mult_mult2 [of 20 "n * 4" 5] by simp
  ultimately show ?thesis using \<open>0 \<le> n\<close> by (simp add: trunc_float_def)
qed

lemma clamp_budget_eq: "clamp_budget b = min MaxTokenBudget (max MinTokenBudget b)"
  by (simp add: clamp_budget_def budget_defs Let_def min_def max_def)

text \<open>
  The budget for a model lies between 4096 and 200000 tokens in every case. Chosen automatically, it is 80 percent of
  the detected window, cut to that range; it stays within the window exactly if the window has at least 4096
  tokens. A model with a smaller window is given a budget that does not fit.
\<close>

theorem budget_range:
  "MinTokenBudget \<le> fst (GetContextBudgetForModel api model e d) \<and>
   fst (GetContextBudgetForModel api model e d) \<le> MaxTokenBudget \<and>
   (let w = cw_ContextLength (fst (DetectContextWindow api model d))
    in e \<le> 0 \<and> 0 \<le> w \<longrightarrow>
      fst (GetContextBudgetForModel api model e d) = min 200000 (max 4096 (w * 80 div 100)) \<and>
      (fst (GetContextBudgetForModel api model e d) \<le> w \<longleftrightarrow> 4096 \<le> w))"
proof -
  let ?w = "cw_ContextLength (fst (DetectContextWindow api model d))"
  let ?b = "fst (GetContextBudgetForModel api model e d)"
  have auto: "?b = clamp_budget (trunc_float (of_int ?w * (8 / 10)))" if "e \<le> 0"
    using that by (simp add: GetContextBudgetForModel_def case_prod_unfold)
  have "?b = min 200000 (max 4096 (?w * 80 div 100)) \<and> (?b \<le> ?w \<longleftrightarrow> 4096 \<le> ?w)" if "e \<le> 0" "0 \<le> ?w"
  proof -
    have b: "?b = min 200000 (max 4096 (?w * 80 div 100))"
      unfolding auto [OF that(1)] trunc_80 [OF that(2)] clamp_budget_eq budget_defs ..
    have "?w * 80 div 100 \<le> ?w" using that(2) by simp
    then show ?thesis unfolding b by auto
  qed
  moreover have "MinTokenBudget \<le> ?b \<and> ?b \<le> MaxTokenBudget"
  proof (cases "e \<le> 0")
    case True
    then show ?thesis unfolding auto [OF True] clamp_budget_eq by (simp add: budget_defs)
  next
    case False
    then show ?thesis by (simp add: GetContextBudgetForModel_def budget_defs)
  qed
  ultimately show ?thesis by (auto simp: Let_def)
qed

text \<open>A detector without a service: the tables alone decide.\<close>

lemma detect_offline:
  "fst (DetectContextWindow api m (NewModelContextDetector [])) = resolve_window api (model_or_unknown m) (NewModelContextDetector [])"
  "map_of knownContextWindows m = Some n \<Longrightarrow> resolve_window api m (NewModelContextDetector []) = mk_window m n ''registry''"
  by (simp_all add: DetectContextWindow_def NewModelContextDetector_def queryOllamaShow_def resolve_window_def Let_def)

lemma known_qwen: "map_of knownContextWindows ''qwen2.5-coder:0.5b'' = Some 32768"
  by (simp only: knownContextWindows_def map_of.simps fst_conv snd_conv fun_upd_same)

theorem budget_range_witness:
  "fst (GetContextBudgetForModel (\<lambda>m. None) ''qwen2.5-coder:0.5b'' 0 (NewModelContextDetector [])) = 26214"
proof -
  have "cw_ContextLength (fst (DetectContextWindow (\<lambda>m. None) ''qwen2.5-coder:0.5b'' (NewModelContextDetector []))) = 32768"
    by (simp add: detect_offline known_qwen mk_window_def model_or_unknown_def)
  with budget_range [of "\<lambda>m. None" "''qwen2.5-coder:0.5b''" 0 "NewModelContextDetector []"] show ?thesis
    by (simp add: Let_def)
qed

text \<open>Every window in the registry has at least 4096 tokens, so the automatic budget fits into it.\<close>

lemma registry_windows: "list_all (\<lambda>(m, n). 4096 \<le> n) knownContextWindows"
  by (simp add: knownContextWindows_def)

section \<open>A window once detected stays\<close>

lemma detect_caches:
  "md_cache (snd (DetectContextWindow api m d)) (model_or_unknown m) = Some (fst (DetectContextWindow api m d))"
  by (simp add: DetectContextWindow_def Let_def split: option.splits)

lemma detect_keeps:
  "md_cache d m = Some w \<Longrightarrow> md_cache (snd (DetectContextWindow api m' d)) m = Some w"
  by (auto simp: DetectContextWindow_def Let_def split: option.splits)

text \<open>
  The first detection of a model's window is final: whatever the service answers later, and whatever other models
  are looked up in between, every later detection of that model gives the same window.
\<close>

theorem detection_sticky:
  assumes "DetectContextWindow api m d = (w, d')"
  shows "fst (DetectContextWindow api' m (foldl (\<lambda>d (api, m). snd (DetectContextWindow api m d)) d' calls)) = w"
proof -
  let ?m = "model_or_unknown m"
  have "md_cache d' ?m = Some w" using detect_caches [of api m d] assms by simp
  then have "md_cache (foldl (\<lambda>d (api, m). snd (DetectContextWindow api m d)) d' calls) ?m = Some w"
    by (induction calls arbitrary: d') (auto simp: detect_keeps)
  then show ?thesis by (simp add: DetectContextWindow_def Let_def)
qed

theorem detection_sticky_witness:
  "cw_ContextLength (fst (DetectContextWindow (\<lambda>m. Some (200, Some (999, 0))) ''qwen2.5-coder:0.5b''
     (foldl (\<lambda>d (api, m). snd (DetectContextWindow api m d))
       (snd (DetectContextWindow (\<lambda>m. None) ''qwen2.5-coder:0.5b'' (NewModelContextDetector []))) []))) = 32768"
proof -
  obtain w d' where wd: "DetectContextWindow (\<lambda>m. None) ''qwen2.5-coder:0.5b'' (NewModelContextDetector []) = (w, d')"
    by (metis surj_pair)
  have "cw_ContextLength w = 32768"
    using detect_offline(1) [of "\<lambda>m. None" "''qwen2.5-coder:0.5b''"]
    by (simp add: wd detect_offline(2) known_qwen mk_window_def model_or_unknown_def)
  with detection_sticky [OF wd, of _ "[]"] show ?thesis by (simp add: wd)
qed

text \<open>
  The registry has the names of MLX models in mixed case and is searched before the name is put into lower case, but the
  normalised form of such a name is not in it.
\<close>

lemma normalized_mlx_not_registered:
  "map_of knownContextWindows ''mlx-community/Qwen2.5-Coder-14B-Instruct-4bit'' = Some 131072"
  "map_of knownContextWindows (NormalizeModelName ''mlx-community/Qwen2.5-Coder-14B-Instruct-4bit'') = None"
  by code_simp+

text \<open>Normalising is not idempotent: one prefix is stripped at a time.\<close>

lemma normalize_not_idempotent:
  "NormalizeModelName ''ollama:ollama:x'' = ''ollama:x''" "NormalizeModelName ''ollama:x'' = ''x''"
  by (simp_all add: NormalizeModelName_def trim_space_def is_space_def trim_prefix_def has_prefix_def split_slash_def
      to_lower_def lower_char_def)

end
