(* ===== verification/Model_Registry.thy ===== *)
theory Model_Registry
  imports Hive_Prelude
begin

text \<open>
  The registry of loaded models, \<^verbatim>\<open>hive-server-go/model_registry.go\<close>: which models this node and its peers have loaded, how
  often each is in use, and the search for a model of the same family. The theory shows that the load
  counters balance, that reference counts stay non-negative, and that the search finds a compatible model exactly if one
  is loaded, in whatever order the table is visited.
\<close>

section \<open>Data\<close>

datatype ModelLoadState = ModelLoaded | ModelLoading | ModelUnloading | ModelNotLoaded | ModelFailed

record LoadedModelInfo =
  lm_Name :: string
  lm_Provider :: string
  lm_NodeID :: string
  lm_Endpoint :: string
  lm_State :: ModelLoadState
  lm_LoadedAt :: gotime
  lm_LastUsed :: gotime
  lm_RefCount :: int
  lm_SizeBytes :: int
  lm_ContextLen :: int
  lm_Family :: string
  lm_Quantization :: string

record ModelRegistry =
  mr_localModels :: "string \<rightharpoonup> LoadedModelInfo"
  mr_peerModels :: "string \<rightharpoonup> (string \<rightharpoonup> LoadedModelInfo)"
  mr_modelFamilyGroups :: "string \<rightharpoonup> string list"
  mr_totalLoads :: int
  mr_totalUnloads :: int
  mr_loadFailures :: int

definition NewModelRegistry :: ModelRegistry where
  "NewModelRegistry = \<lparr>mr_localModels = Map.empty, mr_peerModels = Map.empty, mr_modelFamilyGroups = Map.empty,
     mr_totalLoads = 0, mr_totalUnloads = 0, mr_loadFailures = 0\<rparr>"

section \<open>Names of models\<close>

definition families :: "string list" where
  "families = [''llama3.2'', ''llama3.1'', ''llama3'', ''llama2'', ''qwen2.5'', ''qwen2'', ''qwen1.5'', ''qwen'',
     ''gemma2'', ''gemma'', ''mistral'', ''mixtral'', ''phi3'', ''phi2'', ''codellama'', ''codeqwen'']"

definition extractModelFamily :: "string \<Rightarrow> string" where
  "extractModelFamily name = (case find (has_prefix name) families of
     Some f \<Rightarrow> f
   | None \<Rightarrow> takeWhile (\<lambda>c. c \<noteq> CHR '':'' \<and> c \<noteq> CHR ''-'') name)"

text \<open>\<^verbatim>\<open>contains\<close> compares the text at every position \<open>i\<close> up to the difference of the lengths.\<close>

definition contains :: "string \<Rightarrow> string \<Rightarrow> bool" where
  "contains s sub = list_ex (\<lambda>i. take (length sub) (drop i s) = sub)
     (if length sub \<le> length s then [0..<Suc (length s - length sub)] else [])"

definition quantPatterns :: "string list" where
  "quantPatterns = [''q4_k_m'', ''q4_0'', ''q5_k_m'', ''q5_0'', ''q8_0'', ''fp16'', ''fp8'', ''bf16'']"

definition extractQuantization :: "string \<Rightarrow> string" where
  "extractQuantization name = str_or_empty (find (contains name) quantPatterns)"

definition formatSize :: "int \<Rightarrow> string" where
  "formatSize bytes = (if bytes \<ge> 2 ^ 30 then ''large'' else if bytes \<ge> 2 ^ 20 then ''medium'' else ''small'')"

section \<open>Operations\<close>

definition addToFamilyGroup :: "string \<Rightarrow> string \<Rightarrow> ModelRegistry \<Rightarrow> ModelRegistry" where
  "addToFamilyGroup key name mr = (case mr_modelFamilyGroups mr key of
     None \<Rightarrow> mr\<lparr>mr_modelFamilyGroups := (mr_modelFamilyGroups mr)(key \<mapsto> [name])\<rparr>
   | Some grp \<Rightarrow> if name \<in> set grp then mr
       else mr\<lparr>mr_modelFamilyGroups := (mr_modelFamilyGroups mr)(key \<mapsto> grp @ [name])\<rparr>)"

text \<open>\<open>server\<close>: what \<^verbatim>\<open>getServerID\<close> returns.\<close>

definition RegisterLocalModel ::
  "string \<Rightarrow> gotime \<Rightarrow> string \<Rightarrow> string \<Rightarrow> string \<Rightarrow> int \<Rightarrow> int \<Rightarrow> ModelRegistry \<Rightarrow> ModelRegistry" where
  "RegisterLocalModel server now name provider endpoint sizeBytes contextLen mr =
     (let info = \<lparr>lm_Name = name, lm_Provider = provider, lm_NodeID = server, lm_Endpoint = endpoint,
            lm_State = ModelLoaded, lm_LoadedAt = now, lm_LastUsed = now, lm_RefCount = 0, lm_SizeBytes = sizeBytes,
            lm_ContextLen = contextLen, lm_Family = extractModelFamily name, lm_Quantization = extractQuantization name\<rparr>;
          mr1 = (case mr_localModels mr name of None \<Rightarrow> mr\<lparr>mr_totalLoads := mr_totalLoads mr + 1\<rparr> | Some _ \<Rightarrow> mr);
          mr2 = mr1\<lparr>mr_localModels := (mr_localModels mr1)(name \<mapsto> info)\<rparr>
      in if lm_Family info \<noteq> []
         then addToFamilyGroup (if sizeBytes > 0 then lm_Family info @ '':'' @ formatSize sizeBytes else lm_Family info) name mr2
         else mr2)"

definition UnregisterLocalModel :: "string \<Rightarrow> ModelRegistry \<Rightarrow> ModelRegistry" where
  "UnregisterLocalModel name mr = (case mr_localModels mr name of
     None \<Rightarrow> mr
   | Some _ \<Rightarrow> mr\<lparr>mr_totalUnloads := mr_totalUnloads mr + 1, mr_localModels := (mr_localModels mr)(name := None)\<rparr>)"

text \<open>A change of the entry of a model, local or of a peer, where there is one.\<close>

definition update_info ::
  "(LoadedModelInfo \<Rightarrow> LoadedModelInfo) \<Rightarrow> string \<Rightarrow> bool \<Rightarrow> string \<Rightarrow> ModelRegistry \<Rightarrow> ModelRegistry" where
  "update_info f name isLocal nodeID mr =
     (if isLocal then
        (case mr_localModels mr name of
           None \<Rightarrow> mr
         | Some info \<Rightarrow> mr\<lparr>mr_localModels := (mr_localModels mr)(name \<mapsto> f info)\<rparr>)
      else
        (case mr_peerModels mr nodeID of
           None \<Rightarrow> mr
         | Some pm \<Rightarrow> (case pm name of
             None \<Rightarrow> mr
           | Some info \<Rightarrow> mr\<lparr>mr_peerModels := (mr_peerModels mr)(nodeID \<mapsto> pm(name \<mapsto> f info))\<rparr>)))"

definition MarkModelUsed :: "gotime \<Rightarrow> string \<Rightarrow> bool \<Rightarrow> string \<Rightarrow> ModelRegistry \<Rightarrow> ModelRegistry" where
  "MarkModelUsed now = update_info (\<lambda>info. info\<lparr>lm_LastUsed := now, lm_RefCount := lm_RefCount info + 1\<rparr>)"

definition DecrementRefCount :: "string \<Rightarrow> bool \<Rightarrow> string \<Rightarrow> ModelRegistry \<Rightarrow> ModelRegistry" where
  "DecrementRefCount = update_info (\<lambda>info. if lm_RefCount info > 0 then info\<lparr>lm_RefCount := lm_RefCount info - 1\<rparr> else info)"

definition GetLocalModel :: "string \<Rightarrow> ModelRegistry \<Rightarrow> LoadedModelInfo option" where
  "GetLocalModel name mr = (case mr_localModels mr name of
     None \<Rightarrow> None | Some info \<Rightarrow> if lm_State info \<noteq> ModelLoaded then None else Some info)"

definition IsLoadedLocally :: "string \<Rightarrow> ModelRegistry \<Rightarrow> bool" where
  "IsLoadedLocally name mr = (case mr_localModels mr name of None \<Rightarrow> False | Some info \<Rightarrow> lm_State info = ModelLoaded)"

definition better_match :: "string \<Rightarrow> LoadedModelInfo option \<Rightarrow> LoadedModelInfo \<Rightarrow> LoadedModelInfo option" where
  "better_match family best info =
     (if lm_State info \<noteq> ModelLoaded then best
      else if lm_Family info = family then
        (case best of
           None \<Rightarrow> Some info
         | Some b \<Rightarrow>
             if lm_Quantization info \<noteq> [] \<and> lm_Quantization b = [] then Some info
             else if lm_LastUsed info > lm_LastUsed b then Some info
             else best)
      else best)"

text \<open>\<open>ks\<close>: the order in which the table is visited.\<close>

definition FindCompatibleLocalModel :: "string list \<Rightarrow> string \<Rightarrow> ModelRegistry \<Rightarrow> LoadedModelInfo option" where
  "FindCompatibleLocalModel ks requested mr =
     (let family = extractModelFamily requested
      in if family = [] then None
         else foldl (better_match family) None (map (the \<circ> mr_localModels mr) ks))"

definition RegisterPeerModels :: "string \<Rightarrow> LoadedModelInfo list \<Rightarrow> ModelRegistry \<Rightarrow> ModelRegistry" where
  "RegisterPeerModels nodeID models mr =
     (let pm = (case mr_peerModels mr nodeID of None \<Rightarrow> Map.empty | Some pm \<Rightarrow> pm)
      in mr\<lparr>mr_peerModels := (mr_peerModels mr)(nodeID \<mapsto> foldl (\<lambda>pm i. pm(lm_Name i \<mapsto> i)) pm models)\<rparr>)"

definition RemovePeerModels :: "string \<Rightarrow> ModelRegistry \<Rightarrow> ModelRegistry" where
  "RemovePeerModels nodeID mr = mr\<lparr>mr_peerModels := (mr_peerModels mr)(nodeID := None)\<rparr>"

fun find_some :: "('a \<Rightarrow> 'b option) \<Rightarrow> 'a list \<Rightarrow> ('a \<times> 'b) option" where
  "find_some f [] = None"
| "find_some f (x # xs) = (case f x of Some y \<Rightarrow> Some (x, y) | None \<Rightarrow> find_some f xs)"

text \<open>\<open>ns\<close>: the order of the peers, \<open>ms n\<close> the order of the models of peer \<open>n\<close>; \<open>None\<close> stands for the empty node ID.\<close>

definition FindPeerWithLoadedModel :: "string list \<Rightarrow> string \<Rightarrow> ModelRegistry \<Rightarrow> (string \<times> LoadedModelInfo) option" where
  "FindPeerWithLoadedModel ns name mr =
     find_some (\<lambda>n. case the (mr_peerModels mr n) name of
       Some info \<Rightarrow> if lm_State info = ModelLoaded then Some info else None | None \<Rightarrow> None) ns"

definition FindPeerWithCompatibleModel ::
  "string list \<Rightarrow> (string \<Rightarrow> string list) \<Rightarrow> string \<Rightarrow> ModelRegistry \<Rightarrow> (string \<times> LoadedModelInfo) option" where
  "FindPeerWithCompatibleModel ns ms requested mr =
     (let family = extractModelFamily requested
      in if family = [] then None
         else find_some (\<lambda>n. find (\<lambda>info. lm_State info = ModelLoaded \<and> lm_Family info = family)
                (map (the \<circ> the (mr_peerModels mr n)) (ms n))) ns)"

definition GetAllLocalModels :: "string list \<Rightarrow> ModelRegistry \<Rightarrow> LoadedModelInfo list" where
  "GetAllLocalModels ks mr = map (the \<circ> mr_localModels mr) ks"

record RegistryStats =
  rs_local_models_loaded :: int
  rs_peer_models_tracked :: int
  rs_total_loads :: int
  rs_total_unloads :: int
  rs_load_failures :: int
  rs_family_groups :: int

definition registry_GetStats :: "string list \<Rightarrow> string list \<Rightarrow> ModelRegistry \<Rightarrow> RegistryStats" where
  "registry_GetStats ks ns mr =
     \<lparr>rs_local_models_loaded = int (length (filter (\<lambda>k. lm_State (the (mr_localModels mr k)) = ModelLoaded) ks)),
      rs_peer_models_tracked = foldl (\<lambda>c n. c + int (card (dom (the (mr_peerModels mr n))))) 0 ns,
      rs_total_loads = mr_totalLoads mr, rs_total_unloads = mr_totalUnloads mr,
      rs_load_failures = mr_loadFailures mr, rs_family_groups = int (card (dom (mr_modelFamilyGroups mr)))\<rparr>"

section \<open>Counters\<close>

inductive registry_step :: "ModelRegistry \<Rightarrow> ModelRegistry \<Rightarrow> bool" where
  reg: "registry_step mr (RegisterLocalModel server now name pr ep sz ctx mr)"
| unreg: "registry_step mr (UnregisterLocalModel name mr)"
| used: "registry_step mr (MarkModelUsed now name isLocal nodeID mr)"
| unused: "registry_step mr (DecrementRefCount name isLocal nodeID mr)"
| peers: "registry_step mr (RegisterPeerModels nodeID models mr)"
| unpeers: "registry_step mr (RemovePeerModels nodeID mr)"

definition registry_ok :: "ModelRegistry \<Rightarrow> bool" where
  "registry_ok mr \<longleftrightarrow> finite (dom (mr_localModels mr)) \<and>
     mr_totalLoads mr - mr_totalUnloads mr = int (card (dom (mr_localModels mr))) \<and>
     (\<forall>k i. mr_localModels mr k = Some i \<longrightarrow> lm_Name i = k \<and> 0 \<le> lm_RefCount i \<and> lm_State i = ModelLoaded)"

lemma addToFamilyGroup_frame [simp]:
  "mr_localModels (addToFamilyGroup k n mr) = mr_localModels mr" "mr_totalLoads (addToFamilyGroup k n mr) = mr_totalLoads mr"
  "mr_totalUnloads (addToFamilyGroup k n mr) = mr_totalUnloads mr"
  by (simp_all add: addToFamilyGroup_def split: option.splits)

lemma RegisterLocalModel_frame:
  "\<exists>i. mr_localModels (RegisterLocalModel server now name pr ep sz ctx mr) = (mr_localModels mr)(name \<mapsto> i) \<and>
     lm_Name i = name \<and> lm_RefCount i = 0 \<and> lm_State i = ModelLoaded"
  "mr_totalLoads (RegisterLocalModel server now name pr ep sz ctx mr)
     = mr_totalLoads mr + (if mr_localModels mr name = None then 1 else 0)"
  "mr_totalUnloads (RegisterLocalModel server now name pr ep sz ctx mr) = mr_totalUnloads mr"
  by (auto simp: RegisterLocalModel_def Let_def split: option.splits)

lemma registry_ok_update:
  assumes "registry_ok mr"
    and "\<And>i. lm_Name (f i) = lm_Name i \<and> lm_State (f i) = lm_State i \<and> (0 \<le> lm_RefCount i \<longrightarrow> 0 \<le> lm_RefCount (f i))"
  shows "registry_ok (update_info f name isLocal nodeID mr)"
proof (cases "isLocal \<and> mr_localModels mr name \<noteq> None")
  case True
  then obtain i where i: "mr_localModels mr name = Some i" by blast
  then have "dom ((mr_localModels mr)(name \<mapsto> f i)) = dom (mr_localModels mr)" by auto
  with True i assms show ?thesis by (auto simp: registry_ok_def update_info_def)
next
  case False
  have "mr_localModels (update_info f name isLocal nodeID mr) = mr_localModels mr"
    "mr_totalLoads (update_info f name isLocal nodeID mr) = mr_totalLoads mr"
    "mr_totalUnloads (update_info f name isLocal nodeID mr) = mr_totalUnloads mr"
    using False by (auto simp: update_info_def split: option.splits)
  with assms(1) show ?thesis by (simp add: registry_ok_def)
qed

lemma registry_ok_step: "registry_step mr mr' \<Longrightarrow> registry_ok mr \<Longrightarrow> registry_ok mr'"
proof (induction rule: registry_step.induct)
  case (reg mr server now name pr ep sz ctx)
  obtain i where i: "mr_localModels (RegisterLocalModel server now name pr ep sz ctx mr) = (mr_localModels mr)(name \<mapsto> i)"
    "lm_Name i = name" "lm_RefCount i = 0" "lm_State i = ModelLoaded"
    using RegisterLocalModel_frame(1) by blast
  have "card (insert name (dom (mr_localModels mr))) = card (dom (mr_localModels mr)) + (if mr_localModels mr name = None then 1 else 0)"
    using reg by (auto simp: registry_ok_def card_insert_if domIff)
  with reg i show ?case by (auto simp: registry_ok_def RegisterLocalModel_frame)
next
  case (unreg mr name)
  show ?case
  proof (cases "mr_localModels mr name")
    case None
    with unreg show ?thesis by (simp add: UnregisterLocalModel_def)
  next
    case (Some i)
    then have "name \<in> dom (mr_localModels mr)" by auto
    then have "int (card (dom (mr_localModels mr) - {name})) = int (card (dom (mr_localModels mr))) - 1"
      using unreg card_Suc_Diff1 [of "dom (mr_localModels mr)" name] by (simp add: registry_ok_def)
    with Some unreg show ?thesis by (auto simp: registry_ok_def UnregisterLocalModel_def split: if_splits)
  qed
next
  case (used mr now name isLocal nodeID)
  then show ?case unfolding MarkModelUsed_def by (intro registry_ok_update) auto
next
  case (unused mr name isLocal nodeID)
  then show ?case unfolding DecrementRefCount_def by (intro registry_ok_update) auto
next
  case (peers mr nodeID models)
  then show ?case by (simp add: registry_ok_def RegisterPeerModels_def Let_def)
next
  case (unpeers mr nodeID)
  then show ?case by (simp add: registry_ok_def RemovePeerModels_def)
qed

text \<open>
  In every state the registry can reach, the loads less the unloads it has counted are the number of models it lists as
  local; each of these is listed under its name as loaded, with a reference count that is not negative.
\<close>

theorem registry_balance:
  assumes "registry_step\<^sup>*\<^sup>* NewModelRegistry mr"
  shows "mr_totalLoads mr - mr_totalUnloads mr = int (card (dom (mr_localModels mr))) \<and>
    (\<forall>k i. mr_localModels mr k = Some i \<longrightarrow> lm_Name i = k \<and> 0 \<le> lm_RefCount i \<and> IsLoadedLocally k mr)"
proof -
  have "registry_ok mr" using assms
    by (induction rule: rtranclp_induct) (simp add: registry_ok_def NewModelRegistry_def, erule registry_ok_step)
  then show ?thesis by (auto simp: registry_ok_def IsLoadedLocally_def)
qed

section \<open>Finding a compatible model\<close>

definition compatible :: "string \<Rightarrow> LoadedModelInfo \<Rightarrow> bool" where
  "compatible family i \<longleftrightarrow> lm_State i = ModelLoaded \<and> lm_Family i = family"

lemma better_match_fold:
  assumes "case best of None \<Rightarrow> True | Some b \<Rightarrow> compatible fam b"
  shows "case foldl (better_match fam) best is of
      None \<Rightarrow> best = None \<and> (\<forall>i \<in> set is. \<not> compatible fam i)
    | Some b \<Rightarrow> compatible fam b \<and> (b \<in> set is \<or> best = Some b)"
  using assms
proof (induction "is" arbitrary: best)
  case (Cons i "is")
  have "case better_match fam best i of None \<Rightarrow> True | Some b \<Rightarrow> compatible fam b"
    using Cons.prems by (auto simp: better_match_def compatible_def split: option.splits)
  from Cons.IH [OF this] Cons.prems show ?case
    by (cases "foldl (better_match fam) (better_match fam best i) is")
      (auto simp: better_match_def compatible_def split: if_splits option.splits)
qed (auto split: option.splits)

text \<open>
  The search for a compatible local model, in whatever order the table is visited: it returns nothing exactly if no
  loaded model is of the requested family, and otherwise a local model that is loaded and of that family.
\<close>

theorem FindCompatible_correct:
  assumes "ranges ks (mr_localModels mr)" "extractModelFamily requested \<noteq> []"
  shows "case FindCompatibleLocalModel ks requested mr of
      None \<Rightarrow> \<not> (\<exists>k i. mr_localModels mr k = Some i \<and> lm_State i = ModelLoaded \<and> lm_Family i = extractModelFamily requested)
    | Some i \<Rightarrow> i \<in> ran (mr_localModels mr) \<and> lm_State i = ModelLoaded \<and> lm_Family i = extractModelFamily requested"
proof -
  let ?fam = "extractModelFamily requested" and ?is = "map (the \<circ> mr_localModels mr) ks"
  have set: "set ?is = ran (mr_localModels mr)" by (rule ranges_values [OF assms(1)])
  have "FindCompatibleLocalModel ks requested mr = foldl (better_match ?fam) None ?is"
    using assms(2) by (simp add: FindCompatibleLocalModel_def Let_def)
  moreover have "case foldl (better_match ?fam) None ?is of
      None \<Rightarrow> (None :: LoadedModelInfo option) = None \<and> (\<forall>i \<in> set ?is. \<not> compatible ?fam i)
    | Some b \<Rightarrow> compatible ?fam b \<and> (b \<in> set ?is \<or> (None :: LoadedModelInfo option) = Some b)"
    by (rule better_match_fold) simp
  ultimately show ?thesis unfolding set
    by (auto simp: compatible_def split: option.splits) (metis ranI)
qed

text \<open>The comment of \<^verbatim>\<open>extractModelFamily\<close> gives \<^verbatim>\<open>llama3\<close> as the family of this name; the code gives \<^verbatim>\<open>llama3.1\<close>.\<close>

lemma family_of_llama31: "extractModelFamily ''llama3.1:8b-instruct-q4_k_m'' = ''llama3.1''"
  by (simp add: extractModelFamily_def families_def has_prefix_def)

section \<open>Witnesses\<close>

definition sample_registry :: ModelRegistry where
  "sample_registry = RegisterLocalModel ''s'' 5 ''phi3:mini'' ''ollama'' ''http://x'' 0 4096 NewModelRegistry"

theorem registry_balance_witness:
  "registry_step\<^sup>*\<^sup>* NewModelRegistry sample_registry \<and> mr_totalLoads sample_registry - mr_totalUnloads sample_registry = 1"
proof -
  have r: "registry_step\<^sup>*\<^sup>* NewModelRegistry sample_registry"
    unfolding sample_registry_def by (rule r_into_rtranclp, rule registry_step.reg)
  have "dom (mr_localModels sample_registry) = {''phi3:mini''}"
    using RegisterLocalModel_frame(1) [of "''s''" 5 "''phi3:mini''" "''ollama''" "''http://x''" 0 4096 NewModelRegistry]
    by (auto simp: sample_registry_def NewModelRegistry_def split: if_splits)
  with registry_balance [OF r] r show ?thesis by simp
qed

theorem FindCompatible_correct_witness:
  "\<exists>i. FindCompatibleLocalModel [''phi3:mini''] ''phi3:medium'' sample_registry = Some i \<and> lm_Family i = ''phi3''"
proof -
  have fam: "extractModelFamily ''phi3:medium'' = ''phi3''" "extractModelFamily ''phi3:mini'' = ''phi3''"
    by (simp_all add: extractModelFamily_def families_def has_prefix_def)
  obtain i where i: "mr_localModels sample_registry ''phi3:mini'' = Some i" "dom (mr_localModels sample_registry) = {''phi3:mini''}"
      "lm_State i = ModelLoaded" "lm_Family i = ''phi3''"
    by (simp add: sample_registry_def RegisterLocalModel_def NewModelRegistry_def Let_def fam)
  then have r: "ranges [''phi3:mini''] (mr_localModels sample_registry)" by (simp add: ranges_def)
  from FindCompatible_correct [OF r, of "''phi3:medium''"] i show ?thesis
    by (auto simp: fam split: option.splits)
qed

end
