(* ===== verification/Mesh.thy ===== *)
theory Mesh
  imports Job_Model
begin

text \<open>
  Peer discovery, \<^verbatim>\<open>hive-server-go/mesh.go\<close>: the table of peers and everything that writes to it (beacons, seed probes, the
  exchange of peer lists, health polls, the cleanup), the choice of the peer a job is forwarded to, the addresses
  used for announcing and broadcasting, and the model map. What the network delivered is an argument. The theory
  shows that the chosen peer is the best one, when a peer is dropped, that the exchange of peer lists
  can keep a dead peer alive for ever, and that the model map is read back as written.
\<close>

section \<open>Data\<close>

record PeerInfo =
  pe_ServerID :: string
  pe_Endpoint :: string
  pe_MaxConcurrent :: int
  pe_OllamaModel :: string
  pe_LastSeen :: real
  pe_PendingJobs :: int
  pe_RunningJobs :: int
  pe_Clients :: int
  pe_AvailableCap :: int
  pe_Load :: real
  pe_Alive :: bool

record MeshDiscovery =
  ms_serverID :: string
  ms_serverPort :: int
  ms_discoveryPort :: int
  ms_maxConcurrent :: int
  ms_ollamaModel :: string
  ms_announceAddr :: string
  ms_modelMap :: "(string \<rightharpoonup> string) option"
  ms_peers :: "string \<rightharpoonup> PeerInfo"
  ms_peerModels :: "string \<rightharpoonup> string list"
  ms_peerModelsTime :: "string \<rightharpoonup> gotime"

section \<open>Small functions\<close>

definition getFloat :: "jobj \<Rightarrow> string \<Rightarrow> real \<Rightarrow> real" where
  "getFloat m key d = (case get_num m key of Some v \<Rightarrow> v | None \<Rightarrow> d)"

definition getStr :: "jobj \<Rightarrow> string \<Rightarrow> string" where
  "getStr m key = str_or_empty (get_str m key)"

definition calcLoad :: "int \<Rightarrow> int \<Rightarrow> int \<Rightarrow> real" where
  "calcLoad running pending maxC =
     (if maxC = 0 then 1
      else let ld = of_int (running + pending) / of_int maxC in if ld > 1 then 1 else ld)"

definition splitAndTrim :: "string \<Rightarrow> string \<Rightarrow> string list" where
  "splitAndTrim s sep = filter (\<lambda>p. p \<noteq> []) (map trim_space (str_split s sep))"

text \<open>\<open>host\<close>: the host that \<^verbatim>\<open>url.Parse\<close> finds in a text, if it parses and has one.\<close>

definition getSeedPeers :: "(string \<Rightarrow> string option) \<Rightarrow> string \<Rightarrow> string list" where
  "getSeedPeers host env = (if env = [] then []
     else map (\<lambda>p. case host p of Some h \<Rightarrow> h | None \<Rightarrow> p) (splitAndTrim env '',''))"

definition parseModelMap :: "string \<Rightarrow> (string \<rightharpoonup> string) option" where
  "parseModelMap raw = (if raw = [] then None
     else Some (foldl (\<lambda>m pair. case splitAndTrim pair ''->'' of [a, b] \<Rightarrow> m(a \<mapsto> b) | _ \<Rightarrow> m)
       Map.empty (splitAndTrim raw '','')))"

definition MapModel :: "string \<Rightarrow> MeshDiscovery \<Rightarrow> string" where
  "MapModel model m = (case ms_modelMap m of
     None \<Rightarrow> model | Some mm \<Rightarrow> (case mm model of Some mapped \<Rightarrow> mapped | None \<Rightarrow> model))"

definition GetModelMap :: "MeshDiscovery \<Rightarrow> (string \<rightharpoonup> string) option" where
  "GetModelMap m = ms_modelMap m"

section \<open>Addresses\<close>

text \<open>
  A network interface as the operating system reports it; an address that is no IP is \<open>None\<close>, and \<open>ip_v4\<close> says whether
  \<^verbatim>\<open>To4\<close> succeeds.
\<close>

record ip_addr =
  ip_v4 :: "8 word list option"
  ip_loopback :: bool
  ip_linklocal :: bool
  ip_text :: string

record net_iface =
  if_up :: bool
  if_loopback :: bool
  if_name :: string
  if_addrs :: "ip_addr option list option"

definition skipPrefixes :: "string list" where
  "skipPrefixes = [''docker'', ''br-'', ''veth'', ''virbr'', ''tun'', ''wg'', ''utun'', ''lo'', ''vmnet'', ''utun'']"

definition usable_iface :: "net_iface \<Rightarrow> bool" where
  "usable_iface i \<longleftrightarrow> if_up i \<and> \<not> if_loopback i \<and> if_name i \<noteq> [] \<and> \<not> list_ex (has_prefix (if_name i)) skipPrefixes"

definition usable_ip :: "ip_addr option \<Rightarrow> bool" where
  "usable_ip a = (case a of None \<Rightarrow> False
     | Some ip \<Rightarrow> \<not> ip_loopback ip \<and> ip_v4 ip \<noteq> None \<and> \<not> ip_linklocal ip)"

fun detectLocalIP_loop :: "net_iface list \<Rightarrow> string" where
  "detectLocalIP_loop [] = []"
| "detectLocalIP_loop (i # is) =
     (if \<not> usable_iface i then detectLocalIP_loop is
      else case if_addrs i of
          None \<Rightarrow> detectLocalIP_loop is
        | Some addrs \<Rightarrow> (case find usable_ip addrs of Some (Some ip) \<Rightarrow> ip_text ip | _ \<Rightarrow> detectLocalIP_loop is))"

definition detectLocalIP :: "net_iface list option \<Rightarrow> string" where
  "detectLocalIP ifaces = (case ifaces of None \<Rightarrow> [] | Some is \<Rightarrow> detectLocalIP_loop is)"

definition resolveAnnounceAddress ::
  "(string \<Rightarrow> string option) \<Rightarrow> string \<Rightarrow> net_iface list option \<Rightarrow> int \<Rightarrow> string" where
  "resolveAnnounceAddress host env ifaces serverPort =
     (if env \<noteq> [] then
        (if has_prefix env ''http://'' \<or> has_prefix env ''https://'' then env
         else case host (''http://'' @ env) of Some h \<Rightarrow> ''http://'' @ h | None \<Rightarrow> ''http://'' @ env)
      else let ip = detectLocalIP ifaces
           in if ip \<noteq> [] then ''http://'' @ ip @ '':'' @ dec_int serverPort
              else ''http://localhost:'' @ dec_int serverPort)"

unbundle bit_operations_syntax

text \<open>The broadcast address of a subnet, byte by byte; an address that is not IPv4 has none.\<close>

definition broadcastAddr :: "8 word list option \<Rightarrow> 8 word list \<Rightarrow> 8 word list option" where
  "broadcastAddr ip4 msk = map_option (\<lambda>b. map2 (\<lambda>x m. x OR NOT m) b msk) ip4"

definition IPv4bcast :: "8 word list" where
  "IPv4bcast = [255, 255, 255, 255]"

text \<open>Go's \<^verbatim>\<open>IP.DefaultMask\<close>: the mask of the address's class.\<close>

definition DefaultMask :: "8 word list \<Rightarrow> 8 word list" where
  "DefaultMask b = (if hd b < 0x80 then [255, 0, 0, 0] else if hd b < 0xC0 then [255, 255, 0, 0] else [255, 255, 255, 0])"

text \<open>The addresses a beacon is sent to.\<close>

definition iface_targets :: "net_iface \<Rightarrow> 8 word list list" where
  "iface_targets i =
     (if \<not> if_up i \<or> if_loopback i then []
      else case if_addrs i of
          None \<Rightarrow> []
        | Some addrs \<Rightarrow> concat (map (\<lambda>a. case a of
            Some ip \<Rightarrow> (if ip_loopback ip then [] else case ip_v4 ip of None \<Rightarrow> []
              | Some b \<Rightarrow> (case broadcastAddr (Some b) (DefaultMask b) of Some t \<Rightarrow> [t] | None \<Rightarrow> []))
          | None \<Rightarrow> []) addrs))"

definition broadcastOnAllInterfaces :: "net_iface list option \<Rightarrow> 8 word list list" where
  "broadcastOnAllInterfaces ifaces = (case ifaces of
     None \<Rightarrow> [IPv4bcast]
   | Some is \<Rightarrow> let ts = concat (map iface_targets is) in if ts = [] then [IPv4bcast] else ts)"

section \<open>The peer table\<close>

definition NewMeshDiscovery ::
  "(string \<Rightarrow> string option) \<Rightarrow> string \<Rightarrow> string \<Rightarrow> net_iface list option \<Rightarrow> string \<Rightarrow> int \<Rightarrow> int \<Rightarrow> int \<Rightarrow> string \<Rightarrow> MeshDiscovery" where
  "NewMeshDiscovery host env_addr env_map ifaces serverID serverPort discoveryPort maxConcurrent ollamaModel =
     \<lparr>ms_serverID = serverID, ms_serverPort = serverPort, ms_discoveryPort = discoveryPort,
      ms_maxConcurrent = maxConcurrent, ms_ollamaModel = ollamaModel,
      ms_announceAddr = resolveAnnounceAddress host env_addr ifaces serverPort, ms_modelMap = parseModelMap env_map,
      ms_peers = Map.empty, ms_peerModels = Map.empty, ms_peerModelsTime = Map.empty\<rparr>"

definition new_peer :: "string \<Rightarrow> string \<Rightarrow> int \<Rightarrow> string \<Rightarrow> gotime \<Rightarrow> PeerInfo" where
  "new_peer serverID endpoint maxC model t =
     \<lparr>pe_ServerID = serverID, pe_Endpoint = endpoint, pe_MaxConcurrent = maxC, pe_OllamaModel = model,
      pe_LastSeen = now_seconds t, pe_PendingJobs = 0, pe_RunningJobs = 0, pe_Clients = 0, pe_AvailableCap = 0,
      pe_Load = 0, pe_Alive = False\<rparr>"

definition put_peer :: "PeerInfo \<Rightarrow> MeshDiscovery \<Rightarrow> MeshDiscovery" where
  "put_peer p m = m\<lparr>ms_peers := (ms_peers m)(pe_ServerID p \<mapsto> p)\<rparr>"

text \<open>\<open>answer\<close>: the decoded list of a peer's peers, if it answered.\<close>

definition exchangePeers :: "gotime \<Rightarrow> PeerInfo list option \<Rightarrow> MeshDiscovery \<Rightarrow> MeshDiscovery" where
  "exchangePeers t answer m = (case answer of
     None \<Rightarrow> m
   | Some ps \<Rightarrow> foldl (\<lambda>m p. if pe_ServerID p \<noteq> ms_serverID m \<and> ms_peers m (pe_ServerID p) = None
       then put_peer (p\<lparr>pe_LastSeen := now_seconds t\<rparr>) m else m) m ps)"

definition introduceSelf :: "MeshDiscovery \<Rightarrow> jobj" where
  "introduceSelf m = [(''server_id'', JStr (ms_serverID m)), (''endpoint'', JStr (ms_announceAddr m)),
     (''max_concurrent'', JNum (of_int (ms_maxConcurrent m))), (''ollama_model'', JStr (ms_ollamaModel m))]"

text \<open>\<open>status\<close>: the decoded status of the seed, if it answered; \<open>answer\<close>: its peers, asked for afterwards.\<close>

definition probeSeed ::
  "gotime \<Rightarrow> gotime \<Rightarrow> string \<Rightarrow> jobj option \<Rightarrow> PeerInfo list option \<Rightarrow> MeshDiscovery \<Rightarrow> bool \<times> MeshDiscovery" where
  "probeSeed t t' addr status answer m = (case status of
     None \<Rightarrow> (False, m)
   | Some data \<Rightarrow>
       let serverID = getStr data ''server_id''
       in if serverID = [] \<or> serverID = ms_serverID m then (False, m)
          else let maxC = (case get_obj data ''queue'' of
                     Some q \<Rightarrow> (case get_num q ''max_concurrent'' of Some x \<Rightarrow> trunc_float x | None \<Rightarrow> 0) | None \<Rightarrow> 0);
                   m1 = put_peer (new_peer serverID (''http://'' @ addr) maxC (getStr data ''ollama_model'') t) m
               in (True, exchangePeers t' answer m1))"

definition Rescan :: "(gotime \<times> gotime \<times> string \<times> jobj option \<times> PeerInfo list option) list \<Rightarrow> MeshDiscovery \<Rightarrow> MeshDiscovery" where
  "Rescan probes m = foldl (\<lambda>m (t, t', addr, status, answer). snd (probeSeed t t' addr status answer m)) m probes"

text \<open>\<open>beacon\<close>: the decoded packet, if it is JSON; \<open>ip\<close>: where it came from.\<close>

definition upd_int :: "jobj \<Rightarrow> string \<Rightarrow> int \<Rightarrow> int" where
  "upd_int b key old = (case get_num b key of Some x \<Rightarrow> trunc_float x | None \<Rightarrow> old)"

definition beacon_update :: "jobj \<Rightarrow> gotime \<Rightarrow> PeerInfo \<Rightarrow> PeerInfo" where
  "beacon_update b t p =
     (let ann = getStr b ''announce_addr''
      in p\<lparr>pe_Endpoint := (if ann \<noteq> [] then ann else pe_Endpoint p), pe_LastSeen := now_seconds t,
           pe_MaxConcurrent := upd_int b ''max_concurrent'' (pe_MaxConcurrent p),
           pe_OllamaModel := (case get_str b ''ollama_model'' of Some s \<Rightarrow> s | None \<Rightarrow> pe_OllamaModel p),
           pe_PendingJobs := upd_int b ''pending_jobs'' (pe_PendingJobs p),
           pe_RunningJobs := upd_int b ''running_jobs'' (pe_RunningJobs p),
           pe_Clients := upd_int b ''clients'' (pe_Clients p),
           pe_AvailableCap := upd_int b ''available_capacity'' (pe_AvailableCap p)\<rparr>)"

definition handleBeacon :: "gotime \<Rightarrow> string \<Rightarrow> jobj option \<Rightarrow> MeshDiscovery \<Rightarrow> MeshDiscovery" where
  "handleBeacon t ip beacon m = (case beacon of
     None \<Rightarrow> m
   | Some b \<Rightarrow>
       let peerID = getStr b ''server_id'';
           ann = getStr b ''announce_addr'';
           endpoint = (if ann \<noteq> [] then ann
             else ''http://'' @ ip @ '':'' @ dec_int (trunc_float (getFloat b ''port'' 0)))
       in if peerID = [] \<or> peerID = ms_serverID m then m
          else (case ms_peers m peerID of
             Some p \<Rightarrow> m\<lparr>ms_peers := (ms_peers m)(peerID \<mapsto> beacon_update b t p)\<rparr>
           | None \<Rightarrow> m\<lparr>ms_peers := (ms_peers m)(peerID \<mapsto>
               (new_peer peerID endpoint (trunc_float (getFloat b ''max_concurrent'' 2)) (getStr b ''ollama_model'') t)\<lparr>
                 pe_PendingJobs := trunc_float (getFloat b ''pending_jobs'' 0),
                 pe_RunningJobs := trunc_float (getFloat b ''running_jobs'' 0),
                 pe_Clients := trunc_float (getFloat b ''clients'' 0),
                 pe_AvailableCap := trunc_float (getFloat b ''available_capacity'' 0)\<rparr>)\<rparr>))"

text \<open>The beacon sent; \<open>models\<close>: the local model names, \<open>q\<close>, \<open>cap\<close>, \<open>cl\<close>: the values of the callbacks, if set.\<close>

definition sendBeacon ::
  "(int \<times> int) option \<Rightarrow> int option \<Rightarrow> int option \<Rightarrow> string list \<Rightarrow> MeshDiscovery \<Rightarrow> jobj" where
  "sendBeacon q cap cl models m =
     [(''server_id'', JStr (ms_serverID m)), (''port'', JNum (of_int (ms_serverPort m))),
      (''announce_addr'', JStr (ms_announceAddr m)), (''max_concurrent'', JNum (of_int (ms_maxConcurrent m))),
      (''ollama_model'', JStr (ms_ollamaModel m))]
     @ (case q of Some (pending, running) \<Rightarrow>
          [(''pending_jobs'', JNum (of_int pending)), (''running_jobs'', JNum (of_int running))] | None \<Rightarrow> [])
     @ (case cap of Some c \<Rightarrow> [(''available_capacity'', JNum (of_int c))] | None \<Rightarrow> [])
     @ (case cl of Some c \<Rightarrow> [(''clients'', JNum (of_int c))] | None \<Rightarrow> [])
     @ (if models \<noteq> [] then [(''models'', JArr (map JStr models))] else [])"

text \<open>One tick of the cleanup, and the effect of a successful health poll of the peer with this ID.\<close>

definition timed_out :: "gotime \<Rightarrow> PeerInfo \<Rightarrow> bool" where
  "timed_out t p \<longleftrightarrow> pe_LastSeen p < now_seconds t - 30"

definition mesh_cleanup :: "gotime \<Rightarrow> string list \<Rightarrow> MeshDiscovery \<Rightarrow> MeshDiscovery" where
  "mesh_cleanup t ks m = m\<lparr>ms_peers := sweep (timed_out t) ks (ms_peers m)\<rparr>"

definition health_ok :: "gotime \<Rightarrow> string \<Rightarrow> MeshDiscovery \<Rightarrow> MeshDiscovery" where
  "health_ok t i m = (case ms_peers m i of
     None \<Rightarrow> m | Some p \<Rightarrow> m\<lparr>ms_peers := (ms_peers m)(i \<mapsto> p\<lparr>pe_LastSeen := now_seconds t\<rparr>)\<rparr>)"

definition RegisterPeer :: "gotime \<Rightarrow> string \<Rightarrow> string \<Rightarrow> int \<Rightarrow> string \<Rightarrow> MeshDiscovery \<Rightarrow> MeshDiscovery" where
  "RegisterPeer t serverID endpoint maxC model m = put_peer (new_peer serverID endpoint maxC model t) m"

definition UnregisterPeer :: "string \<Rightarrow> MeshDiscovery \<Rightarrow> MeshDiscovery" where
  "UnregisterPeer serverID m = m\<lparr>ms_peers := (ms_peers m)(serverID := None)\<rparr>"

section \<open>Choosing a peer\<close>

definition is_alive :: "gotime \<Rightarrow> PeerInfo \<Rightarrow> bool" where
  "is_alive t p \<longleftrightarrow> now_seconds t - pe_LastSeen p < 30"

definition refresh_peer :: "gotime \<Rightarrow> PeerInfo \<Rightarrow> PeerInfo" where
  "refresh_peer t p = (if is_alive t p
     then p\<lparr>pe_Alive := True, pe_AvailableCap := maxInt 0 (pe_MaxConcurrent p - pe_RunningJobs p),
       pe_Load := calcLoad (pe_RunningJobs p) (pe_PendingJobs p) (pe_MaxConcurrent p)\<rparr>
     else p)"

text \<open>The peers are updated in place, in the table, and those alive are returned.\<close>

definition GetAlivePeers :: "gotime \<Rightarrow> string list \<Rightarrow> MeshDiscovery \<Rightarrow> PeerInfo list \<times> MeshDiscovery" where
  "GetAlivePeers t ks m =
     (let m' = m\<lparr>ms_peers := visit (refresh_peer t) ks (ms_peers m)\<rparr>
      in (filter (is_alive t) (map (the \<circ> ms_peers m') ks), m'))"

definition better_peer :: "PeerInfo option \<Rightarrow> PeerInfo \<Rightarrow> PeerInfo option" where
  "better_peer best p =
     (if pe_AvailableCap p > 0 then
        (case best of
           None \<Rightarrow> Some p
         | Some b \<Rightarrow> if pe_Load p < pe_Load b \<or> (pe_Load p = pe_Load b \<and> pe_AvailableCap p > pe_AvailableCap b)
             then Some p else best)
      else best)"

definition GetBestPeer :: "gotime \<Rightarrow> string list \<Rightarrow> MeshDiscovery \<Rightarrow> PeerInfo option \<times> MeshDiscovery" where
  "GetBestPeer t ks m = (case GetAlivePeers t ks m of (alive, m') \<Rightarrow>
     (if length alive = 0 then None else foldl better_peer None alive, m'))"

definition GetPeersList :: "gotime \<Rightarrow> string list \<Rightarrow> MeshDiscovery \<Rightarrow> PeerInfo list \<times> MeshDiscovery" where
  "GetPeersList t ks m = GetAlivePeers t ks m"

record MeshDiag =
  di_server_id :: string
  di_discovery_port :: int
  di_server_port :: int
  di_announce_addr :: string
  di_peers_total :: int
  di_peers_alive :: int
  di_seed_peers :: "string list"
  di_model_map :: "(string \<rightharpoonup> string) option"

definition GetDiagnostics :: "gotime \<Rightarrow> string list \<Rightarrow> string list \<Rightarrow> MeshDiscovery \<Rightarrow> MeshDiag \<times> MeshDiscovery" where
  "GetDiagnostics t ks seeds m = (case GetAlivePeers t ks m of (alive, m') \<Rightarrow>
     (\<lparr>di_server_id = ms_serverID m', di_discovery_port = ms_discoveryPort m', di_server_port = ms_serverPort m',
       di_announce_addr = ms_announceAddr m', di_peers_total = int (card (dom (ms_peers m'))),
       di_peers_alive = int (length alive), di_seed_peers = seeds,
       di_model_map = (case ms_modelMap m' of Some mm \<Rightarrow> if dom mm \<noteq> {} then Some mm else None | None \<Rightarrow> None)\<rparr>, m'))"

text \<open>\<open>fetched\<close>: the decoded model IDs of the peer, if it answers; empty ones are dropped.\<close>

definition fetchPeerModelNames :: "string list option \<Rightarrow> string list" where
  "fetchPeerModelNames fetched = (case fetched of None \<Rightarrow> [] | Some ids \<Rightarrow> filter (\<lambda>i. i \<noteq> []) ids)"

definition GetCachedPeerModels ::
  "gotime \<Rightarrow> gotime \<Rightarrow> string list option \<Rightarrow> PeerInfo \<Rightarrow> MeshDiscovery \<Rightarrow> string list \<times> MeshDiscovery" where
  "GetCachedPeerModels t t' fetched peer m =
     (let i = pe_ServerID peer;
          lastFetch = (case ms_peerModelsTime m i of Some x \<Rightarrow> x | None \<Rightarrow> 0)
      in case ms_peerModels m i of
           Some models \<Rightarrow>
             if t - lastFetch < 30 * second then (models, m)
             else (fetchPeerModelNames fetched, m\<lparr>ms_peerModels := (ms_peerModels m)(i \<mapsto> fetchPeerModelNames fetched),
               ms_peerModelsTime := (ms_peerModelsTime m)(i \<mapsto> t')\<rparr>)
         | None \<Rightarrow> (fetchPeerModelNames fetched, m\<lparr>ms_peerModels := (ms_peerModels m)(i \<mapsto> fetchPeerModelNames fetched),
               ms_peerModelsTime := (ms_peerModelsTime m)(i \<mapsto> t')\<rparr>))"

section \<open>When a peer is dropped\<close>

interpretation peer_table: map_sweeper ms_peers mesh_cleanup "\<lambda>m. timed_out"
proof
  fix t t' m p
  show "ms_peers (mesh_cleanup t ks m) = sweep (timed_out t) ks (ms_peers m)" for ks
    by (simp add: mesh_cleanup_def)
  show "timed_out t' p" if "timed_out t p" "t \<le> t'"
    using that now_seconds_mono [of t t'] by (simp add: timed_out_def)
qed simp

lemma broadcast_classful:
  "broadcastAddr (Some [10, 1, 2, 3]) (DefaultMask [10, 1, 2, 3]) = Some [10, 255, 255, 255]"
  "broadcastAddr (Some [10, 1, 2, 3]) [255, 255, 255, 0] = Some [10, 1, 2, 255]"
  by (simp_all add: broadcastAddr_def DefaultMask_def)

section \<open>The best peer\<close>

lemma calcLoad_bounds: "0 \<le> running \<Longrightarrow> 0 \<le> pending \<Longrightarrow> 0 \<le> maxC \<Longrightarrow> 0 \<le> calcLoad running pending maxC \<and> calcLoad running pending maxC \<le> 1"
  by (simp add: calcLoad_def Let_def)

definition peer_le :: "PeerInfo \<Rightarrow> PeerInfo \<Rightarrow> bool" where
  "peer_le b p \<longleftrightarrow> pe_Load b < pe_Load p \<or> (pe_Load b = pe_Load p \<and> pe_AvailableCap p \<le> pe_AvailableCap b)"

lemma better_peer_fold:
  assumes "case best of None \<Rightarrow> True | Some b \<Rightarrow> pe_AvailableCap b > 0"
  shows "case foldl better_peer best ps of
      None \<Rightarrow> best = None \<and> (\<forall>p \<in> set ps. pe_AvailableCap p \<le> 0)
    | Some b \<Rightarrow> pe_AvailableCap b > 0 \<and> (b \<in> set ps \<or> best = Some b) \<and>
        (\<forall>p \<in> set ps. pe_AvailableCap p > 0 \<longrightarrow> peer_le b p) \<and> (\<forall>b0. best = Some b0 \<longrightarrow> peer_le b b0)"
  using assms
proof (induction ps arbitrary: best)
  case (Cons p ps)
  have ok: "case better_peer best p of None \<Rightarrow> True | Some b \<Rightarrow> pe_AvailableCap b > 0"
    using Cons.prems by (auto simp: better_peer_def split: option.splits)
  have le: "pe_AvailableCap p > 0 \<Longrightarrow> \<exists>b1. better_peer best p = Some b1 \<and> peer_le b1 p"
    "best = Some b0 \<Longrightarrow> \<exists>b1. better_peer best p = Some b1 \<and> peer_le b1 b0"
    "better_peer best p = Some b1 \<Longrightarrow> b1 = p \<and> pe_AvailableCap p > 0 \<or> best = Some b1"
    "better_peer best p = None \<Longrightarrow> best = None \<and> pe_AvailableCap p \<le> 0" for b0 b1
    by (auto simp: better_peer_def peer_le_def split: option.splits if_splits)
  have trans: "peer_le a b \<Longrightarrow> peer_le b c \<Longrightarrow> peer_le a c" for a b c by (auto simp: peer_le_def)
  show ?case
  proof (cases "foldl better_peer (better_peer best p) ps")
    case None
    with Cons.IH [OF ok] le(4) show ?thesis by auto
  next
    case (Some b)
    with Cons.IH [OF ok] have b: "pe_AvailableCap b > 0" "b \<in> set ps \<or> better_peer best p = Some b"
      "\<forall>q \<in> set ps. pe_AvailableCap q > 0 \<longrightarrow> peer_le b q" "\<And>b1. better_peer best p = Some b1 \<Longrightarrow> peer_le b b1"
      by auto
    have "peer_le b p" if "pe_AvailableCap p > 0" using le(1) [OF that] b(4) trans by blast
    moreover have "peer_le b b0" if "best = Some b0" for b0 using le(2) [OF that] b(4) trans by blast
    ultimately show ?thesis using Some b le(3) by auto
  qed
qed (auto simp: peer_le_def split: option.splits)

lemma refresh_alive [simp]: "is_alive t (refresh_peer t p) = is_alive t p"
  by (simp add: refresh_peer_def is_alive_def)

lemma GetAlivePeers_set:
  assumes "ranges ks (ms_peers m)"
  shows "set (fst (GetAlivePeers t ks m)) = {refresh_peer t p | p. p \<in> ran (ms_peers m) \<and> is_alive t p}"
proof -
  have "map (the \<circ> visit (refresh_peer t) ks (ms_peers m)) ks = map (\<lambda>k. refresh_peer t (the (ms_peers m k))) ks"
    using assms by (auto simp: visit_ranges ranges_def domIff)
  moreover have "(\<lambda>k. the (ms_peers m k)) ` set ks = ran (ms_peers m)"
    using ranges_values [OF assms] by (simp add: o_def)
  ultimately show ?thesis by (force simp: GetAlivePeers_def Let_def)
qed

text \<open>
  C12. The peer a job is forwarded to, in whatever order the table is visited: no peer exactly if no peer heard of in the last 30
  seconds has capacity left; otherwise such a peer of least load, and among those of least load one with most
  capacity left. Load and capacity are the ones computed from the running and pending jobs last reported.
\<close>

theorem GetBestPeer_optimal:
  assumes "ranges ks (ms_peers m)"
  shows "case fst (GetBestPeer t ks m) of
      None \<Rightarrow> \<forall>p \<in> ran (ms_peers m). is_alive t p \<longrightarrow> pe_MaxConcurrent p \<le> pe_RunningJobs p
    | Some b \<Rightarrow> \<exists>p0 \<in> ran (ms_peers m). is_alive t p0 \<and> b = refresh_peer t p0 \<and> pe_RunningJobs p0 < pe_MaxConcurrent p0 \<and>
        (\<forall>p \<in> ran (ms_peers m). is_alive t p \<and> pe_RunningJobs p < pe_MaxConcurrent p \<longrightarrow>
           calcLoad (pe_RunningJobs p0) (pe_PendingJobs p0) (pe_MaxConcurrent p0)
             < calcLoad (pe_RunningJobs p) (pe_PendingJobs p) (pe_MaxConcurrent p) \<or>
           (calcLoad (pe_RunningJobs p0) (pe_PendingJobs p0) (pe_MaxConcurrent p0)
             = calcLoad (pe_RunningJobs p) (pe_PendingJobs p) (pe_MaxConcurrent p) \<and>
            pe_MaxConcurrent p - pe_RunningJobs p \<le> pe_MaxConcurrent p0 - pe_RunningJobs p0))"
proof -
  let ?alive = "fst (GetAlivePeers t ks m)"
  have best: "fst (GetBestPeer t ks m) = foldl better_peer None ?alive"
    by (simp add: GetBestPeer_def case_prod_unfold)
  have F: "case foldl better_peer None ?alive of
      None \<Rightarrow> (None :: PeerInfo option) = None \<and> (\<forall>p \<in> set ?alive. pe_AvailableCap p \<le> 0)
    | Some b \<Rightarrow> pe_AvailableCap b > 0 \<and> (b \<in> set ?alive \<or> (None :: PeerInfo option) = Some b) \<and>
        (\<forall>p \<in> set ?alive. pe_AvailableCap p > 0 \<longrightarrow> peer_le b p) \<and>
        (\<forall>b0. (None :: PeerInfo option) = Some b0 \<longrightarrow> peer_le b b0)"
    by (rule better_peer_fold) simp
  have R: "pe_AvailableCap (refresh_peer t p) = maxInt 0 (pe_MaxConcurrent p - pe_RunningJobs p)"
    "pe_Load (refresh_peer t p) = calcLoad (pe_RunningJobs p) (pe_PendingJobs p) (pe_MaxConcurrent p)" if "is_alive t p" for p
    using that by (simp_all add: refresh_peer_def)
  show ?thesis
  proof (cases "foldl better_peer None ?alive")
    case None
    then have none: "\<forall>p \<in> set ?alive. pe_AvailableCap p \<le> 0" using F by simp
    have "pe_MaxConcurrent p \<le> pe_RunningJobs p" if "p \<in> ran (ms_peers m)" "is_alive t p" for p
    proof -
      have "refresh_peer t p \<in> set ?alive" using that unfolding GetAlivePeers_set [OF assms] by blast
      with none R [OF that(2)] show ?thesis by (auto simp: maxInt_def split: if_splits)
    qed
    with None best show ?thesis by simp
  next
    case (Some b)
    with F have b: "pe_AvailableCap b > 0" "b \<in> set ?alive" "\<forall>p \<in> set ?alive. pe_AvailableCap p > 0 \<longrightarrow> peer_le b p"
      by simp_all
    from b(2) obtain p0 where p0: "p0 \<in> ran (ms_peers m)" "is_alive t p0" "b = refresh_peer t p0"
      unfolding GetAlivePeers_set [OF assms] by blast
    have cap0: "pe_RunningJobs p0 < pe_MaxConcurrent p0" using b(1) p0 R [OF p0(2)] by (simp add: maxInt_def split: if_splits)
    have "peer_le b (refresh_peer t p)"
      if "p \<in> ran (ms_peers m)" "is_alive t p" "pe_RunningJobs p < pe_MaxConcurrent p" for p
    proof -
      have "refresh_peer t p \<in> set ?alive" using that unfolding GetAlivePeers_set [OF assms] by blast
      with b(3) R [OF that(2)] that(3) show ?thesis by (simp add: maxInt_def)
    qed
    then show ?thesis using Some best p0 cap0 R by (auto simp: peer_le_def maxInt_def split: if_splits intro!: bexI [of _ p0])
  qed
qed

section \<open>Gossip about a dead peer\<close>

lemma now_seconds_add: "now_seconds (t + k * second) = now_seconds t + of_int k"
proof -
  have "(t + k * second) div 1000000 = t div 1000000 + k * 1000"
    using div_mult_self2 [of 1000000 t "k * 1000"] by (simp add: mult.assoc)
  then show ?thesis by (simp add: now_seconds_def add_divide_distrib)
qed

lemma now_secs:
  "now_seconds (t + 15000000000) = now_seconds t + 15" "now_seconds (t + 40000000000) = now_seconds t + 40"
  "now_seconds (t + 44000000000) = now_seconds t + 44" "now_seconds (t + 50000000000) = now_seconds t + 50"
  using now_seconds_add [of t 15] now_seconds_add [of t 40] now_seconds_add [of t 44] now_seconds_add [of t 50]
  by simp_all

lemma exchange_frame: "ms_serverID (exchangePeers t ans m) = ms_serverID m"
proof -
  have "ms_serverID (foldl (\<lambda>m p. if pe_ServerID p \<noteq> ms_serverID m \<and> ms_peers m (pe_ServerID p) = None
       then put_peer (p\<lparr>pe_LastSeen := now_seconds t\<rparr>) m else m) m ps) = ms_serverID m" for ps m
    by (induction ps arbitrary: m) (auto simp: put_peer_def)
  then show ?thesis by (simp add: exchangePeers_def split: option.splits)
qed

lemma exchange_keeps: "ms_peers m i = Some q \<Longrightarrow> ms_peers (exchangePeers t ans m) i = Some q"
proof -
  have "ms_peers m i = Some q \<Longrightarrow> ms_peers (foldl (\<lambda>m p. if pe_ServerID p \<noteq> ms_serverID m \<and> ms_peers m (pe_ServerID p) = None
       then put_peer (p\<lparr>pe_LastSeen := now_seconds t\<rparr>) m else m) m ps) i = Some q" for ps m
  proof (induction ps arbitrary: m)
    case (Cons p ps)
    let ?m = "if pe_ServerID p \<noteq> ms_serverID m \<and> ms_peers m (pe_ServerID p) = None
       then put_peer (p\<lparr>pe_LastSeen := now_seconds t\<rparr>) m else m"
    have "ms_peers ?m i = Some q" using Cons.prems by (auto simp: put_peer_def)
    from Cons.IH [OF this] show ?case by simp
  qed simp
  then show "ms_peers m i = Some q \<Longrightarrow> ms_peers (exchangePeers t ans m) i = Some q"
    by (simp add: exchangePeers_def split: option.splits)
qed

lemma exchange_finite: "finite (dom (ms_peers m)) \<Longrightarrow> finite (dom (ms_peers (exchangePeers t ans m)))"
proof -
  have "finite (dom (ms_peers m)) \<Longrightarrow> finite (dom (ms_peers (foldl (\<lambda>m p. if pe_ServerID p \<noteq> ms_serverID m \<and> ms_peers m (pe_ServerID p) = None
       then put_peer (p\<lparr>pe_LastSeen := now_seconds t\<rparr>) m else m) m ps)))" for ps m
    by (induction ps arbitrary: m) (auto simp: put_peer_def)
  then show "finite (dom (ms_peers m)) \<Longrightarrow> ?thesis" by (simp add: exchangePeers_def split: option.splits)
qed

text \<open>A peer heard of for the first time counts as seen now, though nothing came from it.\<close>

lemma exchange_learns:
  assumes "i \<in> pe_ServerID ` set ps" "i \<noteq> ms_serverID m" "ms_peers m i = None"
  shows "\<exists>p. ms_peers (exchangePeers t (Some ps) m) i = Some p \<and> pe_LastSeen p = now_seconds t \<and> pe_ServerID p = i"
  using assms
proof (induction ps arbitrary: m)
  case (Cons p ps)
  let ?p = "p\<lparr>pe_LastSeen := now_seconds t\<rparr>"
  show ?case
  proof (cases "pe_ServerID p = i")
    case True
    then have "exchangePeers t (Some (p # ps)) m = exchangePeers t (Some ps) (put_peer ?p m)"
      using Cons.prems by (simp add: exchangePeers_def)
    moreover have "ms_peers (put_peer ?p m) i = Some ?p" using True by (simp add: put_peer_def)
    ultimately show ?thesis using True exchange_keeps by auto
  next
    case False
    let ?m = "if pe_ServerID p \<noteq> ms_serverID m \<and> ms_peers m (pe_ServerID p) = None then put_peer ?p m else m"
    have "exchangePeers t (Some (p # ps)) m = exchangePeers t (Some ps) ?m" by (simp add: exchangePeers_def)
    moreover have "ms_peers ?m i = None" "ms_serverID ?m = ms_serverID m" using False Cons.prems by (auto simp: put_peer_def)
    ultimately show ?thesis using Cons.IH [of ?m] Cons.prems False by auto
  qed
qed simp

text \<open>
  One round between two servers that are each other's seed: the second asks the first for its peers, the first drops
  what timed out, asks the second for its peers, and the second drops what timed out. All within 50 seconds;
  nobody else takes part.
\<close>

definition gossip_round :: "gotime \<Rightarrow> MeshDiscovery \<times> MeshDiscovery \<Rightarrow> MeshDiscovery \<times> MeshDiscovery \<Rightarrow> bool" where
  "gossip_round t = (\<lambda>(a, b) (a', b'). \<exists>ks1 ks2 ks3 ks4 la a1 b1 a2 lb b2.
     ranges ks1 (ms_peers a) \<and> GetPeersList (t + 15 * second) ks1 a = (la, a1) \<and>
     b1 = exchangePeers (t + 15 * second) (Some la) b \<and>
     ranges ks2 (ms_peers a1) \<and> a2 = mesh_cleanup (t + 40 * second) ks2 a1 \<and>
     ranges ks3 (ms_peers b1) \<and> GetPeersList (t + 44 * second) ks3 b1 = (lb, b2) \<and>
     a' = exchangePeers (t + 44 * second) (Some lb) a2 \<and>
     ranges ks4 (ms_peers b2) \<and> b' = mesh_cleanup (t + 50 * second) ks4 b2)"

fun gossip_rounds :: "nat \<Rightarrow> gotime \<Rightarrow> MeshDiscovery \<times> MeshDiscovery \<Rightarrow> MeshDiscovery \<times> MeshDiscovery \<Rightarrow> bool" where
  "gossip_rounds 0 t x y \<longleftrightarrow> x = y"
| "gossip_rounds (Suc n) t x y \<longleftrightarrow> (\<exists>z. gossip_round t x z \<and> gossip_rounds n (t + 44 * second) z y)"

text \<open>The first server has seen peer \<open>i\<close> at \<open>t\<close>, the second does not know it.\<close>

definition knows_ghost :: "string \<Rightarrow> gotime \<Rightarrow> MeshDiscovery \<times> MeshDiscovery \<Rightarrow> bool" where
  "knows_ghost i t = (\<lambda>(a, b). i \<noteq> ms_serverID a \<and> i \<noteq> ms_serverID b \<and> finite (dom (ms_peers a)) \<and> finite (dom (ms_peers b)) \<and>
     (\<exists>p. ms_peers a i = Some p \<and> pe_LastSeen p = now_seconds t \<and> pe_ServerID p = i) \<and> ms_peers b i = None)"

lemma ranges_exists: "finite (dom m) \<Longrightarrow> \<exists>ks. ranges ks m"
  unfolding ranges_def by (metis finite_distinct_list)

lemma GetPeersList_frame:
  assumes "ranges ks (ms_peers m)" "GetPeersList t ks m = (ps, m')"
  shows "ms_serverID m' = ms_serverID m" "dom (ms_peers m') = dom (ms_peers m)"
    and "ms_peers m i = Some p \<Longrightarrow> ms_peers m' i = Some (refresh_peer t p)"
    and "ms_peers m i = Some p \<Longrightarrow> is_alive t p \<Longrightarrow> pe_ServerID p = i \<Longrightarrow> i \<in> pe_ServerID ` set ps"
proof -
  have m': "m' = m\<lparr>ms_peers := visit (refresh_peer t) ks (ms_peers m)\<rparr>" and ps: "ps = fst (GetAlivePeers t ks m)"
    using assms(2) by (auto simp: GetPeersList_def GetAlivePeers_def Let_def)
  show "ms_serverID m' = ms_serverID m" by (simp add: m')
  show "dom (ms_peers m') = dom (ms_peers m)"
    using visit_ranges [OF assms(1)] by (auto simp: m' dom_def)
  show "ms_peers m' i = Some (refresh_peer t p)" if "ms_peers m i = Some p"
    using visit_ranges [OF assms(1)] that by (simp add: m')
  show "i \<in> pe_ServerID ` set ps" if "ms_peers m i = Some p" "is_alive t p" "pe_ServerID p = i"
  proof -
    have "refresh_peer t p \<in> set ps" unfolding ps GetAlivePeers_set [OF assms(1)] using that by (auto simp: ran_def)
    moreover have "pe_ServerID (refresh_peer t p) = i" using that(3) by (simp add: refresh_peer_def)
    ultimately show ?thesis by (metis image_eqI)
  qed
qed

lemma refresh_LastSeen [simp]: "pe_LastSeen (refresh_peer t p) = pe_LastSeen p" "pe_ServerID (refresh_peer t p) = pe_ServerID p"
  by (simp_all add: refresh_peer_def)

lemma cleanup_frame: "finite (dom (ms_peers m)) \<Longrightarrow> finite (dom (ms_peers (mesh_cleanup t ks m)))"
  "ms_serverID (mesh_cleanup t ks m) = ms_serverID m"
proof -
  have "dom (ms_peers (mesh_cleanup t ks m)) \<subseteq> dom (ms_peers m)"
    by (auto simp: mesh_cleanup_def sweep_apply split: option.splits if_splits)
  then show "finite (dom (ms_peers m)) \<Longrightarrow> finite (dom (ms_peers (mesh_cleanup t ks m)))" by (rule finite_subset)
qed (simp add: mesh_cleanup_def)

lemma ghost_round:
  assumes "knows_ghost i t x"
  shows "\<exists>y. gossip_round t x y \<and> knows_ghost i (t + 44 * second) y"
proof -
  obtain a b where x: "x = (a, b)" by (cases x)
  with assms obtain p where a: "i \<noteq> ms_serverID a" "i \<noteq> ms_serverID b" "finite (dom (ms_peers a))" "finite (dom (ms_peers b))"
      "ms_peers a i = Some p" "pe_LastSeen p = now_seconds t" "pe_ServerID p = i" "ms_peers b i = None"
    by (auto simp: knows_ghost_def)
  obtain ks1 where k1: "ranges ks1 (ms_peers a)" using ranges_exists [OF a(3)] by blast
  obtain la a1 where la: "GetPeersList (t + 15 * second) ks1 a = (la, a1)" by (metis surj_pair)
  note A1 = GetPeersList_frame [OF k1 la]
  have "i \<in> pe_ServerID ` set la"
    using A1(4) [OF a(5)] a(6,7) by (simp add: is_alive_def now_secs)
  then obtain p1 where p1: "ms_peers (exchangePeers (t + 15 * second) (Some la) b) i = Some p1"
      "pe_LastSeen p1 = now_seconds (t + 15 * second)" "pe_ServerID p1 = i"
    using exchange_learns a(2,8) by blast
  let ?b1 = "exchangePeers (t + 15 * second) (Some la) b"
  have fa1: "finite (dom (ms_peers a1))" using a(3) A1(2) by simp
  obtain ks2 where k2: "ranges ks2 (ms_peers a1)" using ranges_exists [OF fa1] by blast
  let ?a2 = "mesh_cleanup (t + 40 * second) ks2 a1"
  have a2: "ms_peers ?a2 i = None"
    using peer_table.tick_exact [OF k2, of "t + 40 * second" i] A1(3) [OF a(5)] a(6)
    by (cases "ms_peers ?a2 i") (auto simp: timed_out_def now_secs)
  have fb1: "finite (dom (ms_peers ?b1))" by (rule exchange_finite [OF a(4)])
  obtain ks3 where k3: "ranges ks3 (ms_peers ?b1)" using ranges_exists [OF fb1] by blast
  obtain lb b2 where lb: "GetPeersList (t + 44 * second) ks3 ?b1 = (lb, b2)" by (metis surj_pair)
  note B2 = GetPeersList_frame [OF k3 lb]
  have "i \<in> pe_ServerID ` set lb"
    using B2(4) [OF p1(1)] p1(2,3) by (simp add: is_alive_def now_secs)
  moreover have "i \<noteq> ms_serverID ?a2" using a(1) A1(1) by (simp add: mesh_cleanup_def)
  ultimately obtain p2 where p2: "ms_peers (exchangePeers (t + 44 * second) (Some lb) ?a2) i = Some p2"
      "pe_LastSeen p2 = now_seconds (t + 44 * second)" "pe_ServerID p2 = i"
    using exchange_learns a2 by blast
  have fb2: "finite (dom (ms_peers b2))" using fb1 B2(2) by simp
  obtain ks4 where k4: "ranges ks4 (ms_peers b2)" using ranges_exists [OF fb2] by blast
  let ?b3 = "mesh_cleanup (t + 50 * second) ks4 b2"
  have b3: "ms_peers ?b3 i = None"
    using peer_table.tick_exact [OF k4, of "t + 50 * second" i] B2(3) [OF p1(1)] p1(2)
    by (cases "ms_peers ?b3 i") (auto simp: timed_out_def now_secs)
  have round: "gossip_round t x (exchangePeers (t + 44 * second) (Some lb) ?a2, ?b3)"
    unfolding gossip_round_def x prod.case using k1 la k2 k3 lb k4 by blast
  moreover have "knows_ghost i (t + 44 * second) (exchangePeers (t + 44 * second) (Some lb) ?a2, ?b3)"
    unfolding knows_ghost_def
    using a(1,2) A1(1) B2(1) p2 b3 exchange_finite [OF cleanup_frame(1) [OF fa1]] cleanup_frame(1) [OF fb2]
    by (auto simp: exchange_frame cleanup_frame(2))
  ultimately show ?thesis by blast
qed

text \<open>
  A dead peer can stay for ever. If one of two servers that are each other's seeds has seen a peer, then for any number of
  rounds there is a run in which that peer sends nothing and answers nothing, every entry is dropped when it
  times out, and the peer is still listed as alive: each server learns it again from the other, with the
  present as the time it was last seen.
\<close>

theorem ghost_peer_forever:
  assumes "knows_ghost i t x"
  shows "\<exists>a b. gossip_rounds n t x (a, b) \<and>
    (\<forall>ks. ranges ks (ms_peers a) \<longrightarrow> i \<in> pe_ServerID ` set (fst (GetPeersList (t + int n * 44 * second) ks a)))"
  using assms
proof (induction n arbitrary: t x)
  case 0
  obtain a b where x: "x = (a, b)" by (cases x)
  have "i \<in> pe_ServerID ` set (fst (GetPeersList t ks a))" if k: "ranges ks (ms_peers a)" for ks
  proof -
    obtain ps m' where ps: "GetPeersList t ks a = (ps, m')" by (metis surj_pair)
    from 0 x show ?thesis using GetPeersList_frame(4) [OF k ps, of i] by (auto simp: knows_ghost_def is_alive_def ps)
  qed
  with x show ?case by auto
next
  case (Suc n)
  obtain y where y: "gossip_round t x y" "knows_ghost i (t + 44 * second) y" using ghost_round [OF Suc.prems] by blast
  have eq: "t + 44 * second + int n * 44 * second = t + int (Suc n) * 44 * second" by (simp add: algebra_simps)
  from Suc.IH [OF y(2)] obtain a b where "gossip_rounds n (t + 44 * second) y (a, b)"
    "\<forall>ks. ranges ks (ms_peers a) \<longrightarrow> i \<in> pe_ServerID ` set (fst (GetPeersList (t + 44 * second + int n * 44 * second) ks a))"
    by blast
  moreover from this(1) y(1) have "gossip_rounds (Suc n) t x (a, b)" by (cases y) auto
  ultimately show ?case unfolding eq by blast
qed

section \<open>The model map\<close>

lemma split_comma:
  assumes "c \<notin> set s"
  shows "str_split_aux [c] acc s = [rev acc @ s]" "str_split_aux [c] acc (s @ c # r) = (rev acc @ s) # str_split_aux [c] [] r"
  using assms by (induction s arbitrary: acc) (auto simp: has_prefix_def)

lemma split_arrow_conj:
  "CHR ''>'' \<notin> set s \<Longrightarrow> str_split_aux ''->'' acc s = [rev acc @ s] \<and>
     str_split_aux ''->'' acc (s @ ''->'' @ r) = (rev acc @ s) # str_split_aux ''->'' [] r"
proof (induction s arbitrary: acc)
  case Nil
  then show ?case by (simp add: has_prefix_def)
next
  case (Cons x xs)
  have "\<not> has_prefix (x # xs) ''->''" "\<not> has_prefix (x # xs @ ''->'' @ r) ''->''"
    using Cons.prems by (cases xs; auto simp: has_prefix_def)+
  with Cons show ?case by auto
qed

lemmas split_arrow = split_arrow_conj [THEN conjunct1] split_arrow_conj [THEN conjunct2]

text \<open>Names without spaces, commas and the character that ends an arrow.\<close>

definition plain_name :: "string \<Rightarrow> bool" where
  "plain_name s \<longleftrightarrow> s \<noteq> [] \<and> (\<forall>c \<in> set s. \<not> is_space c \<and> c \<noteq> CHR '','' \<and> c \<noteq> CHR ''>'')"

definition render_pair :: "string \<times> string \<Rightarrow> string" where
  "render_pair = (\<lambda>(a, b). a @ ''->'' @ b)"

fun render_map :: "(string \<times> string) list \<Rightarrow> string" where
  "render_map [] = []"
| "render_map [p] = render_pair p"
| "render_map (p # q # ps) = render_pair p @ CHR '','' # render_map (q # ps)"

lemma trim_space_none: "\<forall>c \<in> set s. \<not> is_space c \<Longrightarrow> trim_space s = s"
proof -
  have d: "dropWhile P s = s" if "\<forall>c \<in> set s. \<not> P c" for P and s :: string using that by (cases s) auto
  show "\<forall>c \<in> set s. \<not> is_space c \<Longrightarrow> trim_space s = s"
    using d [of s is_space] d [of "rev s" is_space] by (simp add: trim_space_def)
qed

lemma render_pair_plain:
  assumes "plain_name a" "plain_name b"
  shows "CHR '','' \<notin> set (render_pair (a, b))" "trim_space (render_pair (a, b)) = render_pair (a, b)"
    "render_pair (a, b) \<noteq> []" "splitAndTrim (render_pair (a, b)) ''->'' = [a, b]"
proof -
  from assms show "CHR '','' \<notin> set (render_pair (a, b))" "render_pair (a, b) \<noteq> []"
    by (auto simp: plain_name_def render_pair_def)
  from assms show "trim_space (render_pair (a, b)) = render_pair (a, b)"
    by (intro trim_space_none) (auto simp: plain_name_def render_pair_def is_space_def)
  have gt: "CHR ''>'' \<notin> set a" "CHR ''>'' \<notin> set b" using assms by (auto simp: plain_name_def)
  have "str_split (a @ ''->'' @ b) ''->'' = [a, b]"
    unfolding str_split_def split_arrow(2) [OF gt(1)] split_arrow(1) [OF gt(2)] by simp
  moreover have "trim_space a = a" "trim_space b = b" using assms by (auto simp: plain_name_def trim_space_none)
  ultimately show "splitAndTrim (render_pair (a, b)) ''->'' = [a, b]"
    using assms by (simp add: splitAndTrim_def render_pair_def plain_name_def)
qed

lemma split_render:
  "\<forall>(a, b) \<in> set ps. plain_name a \<and> plain_name b \<Longrightarrow> ps \<noteq> [] \<Longrightarrow> splitAndTrim (render_map ps) '','' = map render_pair ps"
  unfolding splitAndTrim_def str_split_def
proof (induction ps rule: render_map.induct)
  case (2 p)
  then show ?case using render_pair_plain [of "fst p" "snd p"] by (cases p) (auto simp: split_comma)
next
  case (3 p q ps)
  then show ?case using render_pair_plain [of "fst p" "snd p"]
    by (cases p) (auto simp: split_comma)
qed simp

text \<open>
  The model map is read back as written: from the text that lists pairs of plain names, a server's map sends the first of
  each pair to the second, the last pair of a name counting, and leaves every other name as it is.
\<close>

theorem model_map_roundtrip:
  assumes "\<forall>(a, b) \<in> set ps. plain_name a \<and> plain_name b"
  shows "MapModel model (NewMeshDiscovery host env_addr (render_map ps) ifaces sid port dport maxC om) =
    (case map_of (rev ps) model of Some b \<Rightarrow> b | None \<Rightarrow> model)"
proof (cases "ps = []")
  case True
  then show ?thesis by (simp add: MapModel_def NewMeshDiscovery_def parseModelMap_def)
next
  case False
  have fold: "foldl (\<lambda>m pair. case splitAndTrim pair ''->'' of [a, b] \<Rightarrow> m(a \<mapsto> b) | _ \<Rightarrow> m) m (map render_pair ps)
      = m ++ map_of (rev ps)" if "\<forall>(a, b) \<in> set ps. plain_name a \<and> plain_name b" for m :: "string \<rightharpoonup> string" and ps
    using that
  proof (induction ps arbitrary: m)
    case (Cons p ps)
    obtain a b where p: "p = (a, b)" by (cases p)
    with Cons.prems have "splitAndTrim (render_pair (a, b)) ''->'' = [a, b]" using render_pair_plain(4) by auto
    with Cons p show ?case by (auto simp: map_add_upd_left map_of_append [symmetric])
  qed simp
  have "render_map ps \<noteq> []"
    using False assms render_pair_plain(3) by (cases ps rule: render_map.cases) auto
  then show ?thesis
    using split_render [OF assms False] fold [OF assms, of Map.empty]
    by (simp add: MapModel_def NewMeshDiscovery_def parseModelMap_def)
qed

section \<open>Witnesses\<close>

definition sample_mesh :: "string \<Rightarrow> PeerInfo list \<Rightarrow> MeshDiscovery" where
  "sample_mesh sid ps = (NewMeshDiscovery (\<lambda>s. None) [] [] None sid 8081 8082 2 ''m'')
     \<lparr>ms_peers := map_of (map (\<lambda>p. (pe_ServerID p, p)) ps)\<rparr>"

definition sample_peer :: "string \<Rightarrow> int \<Rightarrow> PeerInfo" where
  "sample_peer i running = (new_peer i (''http://'' @ i) 4 ''m'' 0)\<lparr>pe_RunningJobs := running\<rparr>"

theorem GetBestPeer_optimal_witness:
  "fst (GetBestPeer 0 [''p'', ''q''] (sample_mesh ''s'' [sample_peer ''p'' 3, sample_peer ''q'' 1])) = Some (refresh_peer 0 (sample_peer ''q'' 1))"
proof -
  let ?m = "sample_mesh ''s'' [sample_peer ''p'' 3, sample_peer ''q'' 1]"
  have mp: "ms_peers ?m = [''q'' \<mapsto> sample_peer ''q'' 1, ''p'' \<mapsto> sample_peer ''p'' 3]"
    by (simp add: sample_mesh_def sample_peer_def new_peer_def)
  have r: "ranges [''p'', ''q''] (ms_peers ?m)" by (simp add: mp ranges_def insert_commute)
  have ran: "ran (ms_peers ?m) = {sample_peer ''p'' 3, sample_peer ''q'' 1}"
    unfolding mp by (subst ran_map_upd) auto
  have al: "is_alive 0 (sample_peer i n)" for i n by (simp add: is_alive_def sample_peer_def new_peer_def)
  have f: "pe_RunningJobs (sample_peer i n) = n" "pe_MaxConcurrent (sample_peer i n) = 4" "pe_PendingJobs (sample_peer i n) = 0" for i n
    by (simp_all add: sample_peer_def new_peer_def)
  have ld: "calcLoad 3 0 4 = 3 / 4" "calcLoad 1 0 4 = 1 / 4" by (simp_all add: calcLoad_def)
  note B = GetBestPeer_optimal [OF r, of 0, unfolded ran]
  show ?thesis
  proof (cases "fst (GetBestPeer 0 [''p'', ''q''] ?m)")
    case None
    with B show ?thesis by (simp add: al f)
  next
    case (Some b)
    with B have "b = refresh_peer 0 (sample_peer ''q'' 1) \<or>
        (calcLoad 3 0 4 < calcLoad 1 0 4 \<or> calcLoad 3 0 4 = calcLoad 1 0 4 \<and> (3 :: int) \<le> 1)"
      by (auto simp: al f)
    with Some ld show ?thesis by simp
  qed
qed

theorem ghost_peer_forever_witness:
  "\<exists>a b. gossip_rounds 3 0 (sample_mesh ''s'' [sample_peer ''ghost'' 0], sample_mesh ''t'' []) (a, b)"
proof -
  have "knows_ghost ''ghost'' 0 (sample_mesh ''s'' [sample_peer ''ghost'' 0], sample_mesh ''t'' [])"
    by (simp add: knows_ghost_def sample_mesh_def sample_peer_def new_peer_def NewMeshDiscovery_def)
  from ghost_peer_forever [OF this, of 3] show ?thesis by blast
qed

theorem model_map_roundtrip_witness:
  "MapModel ''a-mlx'' (NewMeshDiscovery (\<lambda>s. None) [] (render_map [(''a-mlx'', ''a''), (''b'', ''c'')]) None ''s'' 1 2 3 ''m'') = ''a''"
  by (subst model_map_roundtrip) (simp_all add: plain_name_def is_space_def)

end
