(* ===== verification/Mesh_Run.thy ===== *)
theory Mesh_Run
  imports Mesh
begin

text \<open>
  The goroutines of peer discovery (\<^verbatim>\<open>hive-server-go/mesh.go\<close>: \<^verbatim>\<open>Start\<close>, \<^verbatim>\<open>Stop\<close> and the five loops) as a step relation over the peer table:
  beacons, probes of the seeds, health polls (started together, answered one by one), the cleanup and the calls of the
  handlers, interleaved in any order. The theory shows that a beacon carries the sender's state to the receiver if it fits into the receive
  buffer, and that a peer which is heard of in time is never dropped, whatever else happens.
\<close>

section \<open>Beacons on the wire\<close>

text \<open>\<open>answer\<close>: the names in the health report of the server's own port, if it answers.\<close>

definition getLocalModels :: "string list option \<Rightarrow> string list" where
  "getLocalModels answer = (case answer of None \<Rightarrow> [] | Some names \<Rightarrow> names)"

text \<open>\<^verbatim>\<open>ReadFromUDP\<close> puts as much of a packet into the buffer as fits, and drops the rest.\<close>

definition udp_buffer :: nat where
  "udp_buffer = 4096"

definition receive_beacon :: "(string \<Rightarrow> jobj option) \<Rightarrow> gotime \<Rightarrow> string \<Rightarrow> string \<Rightarrow> MeshDiscovery \<Rightarrow> MeshDiscovery" where
  "receive_beacon decode t ip data m = handleBeacon t ip (decode (take udp_buffer data)) m"

section \<open>The loops\<close>

datatype mesh_loop = BroadcastLoop | ListenerLoop | CleanupLoop | SeedProbeLoop | HealthPollLoop

text \<open>
  \<open>mr_running\<close>: the loops that have not returned, \<open>mr_polls\<close>: the IDs of the peers whose health is being asked for, \<open>mr_stop\<close>: whether
  \<^verbatim>\<open>stopCh\<close> is closed.
\<close>

record mesh_run =
  mr_mesh :: MeshDiscovery
  mr_running :: "mesh_loop set"
  mr_polls :: "string list"
  mr_stop :: bool

text \<open>\<open>probes\<close>: what the seeds answer at the start; \<open>bound\<close>: whether the discovery port could be opened.\<close>

definition mesh_Start ::
  "(gotime \<times> gotime \<times> string \<times> jobj option \<times> PeerInfo list option) list \<Rightarrow> bool \<Rightarrow> MeshDiscovery \<Rightarrow> mesh_run" where
  "mesh_Start probes bound m =
     \<lparr>mr_mesh = foldl (\<lambda>m (t, t', addr, status, answer). snd (probeSeed t t' addr status answer m)) m probes,
      mr_running = {BroadcastLoop, CleanupLoop, SeedProbeLoop, HealthPollLoop} \<union> (if bound then {ListenerLoop} else {}),
      mr_polls = [], mr_stop = False\<rparr>"

text \<open>Closing a closed channel panics (\<open>None\<close>).\<close>

definition mesh_Stop :: "mesh_run \<Rightarrow> mesh_run option" where
  "mesh_Stop s = (if mr_stop s then None else Some (s\<lparr>mr_stop := True\<rparr>))"

text \<open>A tick of the health polls starts one goroutine for each peer in the table.\<close>

definition poll_start :: "string list \<Rightarrow> mesh_run \<Rightarrow> mesh_run" where
  "poll_start ks s = s\<lparr>mr_polls := mr_polls s @ map (\<lambda>k. pe_ServerID (the (ms_peers (mr_mesh s) k))) ks\<rparr>"

text \<open>One of them ends. Any answer counts, whatever its status and whoever gave it.\<close>

definition poll_end :: "gotime \<Rightarrow> string \<Rightarrow> bool \<Rightarrow> mesh_run \<Rightarrow> mesh_run" where
  "poll_end t i answered s = s\<lparr>mr_polls := remove1 i (mr_polls s), mr_mesh := (if answered then health_ok t i (mr_mesh s) else mr_mesh s)\<rparr>"

text \<open>
  What can happen. A probe of a seed is two events, as the lock is free between them: the status arrives, and its peers
  arrive. \<open>Selected\<close> is any of the calls that look for living peers.
\<close>

datatype mesh_event =
    Beacon string "jobj option"
  | SeedStatus string jobj
  | SeedPeers "PeerInfo list"
  | CleanupTick "string list"
  | PollTick "string list"
  | PollEnd string bool
  | Registered string string int string
  | Unregistered string
  | Selected "string list"
  | StopCalled
  | LoopEnds mesh_loop

inductive mesh_step :: "gotime \<Rightarrow> mesh_event \<Rightarrow> mesh_run \<Rightarrow> mesh_run \<Rightarrow> bool" where
  step_beacon: "ListenerLoop \<in> mr_running s \<Longrightarrow>
    mesh_step t (Beacon ip b) s (s\<lparr>mr_mesh := handleBeacon t ip b (mr_mesh s)\<rparr>)"
| step_status: "mesh_step t (SeedStatus addr data) s (s\<lparr>mr_mesh := snd (probeSeed t t addr (Some data) None (mr_mesh s))\<rparr>)"
| step_peers: "mesh_step t (SeedPeers ps) s (s\<lparr>mr_mesh := exchangePeers t (Some ps) (mr_mesh s)\<rparr>)"
| step_cleanup: "CleanupLoop \<in> mr_running s \<Longrightarrow> ranges ks (ms_peers (mr_mesh s)) \<Longrightarrow>
    mesh_step t (CleanupTick ks) s (s\<lparr>mr_mesh := mesh_cleanup t ks (mr_mesh s)\<rparr>)"
| step_poll: "HealthPollLoop \<in> mr_running s \<Longrightarrow> ranges ks (ms_peers (mr_mesh s)) \<Longrightarrow>
    mesh_step t (PollTick ks) s (poll_start ks s)"
| step_answer: "i \<in> set (mr_polls s) \<Longrightarrow> mesh_step t (PollEnd i ok) s (poll_end t i ok s)"
| step_register: "mesh_step t (Registered i ep mc om) s (s\<lparr>mr_mesh := RegisterPeer t i ep mc om (mr_mesh s)\<rparr>)"
| step_unregister: "mesh_step t (Unregistered i) s (s\<lparr>mr_mesh := UnregisterPeer i (mr_mesh s)\<rparr>)"
| step_select: "ranges ks (ms_peers (mr_mesh s)) \<Longrightarrow>
    mesh_step t (Selected ks) s (s\<lparr>mr_mesh := snd (GetAlivePeers t ks (mr_mesh s))\<rparr>)"
| step_stop: "mesh_Stop s = Some s' \<Longrightarrow> mesh_step t StopCalled s s'"
| step_end: "mr_stop s \<Longrightarrow> l \<in> mr_running s \<Longrightarrow> mesh_step t (LoopEnds l) s (s\<lparr>mr_running := mr_running s - {l}\<rparr>)"

inductive mesh_trace :: "gotime \<Rightarrow> mesh_run \<Rightarrow> (gotime \<times> mesh_event) list \<Rightarrow> mesh_run \<Rightarrow> bool" where
  trace_nil: "mesh_trace t s [] s"
| trace_cons: "t \<le> u \<Longrightarrow> mesh_step u e s s1 \<Longrightarrow> mesh_trace u s1 es s2 \<Longrightarrow> mesh_trace t s ((u, e) # es) s2"

text \<open>The two events of a probe together are the probe.\<close>

lemma probeSeed_split:
  "snd (probeSeed t t' addr status answer m) =
     (if fst (probeSeed t t' addr status answer m) then exchangePeers t' answer (snd (probeSeed t t addr status None m))
      else m)"
  by (simp add: probeSeed_def exchangePeers_def Let_def split: option.split)

section \<open>A beacon reaches the others\<close>

text \<open>
  The JSON library on one packet: it reads the packet as the object it was made of, and no proper prefix of a packet is JSON.
\<close>

definition packet_ok :: "(string \<Rightarrow> jobj option) \<Rightarrow> string \<Rightarrow> jobj \<Rightarrow> bool" where
  "packet_ok decode data b \<longleftrightarrow> (\<exists>b'. decode data = Some b' \<and> map_of b' = map_of b) \<and>
     (\<forall>n < length data. decode (take n data) = None)"

text \<open>A receiver looks at the fields of a beacon only.\<close>

lemma handleBeacon_map_of:
  assumes "map_of b' = map_of b"
  shows "handleBeacon t ip (Some b') m = handleBeacon t ip (Some b) m"
proof -
  have f: "getFloat b' = getFloat b" "getStr b' = getStr b" "upd_int b' = upd_int b" "get_str b' = get_str b"
    using assms by (simp_all add: fun_eq_iff getFloat_def getStr_def upd_int_def json_get_defs)
  then have u: "beacon_update b' = beacon_update b" by (simp add: fun_eq_iff beacon_update_def)
  show ?thesis unfolding handleBeacon_def option.case f u by (rule refl)
qed

lemma beacon_fields:
  fixes a :: MeshDiscovery and pend run cap cl :: int and models :: "string list"
  defines "b \<equiv> sendBeacon (Some (pend, run)) (Some cap) (Some cl) models a"
  shows "get_str b ''server_id'' = Some (ms_serverID a)" "get_str b ''announce_addr'' = Some (ms_announceAddr a)"
    "get_str b ''ollama_model'' = Some (ms_ollamaModel a)" "get_num b ''port'' = Some (of_int (ms_serverPort a))"
    "get_num b ''max_concurrent'' = Some (of_int (ms_maxConcurrent a))" "get_num b ''pending_jobs'' = Some (of_int pend)"
    "get_num b ''running_jobs'' = Some (of_int run)" "get_num b ''clients'' = Some (of_int cl)"
    "get_num b ''available_capacity'' = Some (of_int cap)"
  by (simp_all add: b_def sendBeacon_def get_str_def get_num_def)

text \<open>The entry a receiver has for the sender after the beacon; \<open>old\<close> is the one it had.\<close>

definition announced :: "gotime \<Rightarrow> string \<Rightarrow> int \<Rightarrow> int \<Rightarrow> int \<Rightarrow> int \<Rightarrow> PeerInfo option \<Rightarrow> MeshDiscovery \<Rightarrow> PeerInfo" where
  "announced t ip pend run cap cl old a =
     \<lparr>pe_ServerID = (case old of Some p \<Rightarrow> pe_ServerID p | None \<Rightarrow> ms_serverID a),
      pe_Endpoint = (if ms_announceAddr a \<noteq> [] then ms_announceAddr a
        else case old of Some p \<Rightarrow> pe_Endpoint p | None \<Rightarrow> ''http://'' @ ip @ '':'' @ dec_int (ms_serverPort a)),
      pe_MaxConcurrent = ms_maxConcurrent a, pe_OllamaModel = ms_ollamaModel a, pe_LastSeen = now_seconds t,
      pe_PendingJobs = pend, pe_RunningJobs = run, pe_Clients = cl, pe_AvailableCap = cap,
      pe_Load = (case old of Some p \<Rightarrow> pe_Load p | None \<Rightarrow> 0), pe_Alive = (case old of Some p \<Rightarrow> pe_Alive p | None \<Rightarrow> False)\<rparr>"

text \<open>
  C20. From one server's beacon to the other's table. A packet of at most 4096 bytes gives the receiver an entry for the sender with its
  address, limit, model, queue, clients and capacity as they were when it was sent, seen now, and changes no other
  entry; of a longer packet, such as that of a server with many models, nothing arrives.
\<close>

theorem beacon_received:
  assumes "packet_ok decode data (sendBeacon (Some (pend, run)) (Some cap) (Some cl) models a)"
    and "ms_serverID a \<noteq> []" "ms_serverID a \<noteq> ms_serverID m"
  shows "receive_beacon decode t ip data m =
    (if length data \<le> 4096
     then m\<lparr>ms_peers := (ms_peers m)(ms_serverID a \<mapsto> announced t ip pend run cap cl (ms_peers m (ms_serverID a)) a)\<rparr>
     else m)"
proof (cases "length data \<le> 4096")
  case True
  let ?b = "sendBeacon (Some (pend, run)) (Some cap) (Some cl) models a"
  obtain b' where b': "decode data = Some b'" "map_of b' = map_of ?b" using assms(1) by (auto simp: packet_ok_def)
  have "receive_beacon decode t ip data m = handleBeacon t ip (Some ?b) m"
    using True b'(1) handleBeacon_map_of [OF b'(2)] by (simp add: receive_beacon_def udp_buffer_def)
  also have "\<dots> = m\<lparr>ms_peers := (ms_peers m)(ms_serverID a \<mapsto> announced t ip pend run cap cl (ms_peers m (ms_serverID a)) a)\<rparr>"
  proof (cases "ms_peers m (ms_serverID a)")
    case (Some p)
    have "beacon_update ?b t p = announced t ip pend run cap cl (Some p) a"
      by (cases p) (simp add: beacon_update_def getStr_def str_or_empty_def beacon_fields upd_int_def announced_def)
    with Some assms(2,3) show ?thesis by (simp add: handleBeacon_def getStr_def str_or_empty_def beacon_fields)
  next
    case None
    with assms(2,3) show ?thesis
      by (simp add: handleBeacon_def getStr_def getFloat_def str_or_empty_def beacon_fields announced_def new_peer_def Let_def)
  qed
  finally show ?thesis using True by simp
next
  case False
  then have "decode (take 4096 data) = None" using assms(1) by (auto simp: packet_ok_def)
  with False show ?thesis by (simp add: receive_beacon_def udp_buffer_def handleBeacon_def)
qed

section \<open>A peer that is heard of stays\<close>

text \<open>Every entry is stored under its own ID.\<close>

definition keyed :: "MeshDiscovery \<Rightarrow> bool" where
  "keyed m \<longleftrightarrow> (\<forall>i p. ms_peers m i = Some p \<longrightarrow> pe_ServerID p = i)"

lemma put_peer_keyed: "keyed m \<Longrightarrow> keyed (put_peer p m)"
  by (auto simp: keyed_def put_peer_def split: if_splits)

lemma exchange_keyed: "keyed m \<Longrightarrow> keyed (exchangePeers t ans m)"
proof -
  have "keyed m \<Longrightarrow> keyed (foldl (\<lambda>m p. if pe_ServerID p \<noteq> ms_serverID m \<and> ms_peers m (pe_ServerID p) = None
       then put_peer (p\<lparr>pe_LastSeen := now_seconds t\<rparr>) m else m) m ps)" for ps m
    by (induction ps arbitrary: m) (auto intro: put_peer_keyed)
  then show "keyed m \<Longrightarrow> ?thesis" by (simp add: exchangePeers_def split: option.split)
qed

lemma beacon_keyed: "keyed m \<Longrightarrow> keyed (handleBeacon t ip b m)"
  by (auto simp: keyed_def handleBeacon_def Let_def beacon_update_def new_peer_def split: option.splits if_splits)

lemma keyed_poll: "keyed m \<Longrightarrow> keyed (health_ok t i m)"
  by (auto simp: keyed_def health_ok_def split: option.splits if_splits)

lemma keyed_unregister: "keyed m \<Longrightarrow> keyed (UnregisterPeer i m)"
  by (auto simp: keyed_def UnregisterPeer_def split: if_splits)

lemma keyed_cleanup: "ranges ks (ms_peers m) \<Longrightarrow> keyed m \<Longrightarrow> keyed (mesh_cleanup t ks m)"
  by (auto simp: keyed_def peer_table.tick_exact)

lemma keyed_select: "ranges ks (ms_peers m) \<Longrightarrow> keyed m \<Longrightarrow> keyed (snd (GetAlivePeers t ks m))"
  by (auto simp: keyed_def GetAlivePeers_def Let_def visit_ranges)

lemma probe_keyed: "keyed m \<Longrightarrow> keyed (snd (probeSeed t t' addr status answer m))"
  by (auto simp: probeSeed_def Let_def intro!: exchange_keyed put_peer_keyed split: option.split)

lemmas keyed_ops = put_peer_keyed exchange_keyed beacon_keyed keyed_poll keyed_unregister keyed_cleanup keyed_select probe_keyed

lemma step_keyed:
  assumes "mesh_step t e s s'" "keyed (mr_mesh s)"
  shows "keyed (mr_mesh s')"
  using assms
  by cases (auto simp: keyed_ops RegisterPeer_def poll_start_def poll_end_def mesh_Stop_def split: if_splits)

text \<open>What shows that the peer \<open>i\<close> is there: its beacon, its status as a seed, an answer to a poll, its registration.\<close>

fun sign_of :: "string \<Rightarrow> string \<Rightarrow> mesh_event \<Rightarrow> bool" where
  "sign_of me i (Beacon ip b) \<longleftrightarrow> b \<noteq> None \<and> getStr (the b) ''server_id'' = i \<and> i \<noteq> [] \<and> i \<noteq> me"
| "sign_of me i (SeedStatus addr data) \<longleftrightarrow> getStr data ''server_id'' = i \<and> i \<noteq> [] \<and> i \<noteq> me"
| "sign_of me i (PollEnd j ok) \<longleftrightarrow> j = i \<and> ok"
| "sign_of me i (Registered j ep mc om) \<longleftrightarrow> j = i"
| "sign_of me i _ \<longleftrightarrow> False"

text \<open>The greatest pause that keeps a peer alive: a millisecond less than 30 seconds, as times are kept in milliseconds.\<close>

definition max_pause :: duration where
  "max_pause = 29999 * 1000000"

text \<open>No event comes later than that after the last sign of the peer, and nobody unregisters it.\<close>

fun heard_in_time :: "string \<Rightarrow> string \<Rightarrow> gotime \<Rightarrow> (gotime \<times> mesh_event) list \<Rightarrow> bool" where
  "heard_in_time me i t [] \<longleftrightarrow> True"
| "heard_in_time me i t ((u, e) # es) \<longleftrightarrow> u - t \<le> max_pause \<and> e \<noteq> Unregistered i \<and>
     heard_in_time me i (if sign_of me i e then u else t) es"

fun last_sign :: "string \<Rightarrow> string \<Rightarrow> gotime \<Rightarrow> (gotime \<times> mesh_event) list \<Rightarrow> gotime" where
  "last_sign me i t [] = t"
| "last_sign me i t ((u, e) # es) = last_sign me i (if sign_of me i e then u else t) es"

lemma pause_fresh:
  assumes "u - t \<le> max_pause" "now_seconds t \<le> x"
  shows "now_seconds u - x < 30"
proof -
  have "u \<le> t + 29999 * 1000000" using assms(1) by (simp add: max_pause_def)
  then have "u div 1000000 \<le> (t + 29999 * 1000000) div 1000000" by (rule zdiv_mono1) simp
  also have "\<dots> = t div 1000000 + 29999" by simp
  finally have "real_of_int (u div 1000000) \<le> real_of_int (t div 1000000) + 29999" by linarith
  then have "now_seconds u \<le> now_seconds t + 29999 / 1000" by (simp add: now_seconds_def add_divide_distrib [symmetric] divide_right_mono)
  with assms(2) show ?thesis by simp
qed

lemma step_serverID: "mesh_step t e s s' \<Longrightarrow> ms_serverID (mr_mesh s') = ms_serverID (mr_mesh s)"
  by (induction rule: mesh_step.induct)
    (auto simp: handleBeacon_def probeSeed_def Let_def exchange_frame put_peer_def mesh_cleanup_def poll_start_def poll_end_def
      health_ok_def RegisterPeer_def UnregisterPeer_def GetAlivePeers_def mesh_Stop_def split: option.splits if_splits)

text \<open>One step: the peer stays, and its time of last sign does not go back, if it is not stale at that time.\<close>

definition seen_since :: "string \<Rightarrow> gotime \<Rightarrow> MeshDiscovery \<Rightarrow> bool" where
  "seen_since i t m \<longleftrightarrow> (\<exists>p. ms_peers m i = Some p \<and> now_seconds t \<le> pe_LastSeen p)"

lemma seen_mono: "seen_since i u m \<Longrightarrow> t \<le> u \<Longrightarrow> seen_since i t m"
  using now_seconds_mono [of t u] by (auto simp: seen_since_def)

lemma seen_put: "seen_since i t m \<Longrightarrow> pe_LastSeen p = now_seconds u \<Longrightarrow> t \<le> u \<Longrightarrow> seen_since i t (put_peer p m)"
  using now_seconds_mono [of t u] by (auto simp: seen_since_def put_peer_def)

lemma seen_exchange: "seen_since i t m \<Longrightarrow> seen_since i t (exchangePeers u ans m)"
  using exchange_keeps by (auto simp: seen_since_def)

lemma seen_beacon: "seen_since i t m \<Longrightarrow> t \<le> u \<Longrightarrow> seen_since i t (handleBeacon u ip b m)"
  using now_seconds_mono [of t u] by (auto simp: seen_since_def handleBeacon_def Let_def beacon_update_def split: option.split)

lemma seen_status: "seen_since i t m \<Longrightarrow> t \<le> u \<Longrightarrow> seen_since i t (snd (probeSeed u u' addr status answer m))"
  by (auto simp: probeSeed_def Let_def new_peer_def intro!: seen_exchange seen_put split: option.split)

lemma seen_poll: "seen_since i t m \<Longrightarrow> t \<le> u \<Longrightarrow> seen_since i t (health_ok u j m)"
  using now_seconds_mono [of t u] by (auto simp: seen_since_def health_ok_def split: option.split)

lemma seen_select: "ranges ks (ms_peers m) \<Longrightarrow> seen_since i t m \<Longrightarrow> seen_since i t (snd (GetAlivePeers u ks m))"
  by (auto simp: seen_since_def GetAlivePeers_def Let_def visit_ranges)

lemma seen_cleanup:
  assumes "ranges ks (ms_peers m)" "seen_since i t m" "u - t \<le> max_pause"
  shows "seen_since i t (mesh_cleanup u ks m)"
proof -
  obtain p where p: "ms_peers m i = Some p" "now_seconds t \<le> pe_LastSeen p" using assms(2) by (auto simp: seen_since_def)
  with pause_fresh [OF assms(3) p(2)] show ?thesis
    by (auto simp: seen_since_def peer_table.tick_exact [OF assms(1)] timed_out_def)
qed

lemma seen_step:
  assumes "mesh_step u e s s'" "seen_since i t (mr_mesh s)" "t \<le> u" "u - t \<le> max_pause" "e \<noteq> Unregistered i"
  shows "seen_since i t (mr_mesh s')"
  using assms
proof cases
  case (step_register j ep mc om)
  with assms show ?thesis by (auto simp: RegisterPeer_def new_peer_def intro!: seen_put)
next
  case (step_unregister j)
  with assms show ?thesis by (auto simp: seen_since_def UnregisterPeer_def)
qed (auto simp: seen_exchange seen_beacon seen_status seen_poll seen_select seen_cleanup poll_start_def poll_end_def mesh_Stop_def
    split: if_splits)

lemma sign_step:
  assumes "mesh_step u e s s'" "seen_since i t (mr_mesh s)" "sign_of (ms_serverID (mr_mesh s)) i e"
  shows "seen_since i u (mr_mesh s')"
  using assms
proof cases
  case (step_beacon ip b)
  with assms show ?thesis by (auto simp: seen_since_def handleBeacon_def Let_def beacon_update_def)
next
  case (step_status addr data)
  with assms show ?thesis
    by (auto simp: seen_since_def probeSeed_def Let_def exchangePeers_def put_peer_def new_peer_def)
next
  case (step_answer j ok)
  with assms show ?thesis by (auto simp: seen_since_def poll_end_def health_ok_def)
next
  case (step_register j ep mc om)
  with assms show ?thesis by (auto simp: seen_since_def RegisterPeer_def put_peer_def new_peer_def)
qed simp_all

lemma heard_trace:
  assumes "mesh_trace t0 s es s'" "seen_since i t (mr_mesh s)" "t \<le> t0" "heard_in_time (ms_serverID (mr_mesh s)) i t es"
  shows "seen_since i (last_sign (ms_serverID (mr_mesh s)) i t es) (mr_mesh s')"
  using assms
proof (induction arbitrary: t rule: mesh_trace.induct)
  case (trace_cons t0 u e s s1 es s2)
  let ?me = "ms_serverID (mr_mesh s)"
  let ?t = "if sign_of ?me i e then u else t"
  have "seen_since i ?t (mr_mesh s1)"
    using sign_step [OF trace_cons.hyps(2) trace_cons.prems(1)] seen_step [OF trace_cons.hyps(2) trace_cons.prems(1)]
      trace_cons.prems(2,3) trace_cons.hyps(1) by auto
  moreover have "?t \<le> u" "heard_in_time ?me i ?t es" using trace_cons.prems trace_cons.hyps(1) by auto
  ultimately show ?case using trace_cons.IH [of ?t] step_serverID [OF trace_cons.hyps(2)] by simp
qed simp

interpretation mesh_keys: invariant_system "\<lambda>s s'. \<exists>t e. mesh_step t e s s'" "\<lambda>s. keyed (mr_mesh s)"
  by unfold_locales (blast intro: step_keyed)

lemma trace_steps: "mesh_trace t s es s' \<Longrightarrow> (\<lambda>s s'. \<exists>t e. mesh_step t e s s')\<^sup>*\<^sup>* s s'"
proof (induction rule: mesh_trace.induct)
  case (trace_cons t u e s s1 es s2)
  then show ?case by (intro converse_rtranclp_into_rtranclp [of _ s s1]) auto
qed simp

lemma trace_keyed: "mesh_trace t s es s' \<Longrightarrow> keyed (mr_mesh s) \<Longrightarrow> keyed (mr_mesh s')"
  by (rule mesh_keys.invar_reach [OF trace_steps])

text \<open>So it is from the start of discovery on.\<close>

lemma start_keyed: "ms_peers m = Map.empty \<Longrightarrow> keyed (mr_mesh (mesh_Start probes bound m))"
proof -
  have "keyed m \<Longrightarrow> keyed (foldl (\<lambda>m (t, t', addr, status, answer). snd (probeSeed t t' addr status answer m)) m probes)" for m
  proof (induction probes arbitrary: m)
    case (Cons x xs)
    then show ?case by (cases x) (simp add: probe_keyed)
  qed simp
  moreover have "keyed m" if "ms_peers m = Map.empty" using that by (simp add: keyed_def)
  ultimately show "ms_peers m = Map.empty \<Longrightarrow> ?thesis" by (simp add: mesh_Start_def)
qed

text \<open>
  C26. A peer that is in the table and is heard of at least every 29.999 seconds (a beacon, its status, an answer to a health poll, a
  registration) is not dropped by any interleaving of beacons, probes, gossip, polls, cleanups and other calls, unless it is
  unregistered; and up to 29.999 seconds after its last sign it is among the living peers.
\<close>

theorem heard_peer_kept:
  assumes "mesh_trace t0 s es s'" "keyed (mr_mesh s)" "seen_since i t0 (mr_mesh s)"
    and "heard_in_time (ms_serverID (mr_mesh s)) i t0 es"
    and "u - last_sign (ms_serverID (mr_mesh s)) i t0 es \<le> max_pause" "ranges ks (ms_peers (mr_mesh s'))"
  shows "i \<in> pe_ServerID ` set (fst (GetAlivePeers u ks (mr_mesh s')))"
proof -
  obtain p where p: "ms_peers (mr_mesh s') i = Some p" "now_seconds (last_sign (ms_serverID (mr_mesh s)) i t0 es) \<le> pe_LastSeen p"
    using heard_trace [OF assms(1,3) order.refl assms(4)] by (auto simp: seen_since_def)
  have "is_alive u p" using pause_fresh [OF assms(5) p(2)] by (simp add: is_alive_def)
  with p(1) have "refresh_peer u p \<in> set (fst (GetAlivePeers u ks (mr_mesh s')))"
    unfolding GetAlivePeers_set [OF assms(6)] by (auto simp: ran_def)
  moreover have "pe_ServerID (refresh_peer u p) = i" using trace_keyed [OF assms(1,2)] p(1) by (auto simp: keyed_def)
  ultimately show ?thesis by (metis image_eqI)
qed

section \<open>Witnesses\<close>

definition sample_data :: jobj where
  "sample_data = sendBeacon (Some (1, 2)) (Some 0) (Some 3) [''m''] (sample_mesh ''a'' [])"

definition sample_reader :: "string \<Rightarrow> jobj option" where
  "sample_reader x = (if x = ''{}'' then Some sample_data else None)"

theorem beacon_received_witness:
  "\<exists>p. ms_peers (receive_beacon sample_reader 5 ''10.0.0.7'' ''{}'' (sample_mesh ''b'' [])) ''a'' = Some p \<and> pe_RunningJobs p = 2 \<and>
     pe_PendingJobs p = 1"
proof -
  have "packet_ok sample_reader ''{}'' (sendBeacon (Some (1, 2)) (Some 0) (Some 3) [''m''] (sample_mesh ''a'' []))"
    by (auto simp: packet_ok_def sample_reader_def sample_data_def take_Cons' less_Suc_eq)
  from beacon_received [OF this, of "sample_mesh ''b'' []" 5 "''10.0.0.7''"] show ?thesis
    by (simp add: sample_mesh_def NewMeshDiscovery_def announced_def)
qed

definition sample_run :: mesh_run where
  "sample_run = mesh_Start [] True (sample_mesh ''s'' [sample_peer ''p'' 0])"

theorem heard_peer_kept_witness:
  "\<exists>s'. mesh_trace 0 sample_run [(10000000000, PollTick [''p'']), (12000000000, PollEnd ''p'' True), (35000000000, CleanupTick [''p''])] s' \<and>
     ''p'' \<in> pe_ServerID ` set (fst (GetAlivePeers 40000000000 [''p''] (mr_mesh s')))"
proof -
  let ?p = "sample_peer ''p'' 0" and ?es = "[(10000000000, PollTick [''p'']), (12000000000, PollEnd ''p'' True), (35000000000, CleanupTick [''p''])]"
  let ?s1 = "poll_start [''p''] sample_run"
  let ?s2 = "poll_end 12000000000 ''p'' True ?s1"
  let ?s3 = "?s2\<lparr>mr_mesh := mesh_cleanup 35000000000 [''p''] (mr_mesh ?s2)\<rparr>"
  have run: "mr_mesh sample_run = sample_mesh ''s'' [?p]" "CleanupLoop \<in> mr_running sample_run" "HealthPollLoop \<in> mr_running sample_run"
    by (simp_all add: sample_run_def mesh_Start_def)
  have peers: "ms_peers (sample_mesh ''s'' [?p]) = [''p'' \<mapsto> ?p]" "pe_ServerID ?p = ''p''" "ms_serverID (sample_mesh ''s'' [?p]) = ''s''"
    by (simp_all add: sample_mesh_def sample_peer_def new_peer_def NewMeshDiscovery_def)
  have p2: "ms_peers (mr_mesh ?s2) = [''p'' \<mapsto> ?p\<lparr>pe_LastSeen := now_seconds 12000000000\<rparr>]" "mr_running ?s2 = mr_running sample_run"
    by (simp_all add: poll_end_def poll_start_def run health_ok_def peers)
  have r: "ranges [''p''] (ms_peers (mr_mesh sample_run))" "ranges [''p''] (ms_peers (mr_mesh ?s2))"
    unfolding p2 run peers by (simp_all add: ranges_def)
  have p3: "ranges [''p''] (ms_peers (mr_mesh ?s3))"
    using r(2) by (simp add: mesh_cleanup_def p2 timed_out_def now_seconds_def ranges_def)
  have "mesh_trace 0 sample_run ?es ?s3"
  proof (rule trace_cons)
    show "mesh_step 10000000000 (PollTick [''p'']) sample_run ?s1" by (rule step_poll [OF run(3) r(1)])
    show "mesh_trace 10000000000 ?s1 [(12000000000, PollEnd ''p'' True), (35000000000, CleanupTick [''p''])] ?s3"
    proof (rule trace_cons)
      show "mesh_step 12000000000 (PollEnd ''p'' True) ?s1 ?s2" by (rule step_answer) (simp add: poll_start_def run peers)
      show "mesh_trace 12000000000 ?s2 [(35000000000, CleanupTick [''p''])] ?s3"
        by (rule trace_cons [OF _ step_cleanup [OF _ r(2)] trace_nil]) (simp_all add: p2 run)
    qed simp
  qed simp
  moreover have "keyed (mr_mesh sample_run)" by (simp add: keyed_def run peers)
  moreover have "seen_since ''p'' 0 (mr_mesh sample_run)"
    unfolding run by (simp add: seen_since_def peers) (simp add: sample_peer_def new_peer_def)
  ultimately show ?thesis
    using heard_peer_kept [of 0 sample_run ?es ?s3 "''p''" 40000000000 "[''p'']"] p3
    by (auto simp: max_pause_def)
qed

end
