(* ===== verification/Telemetry.thy ===== *)
theory Telemetry
  imports Job_Model
begin

text \<open>
  What the hive server keeps for its observers: the log ring buffer (\<^verbatim>\<open>hive-server-go/logs.go\<close>), the counters and samples
  (\<^verbatim>\<open>metrics.go\<close>) and the event streams of jobs (\<^verbatim>\<open>stream.go\<close>). The theory shows that the buffer and the samples keep the
  newest entries, that a warning enters the buffer twice, who receives a published event, and that publishing
  while a subscriber leaves can panic.
\<close>

section \<open>The log buffer\<close>

record LogEntry =
  le_Timestamp :: real
  le_TimeStr :: string
  le_Level :: string
  le_Message :: string
  le_Logger :: string

record RingBuffer =
  rg_entries :: "LogEntry list"
  rg_maxSize :: int

definition NewRingBuffer :: "int \<Rightarrow> RingBuffer option" where
  "NewRingBuffer maxSize = (if maxSize < 0 then None else Some \<lparr>rg_entries = [], rg_maxSize = maxSize\<rparr>)"

text \<open>\<open>hms\<close>: the clock as \<^verbatim>\<open>15:04:05\<close>. Dropping the first of no entries panics: \<open>None\<close>.\<close>

definition ring_Write :: "(gotime \<Rightarrow> string) \<Rightarrow> gotime \<Rightarrow> string \<Rightarrow> string \<Rightarrow> string \<Rightarrow> RingBuffer \<Rightarrow> RingBuffer option" where
  "ring_Write hms now level msg logger rb =
     (let entry = \<lparr>le_Timestamp = now_seconds now, le_TimeStr = hms now, le_Level = level, le_Message = msg, le_Logger = logger\<rparr>
      in if int (length (rg_entries rb)) \<ge> rg_maxSize rb
         then (case rg_entries rb of [] \<Rightarrow> None | _ # rest \<Rightarrow> Some (rb\<lparr>rg_entries := rest @ [entry]\<rparr>))
         else Some (rb\<lparr>rg_entries := rg_entries rb @ [entry]\<rparr>))"

definition ring_GetAll :: "RingBuffer \<Rightarrow> LogEntry list" where
  "ring_GetAll rb = rg_entries rb"

definition ring_GetSince :: "real \<Rightarrow> RingBuffer \<Rightarrow> LogEntry list" where
  "ring_GetSince since rb = filter (\<lambda>e. le_Timestamp e \<ge> since) (rg_entries rb)"

definition ring_Clear :: "RingBuffer \<Rightarrow> RingBuffer" where
  "ring_Clear rb = rb\<lparr>rg_entries := []\<rparr>"

definition getLogs :: "real \<Rightarrow> RingBuffer \<Rightarrow> LogEntry list" where
  "getLogs since rb = (if since > 0 then ring_GetSince since rb else ring_GetAll rb)"

text \<open>
  The log functions, as far as the buffer is concerned. \<open>line\<close> is the text the standard logger writes for a message: the
  writer behind \<^verbatim>\<open>hivelog\<close> puts it into the buffer as a message of level \<^verbatim>\<open>INFO\<close>. \<^verbatim>\<open>errorLogger\<close> writes to standard error only.
\<close>

definition logWriter_Write :: "(gotime \<Rightarrow> string) \<Rightarrow> gotime \<Rightarrow> string \<Rightarrow> RingBuffer \<Rightarrow> RingBuffer option" where
  "logWriter_Write hms now text rb = ring_Write hms now ''INFO'' text ''hive-server'' rb"

definition logInfo :: "(gotime \<Rightarrow> string) \<Rightarrow> gotime \<Rightarrow> string \<Rightarrow> RingBuffer \<Rightarrow> RingBuffer option" where
  "logInfo hms now line rb = logWriter_Write hms now line rb"

definition logError :: "(gotime \<Rightarrow> string) \<Rightarrow> gotime \<Rightarrow> string \<Rightarrow> RingBuffer \<Rightarrow> RingBuffer option" where
  "logError hms now msg rb = ring_Write hms now ''ERROR'' msg ''hive-server'' rb"

definition logWarn :: "(gotime \<Rightarrow> string) \<Rightarrow> gotime \<Rightarrow> string \<Rightarrow> string \<Rightarrow> RingBuffer \<Rightarrow> RingBuffer option" where
  "logWarn hms now msg line rb =
     (case ring_Write hms now ''WARN'' msg ''hive-server'' rb of
        None \<Rightarrow> None | Some rb' \<Rightarrow> logWriter_Write hms now line rb')"

definition ring_ok :: "RingBuffer \<Rightarrow> bool" where
  "ring_ok rb \<longleftrightarrow> 0 < rg_maxSize rb \<and> int (length (rg_entries rb)) \<le> rg_maxSize rb"

lemma ring_Write_last_n:
  assumes "ring_ok rb"
  shows "\<exists>e. ring_Write hms now level msg logger rb = Some (rb\<lparr>rg_entries := last_n (nat (rg_maxSize rb)) (rg_entries rb @ [e])\<rparr>) \<and>
    e = \<lparr>le_Timestamp = now_seconds now, le_TimeStr = hms now, le_Level = level, le_Message = msg, le_Logger = logger\<rparr>"
proof (cases "int (length (rg_entries rb)) \<ge> rg_maxSize rb")
  case True
  with assms have len: "length (rg_entries rb) = nat (rg_maxSize rb)" "0 < nat (rg_maxSize rb)" by (auto simp: ring_ok_def)
  then obtain x xs where x: "rg_entries rb = x # xs" by (cases "rg_entries rb") auto
  have "last_n (nat (rg_maxSize rb)) (rg_entries rb @ [e]) = tl (rg_entries rb) @ [e]" for e
    using len by (rule last_n_snoc_full)
  with True x show ?thesis by (simp add: ring_Write_def Let_def)
next
  case False
  then have "length (rg_entries rb @ [e]) \<le> nat (rg_maxSize rb)" for e using assms by (simp add: ring_ok_def)
  with False show ?thesis by (simp add: ring_Write_def Let_def)
qed

type_synonym log_call = "gotime \<times> string \<times> string"

definition ring_add :: "(gotime \<Rightarrow> string) \<Rightarrow> RingBuffer \<Rightarrow> log_call \<Rightarrow> RingBuffer" where
  "ring_add hms rb = (\<lambda>(now, level, msg). the (ring_Write hms now level msg ''hive-server'' rb))"

definition entry_of :: "(gotime \<Rightarrow> string) \<Rightarrow> log_call \<Rightarrow> LogEntry" where
  "entry_of hms = (\<lambda>(now, level, msg). \<lparr>le_Timestamp = now_seconds now, le_TimeStr = hms now, le_Level = level,
     le_Message = msg, le_Logger = ''hive-server''\<rparr>)"

text \<open>The log of the buffer, seen through the entries it was given.\<close>

interpretation ring: capped_log "\<lambda>rb e. rb\<lparr>rg_entries := last_n (nat (rg_maxSize rb)) (rg_entries rb @ [e])\<rparr>" rg_entries ring_ok
    "\<lambda>rb. nat (rg_maxSize rb)"
  by unfold_locales (auto simp: ring_ok_def)

lemma ring_add_eq:
  "ring_ok rb \<Longrightarrow> ring_add hms rb c = rb\<lparr>rg_entries := last_n (nat (rg_maxSize rb)) (rg_entries rb @ [entry_of hms c])\<rparr>"
  using ring_Write_last_n [of rb hms "fst c" "fst (snd c)" "snd (snd c)" "''hive-server''"]
  by (cases c) (auto simp: ring_add_def entry_of_def)

lemma ring_adds_eq:
  "ring_ok rb \<Longrightarrow> foldl (ring_add hms) rb cs
     = foldl (\<lambda>rb e. rb\<lparr>rg_entries := last_n (nat (rg_maxSize rb)) (rg_entries rb @ [e])\<rparr>) rb (map (entry_of hms) cs)"
proof (induction cs arbitrary: rb)
  case (Cons c cs)
  then show ?case using ring.invar_add [of rb "entry_of hms c"] by (simp add: ring_add_eq)
qed simp

text \<open>
  The log buffer of a positive size never panics and keeps the newest entries: after any writes, all of them are shown if
  they fit, and otherwise the last ones, in order; asked for those since a time, exactly the kept ones of that time or later.
\<close>

theorem ring_keeps_newest:
  assumes "NewRingBuffer n = Some rb" "0 < n" "0 < since"
  shows "ring_GetAll (foldl (ring_add hms) rb calls) = last_n (nat n) (map (entry_of hms) calls) \<and>
    getLogs since (foldl (ring_add hms) rb calls)
      = filter (\<lambda>e. since \<le> le_Timestamp e) (last_n (nat n) (map (entry_of hms) calls)) \<and>
    ring_Write hms now level msg logger (foldl (ring_add hms) rb calls) \<noteq> None"
proof -
  have rb: "rb = \<lparr>rg_entries = [], rg_maxSize = n\<rparr>" using assms(1,2) by (simp add: NewRingBuffer_def)
  then have ok: "ring_ok rb" using assms(2) by (simp add: ring_ok_def)
  have "rg_entries (foldl (ring_add hms) rb calls) = last_n (nat n) (map (entry_of hms) calls)"
    unfolding ring_adds_eq [OF ok] using ring.adds_keep_last [OF ok, of "map (entry_of hms) calls"] by (simp add: rb)
  moreover have "ring_ok (foldl (ring_add hms) rb calls)"
    unfolding ring_adds_eq [OF ok] by (rule ring.adds_invar [OF ok])
  ultimately show ?thesis
    using assms(3) ring_Write_last_n by (auto simp: getLogs_def ring_GetSince_def ring_GetAll_def)
qed

theorem ring_keeps_newest_witness:
  "\<exists>rb. NewRingBuffer 1 = Some rb \<and>
     ring_GetAll (foldl (ring_add (\<lambda>t. [])) rb [(1, ''INFO'', ''a''), (2, ''INFO'', ''b'')]) = [entry_of (\<lambda>t. []) (2, ''INFO'', ''b'')]"
proof -
  have n: "NewRingBuffer 1 = Some \<lparr>rg_entries = [], rg_maxSize = 1\<rparr>" by (simp add: NewRingBuffer_def)
  from ring_keeps_newest [OF n, of 1 "\<lambda>t. []" "[(1, ''INFO'', ''a''), (2, ''INFO'', ''b'')]"] n show ?thesis
    by (simp add: last_n_def)
qed

text \<open>A warning is recorded twice: with its level, and once more with level \<^verbatim>\<open>INFO\<close> through the shared writer.\<close>

lemma logWarn_twice:
  assumes "ring_ok rb" "int (length (rg_entries rb)) + 2 \<le> rg_maxSize rb"
  shows "\<exists>e1 e2. logWarn hms now msg line rb = Some (rb\<lparr>rg_entries := rg_entries rb @ [e1, e2]\<rparr>) \<and>
    le_Level e1 = ''WARN'' \<and> le_Level e2 = ''INFO''"
  using assms by (intro exI conjI) (simp add: logWarn_def logWriter_Write_def ring_Write_def Let_def, simp_all)

section \<open>Counters and samples\<close>

record MetricsCollector =
  mc_jobsSubmitted :: int
  mc_jobsCompleted :: int
  mc_jobsFailed :: int
  mc_messagesCached :: int
  mc_peersForwarded :: int
  mc_queueDepth :: int
  mc_runningJobs :: int
  mc_connectedPeers :: int
  mc_activeClients :: int
  mc_jobDurations :: "real list"
  mc_tokenCounts :: "real list"
  mc_tpsValues :: "real list"
  mc_startTime :: gotime

definition IncrJobsSubmitted :: "MetricsCollector \<Rightarrow> MetricsCollector" where
  "IncrJobsSubmitted m = m\<lparr>mc_jobsSubmitted := mc_jobsSubmitted m + 1\<rparr>"

definition IncrJobsCompleted :: "MetricsCollector \<Rightarrow> MetricsCollector" where
  "IncrJobsCompleted m = m\<lparr>mc_jobsCompleted := mc_jobsCompleted m + 1\<rparr>"

definition IncrJobsFailed :: "MetricsCollector \<Rightarrow> MetricsCollector" where
  "IncrJobsFailed m = m\<lparr>mc_jobsFailed := mc_jobsFailed m + 1\<rparr>"

definition IncrMessagesCached :: "MetricsCollector \<Rightarrow> MetricsCollector" where
  "IncrMessagesCached m = m\<lparr>mc_messagesCached := mc_messagesCached m + 1\<rparr>"

definition IncrPeersForwarded :: "MetricsCollector \<Rightarrow> MetricsCollector" where
  "IncrPeersForwarded m = m\<lparr>mc_peersForwarded := mc_peersForwarded m + 1\<rparr>"

definition SetQueueDepth :: "int \<Rightarrow> MetricsCollector \<Rightarrow> MetricsCollector" where
  "SetQueueDepth d m = m\<lparr>mc_queueDepth := d\<rparr>"

definition SetRunningJobs :: "int \<Rightarrow> MetricsCollector \<Rightarrow> MetricsCollector" where
  "SetRunningJobs r m = m\<lparr>mc_runningJobs := r\<rparr>"

definition SetConnectedPeers :: "int \<Rightarrow> MetricsCollector \<Rightarrow> MetricsCollector" where
  "SetConnectedPeers p m = m\<lparr>mc_connectedPeers := p\<rparr>"

definition SetActiveClients :: "int \<Rightarrow> MetricsCollector \<Rightarrow> MetricsCollector" where
  "SetActiveClients c m = m\<lparr>mc_activeClients := c\<rparr>"

definition push_sample :: "real list \<Rightarrow> real \<Rightarrow> real list" where
  "push_sample xs x = (let ys = xs @ [x] in if length ys > 1000 then tl ys else ys)"

definition RecordJobDuration :: "real \<Rightarrow> MetricsCollector \<Rightarrow> MetricsCollector" where
  "RecordJobDuration x m = m\<lparr>mc_jobDurations := push_sample (mc_jobDurations m) x\<rparr>"

definition RecordTokenCount :: "int \<Rightarrow> MetricsCollector \<Rightarrow> MetricsCollector" where
  "RecordTokenCount n m = m\<lparr>mc_tokenCounts := push_sample (mc_tokenCounts m) (of_int n)\<rparr>"

definition RecordTPS :: "real \<Rightarrow> MetricsCollector \<Rightarrow> MetricsCollector" where
  "RecordTPS x m = m\<lparr>mc_tpsValues := push_sample (mc_tpsValues m) x\<rparr>"

definition sumFloat64 :: "real list \<Rightarrow> real" where
  "sumFloat64 vals = foldl (+) 0 vals"

text \<open>The metrics in the text format; \<open>f6\<close> is the text of \<^verbatim>\<open>%f\<close>.\<close>

definition nl :: string where "nl = [CHR 0x0A]"

definition metric_head :: "string \<Rightarrow> string \<Rightarrow> string \<Rightarrow> string" where
  "metric_head name help typ = ''# HELP '' @ name @ '' '' @ help @ nl @ ''# TYPE '' @ name @ '' '' @ typ @ nl"

definition metric_int :: "string \<Rightarrow> string \<Rightarrow> string \<Rightarrow> int \<Rightarrow> string" where
  "metric_int name help typ v = metric_head name help typ @ name @ '' '' @ dec_int v @ nl"

definition metric_summary :: "(real \<Rightarrow> string) \<Rightarrow> string \<Rightarrow> string \<Rightarrow> real list \<Rightarrow> string" where
  "metric_summary f6 name help vals = (if length vals > 0
     then metric_head name help ''summary'' @ name @ ''_sum '' @ f6 (sumFloat64 vals) @ nl
       @ name @ ''_count '' @ dec_int (int (length vals)) @ nl else [])"

definition Render :: "(real \<Rightarrow> string) \<Rightarrow> gotime \<Rightarrow> MetricsCollector \<Rightarrow> string" where
  "Render f6 now m =
     metric_head ''hive_uptime_seconds'' ''Server uptime in seconds'' ''gauge''
       @ ''hive_uptime_seconds '' @ f6 (of_int (now - mc_startTime m) / of_int second) @ nl
     @ metric_int ''hive_jobs_total'' ''Total jobs submitted'' ''counter'' (mc_jobsSubmitted m)
     @ metric_int ''hive_jobs_completed_total'' ''Total jobs completed'' ''counter'' (mc_jobsCompleted m)
     @ metric_int ''hive_jobs_failed_total'' ''Total jobs failed'' ''counter'' (mc_jobsFailed m)
     @ metric_int ''hive_messages_cached_total'' ''Total messages served from cache'' ''counter'' (mc_messagesCached m)
     @ metric_int ''hive_peers_forwarded_total'' ''Total jobs forwarded to peers'' ''counter'' (mc_peersForwarded m)
     @ metric_int ''hive_queue_depth'' ''Current queue depth'' ''gauge'' (mc_queueDepth m)
     @ metric_int ''hive_running_jobs'' ''Currently running jobs'' ''gauge'' (mc_runningJobs m)
     @ metric_int ''hive_connected_peers'' ''Number of connected peers'' ''gauge'' (mc_connectedPeers m)
     @ metric_int ''hive_active_clients'' ''Number of active clients'' ''gauge'' (mc_activeClients m)
     @ metric_summary f6 ''hive_job_duration_seconds'' ''Job execution duration'' (mc_jobDurations m)
     @ metric_summary f6 ''hive_tokens_per_second'' ''Tokens per second'' (mc_tpsValues m)"

interpretation samples: capped_log push_sample "\<lambda>xs. xs" "\<lambda>xs. length xs \<le> 1000" "\<lambda>xs. 1000"
proof
  fix xs :: "real list" and x
  show "push_sample xs x = last_n 1000 (xs @ [x])" if "length xs \<le> 1000"
  proof (cases "length xs = 1000")
    case True
    then show ?thesis using last_n_snoc_full [of xs 1000 x] by (cases xs) (auto simp: push_sample_def Let_def)
  next
    case False
    with that show ?thesis by (simp add: push_sample_def Let_def)
  qed
  then show "length (push_sample xs x) \<le> 1000" if "length xs \<le> 1000" using that by simp
qed simp_all

lemma durations_newest:
  "mc_jobDurations m = [] \<Longrightarrow> mc_jobDurations (foldl (\<lambda>m x. RecordJobDuration x m) m xs) = last_n 1000 xs"
proof -
  have "mc_jobDurations (foldl (\<lambda>m x. RecordJobDuration x m) m xs) = foldl push_sample (mc_jobDurations m) xs" for m
    by (induction xs arbitrary: m) (simp_all add: RecordJobDuration_def)
  then show "mc_jobDurations m = [] \<Longrightarrow> mc_jobDurations (foldl (\<lambda>m x. RecordJobDuration x m) m xs) = last_n 1000 xs"
    using samples.adds_keep_last [of "[]" xs] by simp
qed

lemma sumFloat64_eq: "sumFloat64 vals = sum_list vals"
  by (simp add: sumFloat64_def fold_plus_sum_list_rev foldl_conv_fold add.commute)

end
