(* ===== verification/Job_Stream.thy ===== *)
theory Job_Stream
  imports Job_Model
begin

text \<open>
  The event streams of jobs (\<^verbatim>\<open>hive-server-go/stream.go\<close>): who subscribes to a job, what \<^verbatim>\<open>Publish\<close> sends, and what the stream's
  handler writes. The lists of subscribers are Go slices whose array \<^verbatim>\<open>Unsubscribe\<close> shifts in place while a publisher may be
  reading it, so arrays are explicit here. The theory shows that publishing on its own reaches every subscriber of the job
  exactly once, that under every interleaving a subscriber only sees events of its own job, and that a subscriber
  leaving while an event is published can make the publisher panic.
\<close>

section \<open>Events, channels and slices\<close>

record JobEvent =
  ev_JobID :: string
  ev_Status :: string
  ev_Result :: "json option"
  ev_Error :: string
  ev_Progress :: real

type_synonym chan_id = nat
type_synonym arr_id = nat

record event_chan =
  ch_buf :: "JobEvent list"
  ch_closed :: bool

text \<open>
  A backing array: the cells written so far and its capacity. All slices here start at the first cell, so a slice is an
  array and a length.
\<close>

record chan_array =
  ar_cells :: "chan_id list"
  ar_cap :: nat

record chan_slice =
  sl_arr :: arr_id
  sl_len :: nat

record JobStream =
  jst_clients :: "string \<rightharpoonup> chan_slice"
  jst_arrays :: "arr_id \<Rightarrow> chan_array"
  jst_next_arr :: arr_id
  jst_chans :: "chan_id \<rightharpoonup> event_chan"
  jst_next_chan :: chan_id

definition globalJobStream :: JobStream where
  "globalJobStream = \<lparr>jst_clients = Map.empty, jst_arrays = \<lambda>a. \<lparr>ar_cells = [], ar_cap = 0\<rparr>, jst_next_arr = 0,
     jst_chans = Map.empty, jst_next_chan = 0\<rparr>"

definition slice_items :: "JobStream \<Rightarrow> chan_slice \<Rightarrow> chan_id list" where
  "slice_items js sl = take (sl_len sl) (ar_cells (jst_arrays js (sl_arr sl)))"

definition stream_clients :: "JobStream \<Rightarrow> string \<Rightarrow> chan_id list" where
  "stream_clients js jobID = (case jst_clients js jobID of None \<Rightarrow> [] | Some sl \<Rightarrow> slice_items js sl)"

definition write_cell :: "nat \<Rightarrow> chan_id \<Rightarrow> chan_array \<Rightarrow> chan_array" where
  "write_cell i c ar = ar\<lparr>ar_cells := (if i < length (ar_cells ar) then (ar_cells ar)[i := c] else ar_cells ar @ [c])\<rparr>"

text \<open>\<^verbatim>\<open>append\<close> of one channel: in place while there is capacity, else into a new array with at least the room needed.\<close>

definition append_chan :: "nat \<Rightarrow> chan_slice option \<Rightarrow> chan_id \<Rightarrow> JobStream \<Rightarrow> chan_slice \<times> JobStream" where
  "append_chan newcap sl c js =
     (let n = (case sl of None \<Rightarrow> 0 | Some s \<Rightarrow> sl_len s);
          cells = (case sl of None \<Rightarrow> [] | Some s \<Rightarrow> slice_items js s);
          fresh = (\<lparr>sl_arr = jst_next_arr js, sl_len = n + 1\<rparr>,
            js\<lparr>jst_arrays := (jst_arrays js)(jst_next_arr js := \<lparr>ar_cells = cells @ [c], ar_cap = max newcap (n + 1)\<rparr>),
               jst_next_arr := jst_next_arr js + 1\<rparr>)
      in case sl of
           None \<Rightarrow> fresh
         | Some s \<Rightarrow>
             if n < ar_cap (jst_arrays js (sl_arr s))
             then (s\<lparr>sl_len := n + 1\<rparr>,
                   js\<lparr>jst_arrays := (jst_arrays js)(sl_arr s := write_cell n c (jst_arrays js (sl_arr s)))\<rparr>)
             else fresh)"

definition Subscribe :: "nat \<Rightarrow> string \<Rightarrow> JobStream \<Rightarrow> chan_id \<times> JobStream" where
  "Subscribe newcap jobID js =
     (let ch = jst_next_chan js;
          js1 = js\<lparr>jst_chans := (jst_chans js)(ch \<mapsto> \<lparr>ch_buf = [], ch_closed = False\<rparr>), jst_next_chan := ch + 1\<rparr>
      in case append_chan newcap (jst_clients js jobID) ch js1 of
           (sl, js2) \<Rightarrow> (ch, js2\<lparr>jst_clients := (jst_clients js2)(jobID \<mapsto> sl)\<rparr>))"

text \<open>Closing a closed channel, and sending on one, panics: \<open>None\<close>.\<close>

definition close_chan :: "chan_id \<Rightarrow> JobStream \<Rightarrow> JobStream option" where
  "close_chan c js = (case jst_chans js c of
     None \<Rightarrow> None
   | Some ch \<Rightarrow> if ch_closed ch then None else Some (js\<lparr>jst_chans := (jst_chans js)(c \<mapsto> ch\<lparr>ch_closed := True\<rparr>)\<rparr>))"

definition shift_out :: "nat \<Rightarrow> nat \<Rightarrow> chan_array \<Rightarrow> chan_array" where
  "shift_out i n ar = ar\<lparr>ar_cells := remove_nth i (take n (ar_cells ar)) @ drop (n - 1) (ar_cells ar)\<rparr>"

definition drop_if_empty :: "string \<Rightarrow> JobStream \<Rightarrow> JobStream" where
  "drop_if_empty jobID js = (if stream_clients js jobID = [] then js\<lparr>jst_clients := (jst_clients js)(jobID := None)\<rparr> else js)"

definition Unsubscribe :: "string \<Rightarrow> chan_id \<Rightarrow> JobStream \<Rightarrow> JobStream option" where
  "Unsubscribe jobID c js = (case jst_clients js jobID of
     None \<Rightarrow> Some (drop_if_empty jobID js)
   | Some sl \<Rightarrow>
       (case find_index (\<lambda>x. x = c) (slice_items js sl) of
          None \<Rightarrow> Some (drop_if_empty jobID js)
        | Some i \<Rightarrow>
            map_option (drop_if_empty jobID) (close_chan c
              (js\<lparr>jst_clients := (jst_clients js)(jobID \<mapsto> sl\<lparr>sl_len := sl_len sl - 1\<rparr>),
                 jst_arrays := (jst_arrays js)(sl_arr sl := shift_out i (sl_len sl) (jst_arrays js (sl_arr sl)))\<rparr>))))"

text \<open>One pass through the \<^verbatim>\<open>select\<close>: a client whose buffer of ten is full is skipped.\<close>

definition try_send :: "JobEvent \<Rightarrow> chan_id \<Rightarrow> JobStream \<Rightarrow> JobStream option" where
  "try_send event c js = (case jst_chans js c of
     None \<Rightarrow> Some js
   | Some ch \<Rightarrow>
       if ch_closed ch then None
       else if length (ch_buf ch) < 10 then Some (js\<lparr>jst_chans := (jst_chans js)(c \<mapsto> ch\<lparr>ch_buf := ch_buf ch @ [event]\<rparr>)\<rparr>)
       else Some js)"

fun send_all :: "JobEvent \<Rightarrow> chan_id list \<Rightarrow> JobStream \<Rightarrow> JobStream option" where
  "send_all event [] js = Some js"
| "send_all event (c # cs) js = (case try_send event c js of None \<Rightarrow> None | Some js' \<Rightarrow> send_all event cs js')"

text \<open>\<^verbatim>\<open>Publish\<close> with nothing in between; the sends leave the array alone, so the cells can be read at once.\<close>

definition Publish :: "JobEvent \<Rightarrow> JobStream \<Rightarrow> JobStream option" where
  "Publish event js = send_all event (stream_clients js (ev_JobID event)) js"

definition job_event :: "Job \<Rightarrow> JobEvent" where
  "job_event job = \<lparr>ev_JobID = j_ID job, ev_Status = JobStatus_string (j_Status job), ev_Result = j_Result job,
     ev_Error = j_Error job, ev_Progress = 0\<rparr>"

definition NotifyJobUpdate :: "Job \<Rightarrow> JobStream \<Rightarrow> JobStream option" where
  "NotifyJobUpdate job js = Publish (job_event job) js"

text \<open>
  The handler of a stream. \<open>marshal\<close> is the JSON text of an event; \<open>job\<close> is what the queue knows of the job when the
  client comes; the inputs are what the \<^verbatim>\<open>select\<close> of the loop receives, one after the other. The result is the text
  written and whether the handler has returned (it then unsubscribes).
\<close>

datatype stream_input = CtxDone | ChanEvent JobEvent | ChanClosed | KeepaliveTick

definition data_frame :: "(JobEvent \<Rightarrow> string) \<Rightarrow> JobEvent \<Rightarrow> string" where
  "data_frame marshal event = ''data: '' @ marshal event @ [CHR 0x0A, CHR 0x0A]"

fun stream_loop :: "(JobEvent \<Rightarrow> string) \<Rightarrow> stream_input list \<Rightarrow> string list \<times> bool" where
  "stream_loop marshal [] = ([], False)"
| "stream_loop marshal (CtxDone # ins) = ([], True)"
| "stream_loop marshal (ChanClosed # ins) = ([], True)"
| "stream_loop marshal (ChanEvent event # ins) =
     (if ev_Status event = ''completed'' \<or> ev_Status event = ''failed'' then ([data_frame marshal event], True)
      else case stream_loop marshal ins of (out, fin) \<Rightarrow> (data_frame marshal event # out, fin))"
| "stream_loop marshal (KeepaliveTick # ins) =
     (case stream_loop marshal ins of (out, fin) \<Rightarrow> (('': keepalive'' @ [CHR 0x0A, CHR 0x0A]) # out, fin))"

definition handleJobStream ::
  "(JobEvent \<Rightarrow> string) \<Rightarrow> nat \<Rightarrow> string \<Rightarrow> bool \<Rightarrow> Job option \<Rightarrow> stream_input list \<Rightarrow> JobStream
     \<Rightarrow> (string list \<times> bool) reply \<times> JobStream option" where
  "handleJobStream marshal newcap jobID flusher job ins js =
     (if jobID = [] then (HttpError ''job_id required'' 400, Some js)
      else if \<not> flusher then (HttpError ''streaming not supported'' 500, Some js)
      else
        let (ch, js1) = Subscribe newcap jobID js;
            first = (case job of None \<Rightarrow> [] | Some j \<Rightarrow> [data_frame marshal (job_event j)]);
            over = (case job of None \<Rightarrow> False | Some j \<Rightarrow> j_Status j = JobCompleted \<or> j_Status j = JobFailed);
            (out, fin) = (if over then ([], True) else stream_loop marshal ins)
        in (HttpOK (first @ out, fin), if fin then Unsubscribe jobID ch js1 else Some js1))"

section \<open>Interleavings\<close>

text \<open>
  A publisher has read the slice of its job's clients and reads its cells one by one, with no lock held. \<open>ss_job\<close> and
  \<open>ss_owner\<close> record for which job a channel was made and an array allocated; \<open>ss_got\<close> lists what was received from
  which channel.
\<close>

record publisher =
  pb_event :: JobEvent
  pb_slice :: chan_slice
  pb_i :: nat

record stream_sys =
  ss_js :: JobStream
  ss_pubs :: "publisher list"
  ss_job :: "chan_id \<Rightarrow> string"
  ss_owner :: "arr_id \<Rightarrow> string"
  ss_got :: "(chan_id \<times> JobEvent) list"

definition stream_init :: stream_sys where
  "stream_init = \<lparr>ss_js = globalJobStream, ss_pubs = [], ss_job = \<lambda>c. [], ss_owner = \<lambda>a. [], ss_got = []\<rparr>"

definition publish_start :: "JobEvent \<Rightarrow> JobStream \<Rightarrow> publisher" where
  "publish_start event js = \<lparr>pb_event = event,
     pb_slice = (case jst_clients js (ev_JobID event) of None \<Rightarrow> \<lparr>sl_arr = 0, sl_len = 0\<rparr> | Some sl \<Rightarrow> sl), pb_i = 0\<rparr>"

definition publish_next :: "publisher \<Rightarrow> JobStream \<Rightarrow> chan_id" where
  "publish_next p js = ar_cells (jst_arrays js (sl_arr (pb_slice p))) ! pb_i p"

inductive stream_step :: "stream_sys \<Rightarrow> stream_sys \<Rightarrow> bool" where
  subscribe: "Subscribe newcap jobID (ss_js s) = (c, js') \<Longrightarrow>
     stream_step s (s\<lparr>ss_js := js', ss_job := (ss_job s)(c := jobID), ss_owner := (ss_owner s)(jst_next_arr (ss_js s) := jobID)\<rparr>)"
| unsubscribe: "Unsubscribe jobID c (ss_js s) = Some js' \<Longrightarrow> stream_step s (s\<lparr>ss_js := js'\<rparr>)"
| receive: "jst_chans (ss_js s) c = Some ch \<Longrightarrow> ch_buf ch = e # rest \<Longrightarrow>
     stream_step s (s\<lparr>ss_js := (ss_js s)\<lparr>jst_chans := (jst_chans (ss_js s))(c \<mapsto> ch\<lparr>ch_buf := rest\<rparr>)\<rparr>, ss_got := ss_got s @ [(c, e)]\<rparr>)"
| publish: "stream_step s (s\<lparr>ss_pubs := ss_pubs s @ [publish_start event (ss_js s)]\<rparr>)"
| send: "k < length (ss_pubs s) \<Longrightarrow> p = ss_pubs s ! k \<Longrightarrow> pb_i p < sl_len (pb_slice p) \<Longrightarrow>
     try_send (pb_event p) (publish_next p (ss_js s)) (ss_js s) = Some js' \<Longrightarrow>
     stream_step s (s\<lparr>ss_js := js', ss_pubs := (ss_pubs s)[k := p\<lparr>pb_i := pb_i p + 1\<rparr>]\<rparr>)"

definition arrays_ok :: "stream_sys \<Rightarrow> bool" where
  "arrays_ok s \<longleftrightarrow> (\<forall>a < jst_next_arr (ss_js s). \<forall>c \<in> set (ar_cells (jst_arrays (ss_js s) a)).
     c < jst_next_chan (ss_js s) \<and> ss_job s c = ss_owner s a)"

definition slice_ok :: "stream_sys \<Rightarrow> string \<Rightarrow> chan_slice \<Rightarrow> bool" where
  "slice_ok s jobID sl \<longleftrightarrow> sl_arr sl < jst_next_arr (ss_js s) \<and> ss_owner s (sl_arr sl) = jobID \<and>
     sl_len sl \<le> length (ar_cells (jst_arrays (ss_js s) (sl_arr sl)))"

definition slices_ok :: "stream_sys \<Rightarrow> bool" where
  "slices_ok s \<longleftrightarrow> (\<forall>jobID sl. jst_clients (ss_js s) jobID = Some sl \<longrightarrow> slice_ok s jobID sl) \<and>
     (\<forall>p \<in> set (ss_pubs s). 0 < sl_len (pb_slice p) \<longrightarrow> slice_ok s (ev_JobID (pb_event p)) (pb_slice p))"

definition open_chan :: "JobStream \<Rightarrow> chan_id \<Rightarrow> bool" where
  "open_chan js c \<longleftrightarrow> (\<exists>ch. jst_chans js c = Some ch \<and> \<not> ch_closed ch)"

definition subscribers_ok :: "stream_sys \<Rightarrow> bool" where
  "subscribers_ok s \<longleftrightarrow> (\<forall>jobID. distinct (stream_clients (ss_js s) jobID) \<and>
     (\<forall>c \<in> set (stream_clients (ss_js s) jobID). open_chan (ss_js s) c))"

definition buffers_ok :: "stream_sys \<Rightarrow> bool" where
  "buffers_ok s \<longleftrightarrow> (\<forall>c ch. jst_chans (ss_js s) c = Some ch \<longrightarrow> c < jst_next_chan (ss_js s) \<and> length (ch_buf ch) \<le> 10 \<and>
       (\<forall>e \<in> set (ch_buf ch). ev_JobID e = ss_job s c)) \<and>
     (\<forall>(c, e) \<in> set (ss_got s). c < jst_next_chan (ss_js s) \<and> ev_JobID e = ss_job s c)"

definition stream_ok :: "stream_sys \<Rightarrow> bool" where
  "stream_ok s \<longleftrightarrow> arrays_ok s \<and> slices_ok s \<and> subscribers_ok s \<and> buffers_ok s"

lemma stream_okI: "arrays_ok s \<Longrightarrow> slices_ok s \<Longrightarrow> subscribers_ok s \<Longrightarrow> buffers_ok s \<Longrightarrow> stream_ok s"
  by (simp add: stream_ok_def)

lemma arrays_okD:
  "arrays_ok s \<Longrightarrow> a < jst_next_arr (ss_js s) \<Longrightarrow> c \<in> set (ar_cells (jst_arrays (ss_js s) a)) \<Longrightarrow>
     c < jst_next_chan (ss_js s) \<and> ss_job s c = ss_owner s a"
  by (simp add: arrays_ok_def)

lemma slices_okD:
  assumes "slices_ok s"
  shows "jst_clients (ss_js s) jobID = Some sl \<Longrightarrow> slice_ok s jobID sl"
    and "p \<in> set (ss_pubs s) \<Longrightarrow> 0 < sl_len (pb_slice p) \<Longrightarrow> slice_ok s (ev_JobID (pb_event p)) (pb_slice p)"
  using assms by (simp_all add: slices_ok_def)

lemma client_of_job:
  assumes "arrays_ok s" "slices_ok s" "c \<in> set (stream_clients (ss_js s) jobID)"
  shows "ss_job s c = jobID \<and> c < jst_next_chan (ss_js s)"
proof -
  obtain sl where sl: "jst_clients (ss_js s) jobID = Some sl" "c \<in> set (ar_cells (jst_arrays (ss_js s) (sl_arr sl)))"
    using assms(3) by (cases "jst_clients (ss_js s) jobID") (auto simp: stream_clients_def slice_items_def dest: in_set_takeD)
  with slices_okD(1) [OF assms(2) sl(1)] arrays_okD [OF assms(1) _ sl(2)] show ?thesis by (simp add: slice_ok_def)
qed

text \<open>The two ways a subscription can go: into a new array, or into the next cell of the job's array.\<close>

lemma Subscribe_cases:
  assumes "Subscribe newcap jobID js = (c, js')"
  obtains (alloc) cap where "c = jst_next_chan js"
      "js' = js\<lparr>jst_clients := (jst_clients js)(jobID \<mapsto> \<lparr>sl_arr = jst_next_arr js, sl_len =
            (case jst_clients js jobID of None \<Rightarrow> 0 | Some sl \<Rightarrow> sl_len sl) + 1\<rparr>),
          jst_arrays := (jst_arrays js)(jst_next_arr js := \<lparr>ar_cells = stream_clients js jobID @ [c], ar_cap = cap\<rparr>),
          jst_next_arr := jst_next_arr js + 1,
          jst_chans := (jst_chans js)(c \<mapsto> \<lparr>ch_buf = [], ch_closed = False\<rparr>), jst_next_chan := c + 1\<rparr>"
    | (inplace) sl where "c = jst_next_chan js" "jst_clients js jobID = Some sl"
      "js' = js\<lparr>jst_clients := (jst_clients js)(jobID \<mapsto> sl\<lparr>sl_len := sl_len sl + 1\<rparr>),
          jst_arrays := (jst_arrays js)(sl_arr sl := write_cell (sl_len sl) c (jst_arrays js (sl_arr sl))),
          jst_chans := (jst_chans js)(c \<mapsto> \<lparr>ch_buf = [], ch_closed = False\<rparr>), jst_next_chan := c + 1\<rparr>"
proof -
  note defs = Subscribe_def append_chan_def stream_clients_def slice_items_def Let_def
  have c: "c = jst_next_chan js" using assms by (simp add: Subscribe_def Let_def split: prod.splits)
  show ?thesis
  proof (cases "jst_clients js jobID")
    case None
    with assms show ?thesis by (intro alloc [OF c, of "max newcap 1"]) (auto simp: defs)
  next
    case (Some sl)
    show ?thesis
    proof (cases "sl_len sl < ar_cap (jst_arrays js (sl_arr sl))")
      case True
      with assms Some show ?thesis by (intro inplace [OF c Some]) (auto simp: defs)
    next
      case False
      with assms Some show ?thesis by (intro alloc [OF c, of "max newcap (sl_len sl + 1)"]) (auto simp: defs)
    qed
  qed
qed

lemma stream_clients_eq:
  "stream_clients js jobID = (case jst_clients js jobID of None \<Rightarrow> []
     | Some sl \<Rightarrow> take (sl_len sl) (ar_cells (jst_arrays js (sl_arr sl))))"
  by (simp add: stream_clients_def slice_items_def split: option.splits)

lemma stream_clients_alloc:
  assumes "slices_ok s"
  shows "length (stream_clients (ss_js s) jobID) = (case jst_clients (ss_js s) jobID of None \<Rightarrow> 0 | Some sl \<Rightarrow> sl_len sl)"
  using slices_okD(1) [OF assms, of jobID] by (auto simp: stream_clients_eq slice_ok_def split: option.splits)

lemma set_write_cell: "set (ar_cells (write_cell i c ar)) \<subseteq> insert c (set (ar_cells ar))"
  by (auto simp: write_cell_def dest: set_update_subset_insert [THEN subsetD])

lemma length_write_cell: "length (ar_cells ar) \<le> length (ar_cells (write_cell i c ar))"
  by (simp add: write_cell_def)

lemma length_write_cell_Suc: "i \<le> length (ar_cells ar) \<Longrightarrow> Suc i \<le> length (ar_cells (write_cell i c ar))"
  by (simp add: write_cell_def)

lemma take_write_cell: "i \<le> length (ar_cells ar) \<Longrightarrow> take (Suc i) (ar_cells (write_cell i c ar)) = take i (ar_cells ar) @ [c]"
  by (auto simp: write_cell_def take_Suc_conv_app_nth take_update_cancel)

lemma shift_out_cells:
  assumes "i < n" "n \<le> length (ar_cells ar)"
  shows "length (ar_cells (shift_out i n ar)) = length (ar_cells ar)"
    "set (ar_cells (shift_out i n ar)) \<subseteq> set (ar_cells ar)"
    "take (n - 1) (ar_cells (shift_out i n ar)) = remove_nth i (take n (ar_cells ar))"
  using assms set_remove_nth [of i "take n (ar_cells ar)"]
  by (auto simp: shift_out_def dest: in_set_dropD in_set_takeD)

abbreviation subscribed :: "string \<Rightarrow> chan_id \<Rightarrow> JobStream \<Rightarrow> stream_sys \<Rightarrow> stream_sys" where
  "subscribed jobID c js' s \<equiv>
     s\<lparr>ss_js := js', ss_job := (ss_job s)(c := jobID), ss_owner := (ss_owner s)(jst_next_arr (ss_js s) := jobID)\<rparr>"

lemma Subscribe_arrays_ok:
  assumes "stream_ok s" "Subscribe newcap jobID (ss_js s) = (c, js')"
  shows "arrays_ok (subscribed jobID c js' s)"
proof -
  have A: "arrays_ok s" "slices_ok s" using assms(1) by (auto simp: stream_ok_def)
  have old: "d < Suc c \<and> d \<noteq> c \<and> ss_job s d = ss_owner s a"
    if "a < jst_next_arr (ss_js s)" "d \<in> set (ar_cells (jst_arrays (ss_js s) a))" "c = jst_next_chan (ss_js s)" for a d
    using arrays_okD [OF A(1) that(1,2)] that(3) by simp
  show ?thesis
  proof (cases rule: Subscribe_cases [OF assms(2)])
    case (1 cap)
    with old client_of_job [OF A] show ?thesis by (fastforce simp: arrays_ok_def less_Suc_eq)
  next
    case (2 sl)
    from slices_okD(1) [OF A(2) 2(2)] have "sl_arr sl < jst_next_arr (ss_js s)" "ss_owner s (sl_arr sl) = jobID"
      by (auto simp: slice_ok_def)
    with 2 old show ?thesis
      by (auto simp: arrays_ok_def dest!: set_write_cell [THEN subsetD])
  qed
qed

lemma Subscribe_slices_ok:
  assumes "stream_ok s" "Subscribe newcap jobID (ss_js s) = (c, js')"
  shows "slices_ok (subscribed jobID c js' s)"
proof -
  have A: "slices_ok s" using assms(1) by (auto simp: stream_ok_def)
  have keep: "slice_ok (subscribed jobID c js' s) j sl'" if "slice_ok s j sl'" for j sl'
  proof (cases rule: Subscribe_cases [OF assms(2)])
    case (1 cap)
    with that show ?thesis by (auto simp: slice_ok_def)
  next
    case (2 sl)
    with that show ?thesis by (auto simp: slice_ok_def intro: order_trans [OF _ length_write_cell])
  qed
  have new: "slice_ok (subscribed jobID c js' s) jobID (the (jst_clients js' jobID))"
  proof (cases rule: Subscribe_cases [OF assms(2)])
    case (1 cap)
    then show ?thesis using stream_clients_alloc [OF A, of jobID] by (simp add: slice_ok_def)
  next
    case (2 sl)
    with slices_okD(1) [OF A 2(2)] show ?thesis by (auto simp: slice_ok_def intro!: length_write_cell_Suc)
  qed
  have other: "jst_clients js' j = jst_clients (ss_js s) j" if "j \<noteq> jobID" for j
    using that by (cases rule: Subscribe_cases [OF assms(2)]) simp_all
  have "slice_ok (subscribed jobID c js' s) j sl'" if "jst_clients js' j = Some sl'" for j sl'
    using that new other keep slices_okD(1) [OF A] by (cases "j = jobID") auto
  then show ?thesis using keep slices_okD(2) [OF A] by (simp add: slices_ok_def)
qed

lemma Subscribe_clients:
  assumes "stream_ok s" "Subscribe newcap jobID (ss_js s) = (c, js')"
  shows "stream_clients js' j = (if j = jobID then stream_clients (ss_js s) jobID @ [c] else stream_clients (ss_js s) j)"
proof -
  have A: "slices_ok s" using assms(1) by (auto simp: stream_ok_def)
  have other: "sl_arr sl' < jst_next_arr (ss_js s) \<and> ss_owner s (sl_arr sl') = j" if "jst_clients (ss_js s) j = Some sl'" for j sl'
    using slices_okD(1) [OF A that] by (simp add: slice_ok_def)
  show ?thesis
  proof (cases rule: Subscribe_cases [OF assms(2)])
    case (1 cap)
    then show ?thesis using stream_clients_alloc [OF A, of jobID] other [of j]
      by (auto simp: stream_clients_eq split: option.splits)
  next
    case (2 sl)
    then show ?thesis using slices_okD(1) [OF A 2(2)] other [of j] other [of jobID]
      by (auto simp: stream_clients_eq slice_ok_def take_write_cell split: option.splits)
  qed
qed

lemma Subscribe_chans:
  assumes "Subscribe newcap jobID js = (c, js')"
  shows "c = jst_next_chan js" "jst_next_chan js' = Suc c" "jst_chans js' = (jst_chans js)(c \<mapsto> \<lparr>ch_buf = [], ch_closed = False\<rparr>)"
  by (cases rule: Subscribe_cases [OF assms]; simp)+

lemma Subscribe_ok:
  assumes "stream_ok s" "Subscribe newcap jobID (ss_js s) = (c, js')"
  shows "stream_ok (subscribed jobID c js' s)"
proof (rule stream_okI)
  note ch = Subscribe_chans [OF assms(2)]
  have A: "arrays_ok s" "slices_ok s" "subscribers_ok s" "buffers_ok s" using assms(1) by (auto simp: stream_ok_def)
  have fresh: "c \<notin> set (stream_clients (ss_js s) j)" for j using client_of_job [OF A(1,2)] ch(1) by blast
  show "subscribers_ok (subscribed jobID c js' s)"
    using A(3) fresh by (auto simp: subscribers_ok_def Subscribe_clients [OF assms] open_chan_def ch(3))
  show "buffers_ok (subscribed jobID c js' s)"
    using A(4) by (fastforce simp: buffers_ok_def ch)
qed (rule Subscribe_arrays_ok [OF assms] Subscribe_slices_ok [OF assms])+

lemma drop_if_empty_clients: "stream_clients (drop_if_empty jobID js) j = stream_clients js j"
  by (auto simp: drop_if_empty_def stream_clients_def slice_items_def split: option.splits)

lemma drop_if_empty_ok:
  assumes "stream_ok s"
  shows "stream_ok (s\<lparr>ss_js := drop_if_empty jobID (ss_js s)\<rparr>)"
proof (rule stream_okI)
  let ?s = "s\<lparr>ss_js := drop_if_empty jobID (ss_js s)\<rparr>"
  have A: "arrays_ok s" "slices_ok s" "subscribers_ok s" "buffers_ok s" using assms by (auto simp: stream_ok_def)
  have same: "jst_arrays (ss_js ?s) = jst_arrays (ss_js s)" "jst_next_arr (ss_js ?s) = jst_next_arr (ss_js s)"
    "jst_chans (ss_js ?s) = jst_chans (ss_js s)" "jst_next_chan (ss_js ?s) = jst_next_chan (ss_js s)"
    and sub: "jst_clients (ss_js ?s) j = Some sl \<Longrightarrow> jst_clients (ss_js s) j = Some sl" for j sl
    by (auto simp: drop_if_empty_def split: if_splits)
  show "arrays_ok ?s" using A(1) same by (simp add: arrays_ok_def)
  show "slices_ok ?s" using slices_okD [OF A(2)] same sub by (fastforce simp: slices_ok_def slice_ok_def)
  show "subscribers_ok ?s" using A(3) same by (simp add: subscribers_ok_def drop_if_empty_clients open_chan_def)
  show "buffers_ok ?s" using A(4) same by (simp add: buffers_ok_def)
qed

text \<open>The state between the removal of a client and the test whether the job has any left.\<close>

definition removed :: "string \<Rightarrow> chan_id \<Rightarrow> chan_slice \<Rightarrow> nat \<Rightarrow> event_chan \<Rightarrow> JobStream \<Rightarrow> JobStream" where
  "removed jobID c sl i ch js = js\<lparr>jst_clients := (jst_clients js)(jobID \<mapsto> sl\<lparr>sl_len := sl_len sl - 1\<rparr>),
     jst_arrays := (jst_arrays js)(sl_arr sl := shift_out i (sl_len sl) (jst_arrays js (sl_arr sl))),
     jst_chans := (jst_chans js)(c \<mapsto> ch\<lparr>ch_closed := True\<rparr>)\<rparr>"

lemma Unsubscribe_cases:
  assumes "Unsubscribe jobID c js = Some js'"
  obtains (absent) "c \<notin> set (stream_clients js jobID)" "js' = drop_if_empty jobID js"
    | (present) sl i ch where "jst_clients js jobID = Some sl" "i < length (slice_items js sl)" "slice_items js sl ! i = c"
      "jst_chans js c = Some ch" "js' = drop_if_empty jobID (removed jobID c sl i ch js)"
proof (cases "jst_clients js jobID")
  case None
  with assms show ?thesis by (intro absent) (auto simp: Unsubscribe_def stream_clients_def)
next
  case (Some sl)
  show ?thesis
  proof (cases "find_index (\<lambda>x. x = c) (slice_items js sl)")
    case None
    with assms Some show ?thesis by (intro absent) (auto simp: Unsubscribe_def stream_clients_def find_index_None)
  next
    case (Some i)
    with assms \<open>jst_clients js jobID = Some sl\<close> find_index_SomeD [OF Some] show ?thesis
      by (auto simp: Unsubscribe_def close_chan_def removed_def split: option.splits if_splits intro!: present)
  qed
qed

lemma removed_clients:
  assumes "slices_ok s" "jst_clients (ss_js s) jobID = Some sl" "i < length (slice_items (ss_js s) sl)"
  shows "stream_clients (removed jobID c sl i ch (ss_js s)) j =
    (if j = jobID then remove_nth i (stream_clients (ss_js s) jobID) else stream_clients (ss_js s) j)"
proof -
  have sl: "slice_ok s jobID sl" using slices_okD(1) assms by blast
  then have i: "i < sl_len sl" "sl_len sl \<le> length (ar_cells (jst_arrays (ss_js s) (sl_arr sl)))"
    using assms(3) by (auto simp: slice_items_def slice_ok_def)
  have "sl_arr sl' \<noteq> sl_arr sl" if "jst_clients (ss_js s) j = Some sl'" "j \<noteq> jobID" for sl'
    using slices_okD(1) [OF assms(1) that(1)] sl that(2) by (auto simp: slice_ok_def)
  then show ?thesis using assms(2) shift_out_cells(3) [OF i]
    by (auto simp: stream_clients_eq removed_def split: option.splits)
qed

lemma distinct_remove_nth: "distinct xs \<Longrightarrow> i < length xs \<Longrightarrow> distinct (remove_nth i xs) \<and> xs ! i \<notin> set (remove_nth i xs)"
  by (metis distinct.simps(2) mset.simps(2) mset_eq_imp_distinct_iff mset_remove_nth)

lemma removed_ok:
  assumes "stream_ok s" "jst_clients (ss_js s) jobID = Some sl" "i < length (slice_items (ss_js s) sl)"
    and "slice_items (ss_js s) sl ! i = c" "jst_chans (ss_js s) c = Some ch"
  shows "stream_ok (s\<lparr>ss_js := removed jobID c sl i ch (ss_js s)\<rparr>)"
proof (rule stream_okI)
  let ?js = "removed jobID c sl i ch (ss_js s)" let ?s = "s\<lparr>ss_js := ?js\<rparr>"
  have A: "arrays_ok s" "slices_ok s" "subscribers_ok s" "buffers_ok s" using assms(1) by (auto simp: stream_ok_def)
  have sl: "slice_ok s jobID sl" using slices_okD(1) A(2) assms(2) by blast
  have i: "i < sl_len sl" "sl_len sl \<le> length (ar_cells (jst_arrays (ss_js s) (sl_arr sl)))"
    using sl assms(3) by (auto simp: slice_items_def slice_ok_def)
  note cells = shift_out_cells [OF i]
  show "arrays_ok ?s" using A(1) cells(2) by (auto simp: arrays_ok_def removed_def)
  have keep: "slice_ok ?s j sl'" if "slice_ok s j sl'" for j sl' using that cells(1) by (auto simp: slice_ok_def removed_def)
  moreover have "slice_ok ?s jobID (sl\<lparr>sl_len := sl_len sl - 1\<rparr>)" using keep [OF sl] by (auto simp: slice_ok_def)
  ultimately show "slices_ok ?s" using slices_okD [OF A(2)] by (auto simp: slices_ok_def removed_def)
  have items: "stream_clients (ss_js s) jobID = slice_items (ss_js s) sl" using assms(2) by (simp add: stream_clients_def)
  have d: "distinct (stream_clients (ss_js s) j)" for j using A(3) by (simp add: subscribers_ok_def)
  have gone: "c \<notin> set (stream_clients ?js j)" for j
  proof (cases "j = jobID")
    case True
    then show ?thesis
      using distinct_remove_nth [OF d [of jobID], of i] assms(3,4) items removed_clients [OF A(2) assms(2,3)] by simp
  next
    case False
    have "c \<in> set (stream_clients (ss_js s) jobID)" using assms(3,4) items by auto
    then have "ss_job s c = jobID" using client_of_job [OF A(1,2)] by blast
    with False show ?thesis using client_of_job [OF A(1,2), of c j] by (auto simp: removed_clients [OF A(2) assms(2,3)])
  qed
  have sub: "set (stream_clients ?js j) \<subseteq> set (stream_clients (ss_js s) j)" "distinct (stream_clients ?js j)" for j
    using d distinct_remove_nth [OF d [of jobID], of i] assms(3) items
    by (auto simp: removed_clients [OF A(2) assms(2,3)] dest: set_remove_nth [THEN subsetD])
  show "subscribers_ok ?s"
    unfolding subscribers_ok_def
  proof (intro allI conjI ballI)
    fix j d assume "d \<in> set (stream_clients (ss_js ?s) j)"
    then have "d \<noteq> c" "open_chan (ss_js s) d" using gone [of j] sub(1) [of j] A(3) by (auto simp: subscribers_ok_def)
    then show "open_chan (ss_js ?s) d" by (simp add: open_chan_def removed_def)
  qed (use sub(2) in simp)
  show "buffers_ok ?s" using A(4) assms(5) by (fastforce simp: buffers_ok_def removed_def)
qed

lemma Unsubscribe_ok:
  assumes "stream_ok s" "Unsubscribe jobID c (ss_js s) = Some js'"
  shows "stream_ok (s\<lparr>ss_js := js'\<rparr>)"
proof (cases rule: Unsubscribe_cases [OF assms(2)])
  case 1
  then show ?thesis using drop_if_empty_ok [OF assms(1)] by simp
next
  case (2 sl i ch)
  then show ?thesis using drop_if_empty_ok [OF removed_ok [OF assms(1) 2(1-4)]] by simp
qed

lemma chans_update_ok:
  assumes "stream_ok s" "jst_chans (ss_js s) c = Some ch" "ch_closed ch' = ch_closed ch" "length (ch_buf ch') \<le> 10"
    and "\<And>e. e \<in> set (ch_buf ch') \<Longrightarrow> ev_JobID e = ss_job s c"
  shows "stream_ok (s\<lparr>ss_js := (ss_js s)\<lparr>jst_chans := (jst_chans (ss_js s))(c \<mapsto> ch')\<rparr>\<rparr>)"
proof (rule stream_okI)
  let ?js = "(ss_js s)\<lparr>jst_chans := (jst_chans (ss_js s))(c \<mapsto> ch')\<rparr>" let ?s = "s\<lparr>ss_js := ?js\<rparr>"
  have A: "arrays_ok s" "slices_ok s" "subscribers_ok s" "buffers_ok s" using assms(1) by (auto simp: stream_ok_def)
  have same: "stream_clients ?js j = stream_clients (ss_js s) j" for j by (simp add: stream_clients_eq split: option.splits)
  have "open_chan (ss_js s) d \<Longrightarrow> open_chan ?js d" for d using assms(2,3) by (auto simp: open_chan_def)
  then show "subscribers_ok ?s" using A(3) by (auto simp: subscribers_ok_def same)
  show "arrays_ok ?s" using A(1) by (simp add: arrays_ok_def)
  show "slices_ok ?s" using A(2) by (simp add: slices_ok_def slice_ok_def)
  show "buffers_ok ?s" using A(4) assms(2,4,5) by (auto simp: buffers_ok_def)
qed

lemma try_send_cases:
  assumes "try_send event c js = Some js'"
  obtains "js' = js"
    | ch where "jst_chans js c = Some ch" "\<not> ch_closed ch" "length (ch_buf ch) < 10"
      "js' = js\<lparr>jst_chans := (jst_chans js)(c \<mapsto> ch\<lparr>ch_buf := ch_buf ch @ [event]\<rparr>)\<rparr>"
  using assms by (auto simp: try_send_def split: option.splits if_splits)

lemma publish_next_job:
  assumes "stream_ok s" "p \<in> set (ss_pubs s)" "pb_i p < sl_len (pb_slice p)"
  shows "ss_job s (publish_next p (ss_js s)) = ev_JobID (pb_event p)"
proof -
  have A: "arrays_ok s" "slices_ok s" using assms(1) by (auto simp: stream_ok_def)
  from slices_okD(2) [OF A(2) assms(2)] assms(3) have sl: "slice_ok s (ev_JobID (pb_event p)) (pb_slice p)" by simp
  then have "publish_next p (ss_js s) \<in> set (ar_cells (jst_arrays (ss_js s) (sl_arr (pb_slice p))))"
    using assms(3) by (auto simp: publish_next_def slice_ok_def)
  with sl show ?thesis using arrays_okD [OF A(1)] by (auto simp: slice_ok_def)
qed

lemma pubs_ok:
  assumes "stream_ok s" "\<And>p. p \<in> set ps \<Longrightarrow> 0 < sl_len (pb_slice p) \<Longrightarrow> slice_ok s (ev_JobID (pb_event p)) (pb_slice p)"
  shows "stream_ok (s\<lparr>ss_pubs := ps\<rparr>)"
  using assms unfolding stream_ok_def arrays_ok_def slices_ok_def subscribers_ok_def buffers_ok_def slice_ok_def by simp

lemma send_ok:
  assumes "stream_ok s" "p \<in> set (ss_pubs s)" "pb_i p < sl_len (pb_slice p)"
    and "try_send (pb_event p) (publish_next p (ss_js s)) (ss_js s) = Some js'"
  shows "stream_ok (s\<lparr>ss_js := js'\<rparr>)"
proof (cases rule: try_send_cases [OF assms(4)])
  case 1
  then show ?thesis using assms(1) by simp
next
  case (2 ch)
  have B: "buffers_ok s" using assms(1) by (simp add: stream_ok_def)
  have "ev_JobID e = ss_job s (publish_next p (ss_js s))" if "e \<in> set (ch_buf ch @ [pb_event p])" for e
    using that 2(1) B publish_next_job [OF assms(1-3)] by (auto simp: buffers_ok_def)
  with chans_update_ok [OF assms(1) 2(1), of "ch\<lparr>ch_buf := ch_buf ch @ [pb_event p]\<rparr>"] 2(3,4) show ?thesis by simp
qed

lemma got_ok:
  assumes "stream_ok s" "c < jst_next_chan (ss_js s)" "ev_JobID e = ss_job s c"
  shows "stream_ok (s\<lparr>ss_got := ss_got s @ [(c, e)]\<rparr>)"
  using assms unfolding stream_ok_def arrays_ok_def slices_ok_def subscribers_ok_def buffers_ok_def slice_ok_def by auto

lemma stream_ok_step: "stream_step s t \<Longrightarrow> stream_ok s \<Longrightarrow> stream_ok t"
proof (induction rule: stream_step.induct)
  case (subscribe newcap jobID s c js')
  then show ?case by (intro Subscribe_ok)
next
  case (unsubscribe jobID c s js')
  then show ?case by (intro Unsubscribe_ok)
next
  case (receive s c ch e rest)
  then have B: "buffers_ok s" by (simp add: stream_ok_def)
  let ?js = "(ss_js s)\<lparr>jst_chans := (jst_chans (ss_js s))(c \<mapsto> ch\<lparr>ch_buf := rest\<rparr>)\<rparr>"
  have "length (ch_buf ch) \<le> 10" "\<And>x. x \<in> set (ch_buf ch) \<Longrightarrow> ev_JobID x = ss_job s c" "c < jst_next_chan (ss_js s)"
    using B receive.hyps(1) by (auto simp: buffers_ok_def)
  with receive chans_update_ok [OF receive.prems receive.hyps(1), of "ch\<lparr>ch_buf := rest\<rparr>"]
  have "stream_ok (s\<lparr>ss_js := ?js\<rparr>)" "ev_JobID e = ss_job s c" by auto
  then show ?case using got_ok [of "s\<lparr>ss_js := ?js\<rparr>" c e] \<open>c < jst_next_chan (ss_js s)\<close> by simp
next
  case (publish s event)
  then have "slices_ok s" by (simp add: stream_ok_def)
  with publish show ?case
    by (intro pubs_ok) (auto simp: publish_start_def dest: slices_okD split: option.splits)
next
  case (send k s p js')
  have p: "p \<in> set (ss_pubs s)" using send by simp
  have S: "stream_ok (s\<lparr>ss_js := js'\<rparr>)" using send_ok [OF send.prems p] send by simp
  then have "slice_ok (s\<lparr>ss_js := js'\<rparr>) (ev_JobID (pb_event q)) (pb_slice q)"
    if "q \<in> set (ss_pubs s)" "0 < sl_len (pb_slice q)" for q
    using that slices_okD(2) [of "s\<lparr>ss_js := js'\<rparr>" q] by (simp add: stream_ok_def)
  with p have "slice_ok (s\<lparr>ss_js := js'\<rparr>) (ev_JobID (pb_event q)) (pb_slice q)"
    if "q \<in> set ((ss_pubs s)[k := p\<lparr>pb_i := pb_i p + 1\<rparr>])" "0 < sl_len (pb_slice q)" for q
    using that by (auto dest!: set_update_subset_insert [THEN subsetD])
  from pubs_ok [OF S this] show ?case by simp
qed

interpretation streams: invariant_system stream_step stream_ok
  by unfold_locales (rule stream_ok_step)

lemma stream_init_ok: "stream_ok stream_init"
  by (simp add: stream_ok_def arrays_ok_def slices_ok_def subscribers_ok_def buffers_ok_def stream_init_def globalJobStream_def
      stream_clients_def)

definition deliver :: "JobEvent \<Rightarrow> event_chan \<Rightarrow> event_chan" where
  "deliver event ch = (if length (ch_buf ch) < 10 then ch\<lparr>ch_buf := ch_buf ch @ [event]\<rparr> else ch)"

lemma send_all_delivers:
  "distinct cs \<Longrightarrow> (\<And>c. c \<in> set cs \<Longrightarrow> open_chan js c) \<Longrightarrow>
     send_all event cs js = Some (js\<lparr>jst_chans := \<lambda>c. if c \<in> set cs then map_option (deliver event) (jst_chans js c) else jst_chans js c\<rparr>)"
proof (induction cs arbitrary: js)
  case (Cons c cs)
  from Cons.prems(2) obtain ch where ch: "jst_chans js c = Some ch" "\<not> ch_closed ch" by (auto simp: open_chan_def)
  let ?js = "js\<lparr>jst_chans := (jst_chans js)(c \<mapsto> deliver event ch)\<rparr>"
  have t: "try_send event c js = Some ?js" using ch by (simp add: try_send_def deliver_def fun_upd_idem)
  have "open_chan ?js d" if "d \<in> set cs" for d using Cons.prems(1) Cons.prems(2) [of d] that by (auto simp: open_chan_def)
  with Cons.IH [of ?js] Cons.prems(1) ch t show ?case by (auto simp: fun_eq_iff)
qed simp

text \<open>
  C27. Publishing an event with nothing in between reaches exactly the subscribers of its job: in every state the streams
  can reach it does not panic, each subscriber of the job gets the event once as the newest in its buffer unless ten
  events are waiting there, and no other channel and no subscription changes.
\<close>

theorem Publish_delivers:
  assumes "stream_step\<^sup>*\<^sup>* stream_init s"
  shows "\<exists>js'. Publish event (ss_js s) = Some js' \<and> jst_clients js' = jst_clients (ss_js s) \<and>
    (\<forall>c. jst_chans js' c = (if c \<in> set (stream_clients (ss_js s) (ev_JobID event))
       then map_option (deliver event) (jst_chans (ss_js s) c) else jst_chans (ss_js s) c))"
proof -
  have "subscribers_ok s" using streams.invar_reach [OF assms stream_init_ok] by (simp add: stream_ok_def)
  then show ?thesis
    using send_all_delivers [of "stream_clients (ss_js s) (ev_JobID event)" "ss_js s" event]
    by (auto simp: subscribers_ok_def Publish_def)
qed

text \<open>
  C28. However subscriptions, departures and publishers interleave, although arrays are shifted under publishers that read
  them: what was received from a channel, and what waits in it, are events of the job the channel was made for; at
  most ten wait; and a subscriber of a job is subscribed with a channel made for that job.
\<close>

theorem stream_isolation:
  assumes "stream_step\<^sup>*\<^sup>* stream_init s"
  shows "(\<forall>(c, e) \<in> set (ss_got s). ev_JobID e = ss_job s c) \<and>
    (\<forall>c ch. jst_chans (ss_js s) c = Some ch \<longrightarrow> length (ch_buf ch) \<le> 10 \<and> (\<forall>e \<in> set (ch_buf ch). ev_JobID e = ss_job s c)) \<and>
    (\<forall>jobID. \<forall>c \<in> set (stream_clients (ss_js s) jobID). ss_job s c = jobID \<and> open_chan (ss_js s) c)"
proof -
  have S: "stream_ok s" by (rule streams.invar_reach [OF assms stream_init_ok])
  then have A: "arrays_ok s" "slices_ok s" "subscribers_ok s" "buffers_ok s" by (auto simp: stream_ok_def)
  show ?thesis using client_of_job [OF A(1,2)] A(3,4) by (auto simp: subscribers_ok_def buffers_ok_def)
qed

section \<open>Leaving while an event is published\<close>

definition sample_event :: JobEvent where
  "sample_event = \<lparr>ev_JobID = ''j'', ev_Status = ''running'', ev_Result = None, ev_Error = [], ev_Progress = 0\<rparr>"

definition one_client :: JobStream where
  "one_client = snd (Subscribe 1 ''j'' globalJobStream)"

definition sample_subscribed :: stream_sys where
  "sample_subscribed = subscribed ''j'' 0 one_client stream_init"

lemma one_client_eq:
  "one_client = globalJobStream\<lparr>jst_clients := [''j'' \<mapsto> \<lparr>sl_arr = 0, sl_len = 1\<rparr>],
     jst_arrays := (jst_arrays globalJobStream)(0 := \<lparr>ar_cells = [0], ar_cap = 1\<rparr>), jst_next_arr := 1,
     jst_chans := [0 \<mapsto> \<lparr>ch_buf = [], ch_closed = False\<rparr>], jst_next_chan := 1\<rparr>"
  by (simp add: one_client_def Subscribe_def append_chan_def globalJobStream_def Let_def)

lemma sample_stream_run: "stream_step\<^sup>*\<^sup>* stream_init sample_subscribed"
proof -
  have "Subscribe 1 ''j'' (ss_js stream_init) = (0, one_client)"
    by (simp add: one_client_def stream_init_def Subscribe_def append_chan_def globalJobStream_def Let_def)
  from stream_step.subscribe [OF this] show ?thesis by (simp add: sample_subscribed_def)
qed

theorem Publish_delivers_witness:
  "stream_step\<^sup>*\<^sup>* stream_init sample_subscribed \<and>
   (\<exists>js'. Publish sample_event (ss_js sample_subscribed) = Some js' \<and>
      jst_chans js' 0 = Some \<lparr>ch_buf = [sample_event], ch_closed = False\<rparr>)"
  using sample_stream_run Publish_delivers [OF sample_stream_run, of sample_event]
  by (auto simp: sample_subscribed_def one_client_eq stream_clients_def slice_items_def sample_event_def deliver_def)

theorem stream_isolation_witness:
  "stream_step\<^sup>*\<^sup>* stream_init sample_subscribed \<and> 0 \<in> set (stream_clients (ss_js sample_subscribed) ''j'') \<and>
   ss_job sample_subscribed 0 = ''j''"
  using sample_stream_run stream_isolation [OF sample_stream_run]
  by (auto simp: sample_subscribed_def one_client_eq stream_clients_def slice_items_def)

text \<open>
  A subscriber that leaves between the moment a publisher has read the list of clients and the moment it sends makes the
  publisher send on a closed channel, which panics.
\<close>

lemma publish_race_panics:
  "\<exists>s p. stream_step\<^sup>*\<^sup>* stream_init s \<and> p \<in> set (ss_pubs s) \<and> pb_i p < sl_len (pb_slice p) \<and>
     try_send (pb_event p) (publish_next p (ss_js s)) (ss_js s) = None"
proof -
  let ?p = "publish_start sample_event one_client"
  let ?s = "sample_subscribed\<lparr>ss_pubs := [?p]\<rparr>"
  obtain js where js: "Unsubscribe ''j'' 0 one_client = Some js" "jst_chans js 0 = Some \<lparr>ch_buf = [], ch_closed = True\<rparr>"
    "ar_cells (jst_arrays js 0) = [0]"
    by (simp add: Unsubscribe_def one_client_eq slice_items_def close_chan_def drop_if_empty_def stream_clients_def shift_out_def
        remove_nth_def)
  have "stream_step sample_subscribed ?s"
    using stream_step.publish [of sample_subscribed sample_event]
    by (simp add: sample_subscribed_def stream_init_def)
  moreover have "stream_step ?s (?s\<lparr>ss_js := js\<rparr>)"
    using js(1) by (intro stream_step.unsubscribe) (simp add: sample_subscribed_def)
  ultimately have "stream_step\<^sup>*\<^sup>* stream_init (?s\<lparr>ss_js := js\<rparr>)" using sample_stream_run by (meson rtranclp.rtrancl_into_rtrancl)
  moreover have "pb_i ?p < sl_len (pb_slice ?p)" "try_send (pb_event ?p) (publish_next ?p js) js = None"
    using js(2,3) by (simp_all add: publish_start_def one_client_eq sample_event_def publish_next_def try_send_def)
  ultimately show ?thesis by (intro exI [of _ "?s\<lparr>ss_js := js\<rparr>"] exI [of _ ?p]) simp
qed

text \<open>A job that is over ends its stream: what comes after the event that says so is not written.\<close>

lemma stream_loop_ends:
  "ev_Status event \<in> {''completed'', ''failed''} \<Longrightarrow>
     stream_loop marshal (map ChanEvent es @ ChanEvent event # ins) = stream_loop marshal (map ChanEvent es @ [ChanEvent event])"
  by (induction es) auto

end
