(* ===== verification/Usage_DB.thy ===== *)
theory Usage_DB
  imports Job_Model "HOL-Library.List_Lexorder" "HOL-Library.Char_ord"
begin

text \<open>
  The table of token usage (\<^verbatim>\<open>hive-server-go/db.go\<close>): inserting a record, the reports and their totals, the recent records, the
  time series, the histogram of speeds, pruning. The theory shows that the totals of the report are the totals of the
  table however it is grouped, that the histogram counts every matching record in the bin whose range contains it
  and never panics for a positive number of bins, and that pruning keeps exactly the young records.

  A table is the list of its rows in the order of insertion (the order of the automatic key). Every statement may fail in
  the engine: \<open>err\<close> is the error it then reports. Where \<^verbatim>\<open>ORDER BY\<close> leaves the order of equal rows open, the order is
  an argument: \<open>ord key xs\<close> are the rows \<open>xs\<close>, sorted by \<open>key\<close>.
\<close>

section \<open>Rows and statements\<close>

type_synonym 'a sql_order = "('a \<Rightarrow> real) \<Rightarrow> 'a list \<Rightarrow> 'a list"

definition sql_order_ok :: "'a sql_order \<Rightarrow> bool" where
  "sql_order_ok ord \<longleftrightarrow> (\<forall>key xs. mset (ord key xs) = mset xs \<and> sorted (map key (ord key xs)))"

definition sql_limit :: "int \<Rightarrow> 'a list \<Rightarrow> 'a list" where
  "sql_limit n xs = (if n < 0 then xs else take (nat n) xs)"

definition sql_result :: "string option \<Rightarrow> 'a \<Rightarrow> string + 'a" where
  "sql_result err x = (case err of Some e \<Rightarrow> Inl e | None \<Rightarrow> Inr x)"

type_synonym usage_table = "TokenRecord list"

definition usage_Insert :: "string option \<Rightarrow> TokenRecord \<Rightarrow> usage_table \<Rightarrow> string option \<times> usage_table" where
  "usage_Insert err rec db = (case err of Some e \<Rightarrow> (Some e, db) | None \<Rightarrow> (None, db @ [rec]))"

record UsageReport =
  ur_Provider :: string
  ur_Model :: string
  ur_TotalPrompts :: int
  ur_TotalCompletions :: int
  ur_TotalTokens :: int
  ur_TotalDurationSeconds :: real
  ur_AvgTokensPerSecond :: real
  ur_AvgDurationSeconds :: real
  ur_JobCount :: int
  ur_ServingNode :: string
  ur_ServingType :: string

type_synonym usage_key = "string \<times> string \<times> string \<times> string"

definition usage_key :: "TokenRecord \<Rightarrow> usage_key" where
  "usage_key r = (tr_Provider r, tr_Model r, tr_ServingNode r, tr_ServingType r)"

definition report_of :: "usage_table \<Rightarrow> usage_key \<Rightarrow> UsageReport" where
  "report_of db k =
     (let rows = filter (\<lambda>r. usage_key r = k) db;
          prompts = sum_list (map tr_PromptTokens rows);
          completions = sum_list (map tr_CompletionTokens rows);
          tokens = sum_list (map tr_TotalTokens rows);
          dur = sum_list (map tr_DurationSeconds rows);
          n = int (length rows);
          avg = n > 0 \<and> dur > 0
      in \<lparr>ur_Provider = fst k, ur_Model = fst (snd k), ur_TotalPrompts = prompts, ur_TotalCompletions = completions,
          ur_TotalTokens = tokens, ur_TotalDurationSeconds = dur,
          ur_AvgTokensPerSecond = (if avg then of_int tokens / dur else 0),
          ur_AvgDurationSeconds = (if avg then dur / of_int n else 0),
          ur_JobCount = n, ur_ServingNode = fst (snd (snd k)), ur_ServingType = snd (snd (snd k))\<rparr>)"

definition GetReports :: "string option \<Rightarrow> UsageReport sql_order \<Rightarrow> usage_table \<Rightarrow> string + UsageReport list" where
  "GetReports err ord db =
     (case sql_result err (ord (\<lambda>r. - of_int (ur_TotalTokens r)) (map (report_of db) (remdups (map usage_key db)))) of
        Inl e \<Rightarrow> Inl (''query reports: '' @ e) | Inr rs \<Rightarrow> Inr rs)"

record UsageSummary =
  us_total_prompts :: int
  us_total_completions :: int
  us_total_tokens :: int
  us_total_jobs :: int
  us_total_duration :: real
  us_avg_tps :: real
  us_avg_duration :: real
  us_by_provider_model :: "UsageReport list"

definition GetSummary :: "string option \<Rightarrow> UsageReport sql_order \<Rightarrow> usage_table \<Rightarrow> string + UsageSummary" where
  "GetSummary err ord db = (case GetReports err ord db of
     Inl e \<Rightarrow> Inl e
   | Inr reports \<Rightarrow>
       let tokens = foldl (\<lambda>s r. s + ur_TotalTokens r) 0 reports;
           jobs = foldl (\<lambda>s r. s + ur_JobCount r) 0 reports;
           dur = foldl (\<lambda>s r. s + ur_TotalDurationSeconds r) 0 reports;
           avg = jobs > 0 \<and> dur > 0
       in Inr \<lparr>us_total_prompts = foldl (\<lambda>s r. s + ur_TotalPrompts r) 0 reports,
               us_total_completions = foldl (\<lambda>s r. s + ur_TotalCompletions r) 0 reports,
               us_total_tokens = tokens, us_total_jobs = jobs, us_total_duration = dur,
               us_avg_tps = (if avg then of_int tokens / dur else 0),
               us_avg_duration = (if avg then dur / of_int jobs else 0),
               us_by_provider_model = reports\<rparr>)"

definition GetRecent :: "string option \<Rightarrow> int \<Rightarrow> usage_table \<Rightarrow> string + TokenRecord list" where
  "GetRecent err limit db = sql_result (map_option (\<lambda>e. ''query recent: '' @ e) err) (sql_limit limit (rev db))"

record TimeSeriesPoint =
  tp_Timestamp :: real
  tp_TPS :: real
  tp_Model :: string

definition usage_match :: "string \<Rightarrow> real \<Rightarrow> TokenRecord \<Rightarrow> bool" where
  "usage_match model since r \<longleftrightarrow> tr_Timestamp r \<ge> since \<and> (model \<noteq> [] \<longrightarrow> tr_Model r = model)"

definition GetTimeSeries ::
  "string option \<Rightarrow> TokenRecord sql_order \<Rightarrow> string \<Rightarrow> real \<Rightarrow> usage_table \<Rightarrow> string + TimeSeriesPoint list" where
  "GetTimeSeries err ord model since db = sql_result (map_option (\<lambda>e. ''query timeseries: '' @ e) err)
     (map (\<lambda>r. \<lparr>tp_Timestamp = tr_Timestamp r, tp_TPS = tr_TokensPerSecond r, tp_Model = tr_Model r\<rparr>)
        (ord tr_Timestamp (filter (usage_match model since) db)))"

definition usage_GetModels :: "string option \<Rightarrow> usage_table \<Rightarrow> string + string list" where
  "usage_GetModels err db = sql_result (map_option (\<lambda>e. ''query models: '' @ e) err) (sort (remdups (map tr_Model db)))"

definition Prune :: "string option \<Rightarrow> gotime \<Rightarrow> real \<Rightarrow> usage_table \<Rightarrow> string option \<times> usage_table" where
  "Prune err now maxAge db = (case err of
     Some e \<Rightarrow> (Some e, db)
   | None \<Rightarrow> (None, filter (\<lambda>r. \<not> tr_Timestamp r < now_seconds now - maxAge) db))"

section \<open>The histogram\<close>

record HistogramBin =
  hb_MinTPS :: real
  hb_MaxTPS :: real
  hb_Count :: int

record HistogramResult =
  hr_Bins :: "HistogramBin list"
  hr_MinTPS :: real
  hr_MaxTPS :: real
  hr_AvgTPS :: real
  hr_Median :: real
  hr_Count :: int
  hr_Model :: string
  hr_Since :: real

definition histogram_values :: "string \<Rightarrow> real \<Rightarrow> usage_table \<Rightarrow> real list" where
  "histogram_values model since db =
     sort (map tr_TokensPerSecond (filter (\<lambda>r. usage_match model since r \<and> tr_TokensPerSecond r > 0) db))"

definition bin_index :: "real \<Rightarrow> real \<Rightarrow> int \<Rightarrow> real \<Rightarrow> int" where
  "bin_index lo binSize numBins v =
     (let idx = trunc_float ((v - lo) / binSize) in if idx \<ge> numBins then numBins - 1 else idx)"

text \<open>\<open>None\<close>: an index out of range, which panics.\<close>

fun count_bins :: "real \<Rightarrow> real \<Rightarrow> int \<Rightarrow> real list \<Rightarrow> int list \<Rightarrow> int list option" where
  "count_bins lo binSize numBins [] counts = Some counts"
| "count_bins lo binSize numBins (v # vs) counts =
     (let idx = bin_index lo binSize numBins v
      in if 0 \<le> idx \<and> idx < int (length counts)
         then count_bins lo binSize numBins vs (counts[nat idx := counts ! nat idx + 1])
         else None)"

definition median :: "real list \<Rightarrow> real" where
  "median values = (let mid = length values div 2
     in if length values mod 2 = 0 then (values ! (mid - 1) + values ! mid) / 2 else values ! mid)"

definition GetHistogram ::
  "string option \<Rightarrow> string \<Rightarrow> real \<Rightarrow> int \<Rightarrow> usage_table \<Rightarrow> (string + HistogramResult) option" where
  "GetHistogram err model since numBins db = (case err of
     Some e \<Rightarrow> Some (Inl (''query histogram: '' @ e))
   | None \<Rightarrow>
       let values = histogram_values model since db;
           res = \<lparr>hr_Bins = [], hr_MinTPS = 0, hr_MaxTPS = 0, hr_AvgTPS = 0, hr_Median = 0,
             hr_Count = int (length values), hr_Model = model, hr_Since = since\<rparr>
       in if values = [] then Some (Inr res)
          else
            let lo = values ! 0; hi = values ! (length values - 1);
                rng = (if hi - lo = 0 then 1 else hi - lo);
                binSize = rng / of_int numBins
            in if numBins < 0 then None
               else map_option (\<lambda>counts. Inr (res\<lparr>hr_MinTPS := lo, hr_MaxTPS := hi,
                      hr_AvgTPS := foldl (+) 0 values / of_int (int (length values)), hr_Median := median values,
                      hr_Bins := map (\<lambda>i. \<lparr>hb_MinTPS = lo + of_int (int i) * binSize, hb_MaxTPS = lo + of_int (int i + 1) * binSize,
                        hb_Count = counts ! i\<rparr>) [0 ..< nat numBins]\<rparr>))
                    (count_bins lo binSize numBins values (replicate (nat numBins) 0)))"

section \<open>What the histogram shows\<close>

lemma bin_index_range:
  assumes "lo \<le> v" "0 < b" "1 \<le> n"
  shows "0 \<le> bin_index lo b n v \<and> bin_index lo b n v < n"
  using assms trunc_float_nonneg [of "(v - lo) / b"] by (simp add: bin_index_def Let_def)

lemma bin_index_iff:
  assumes "lo \<le> v" "0 < b" "0 \<le> i" "i < n"
  shows "bin_index lo b n v = i \<longleftrightarrow> lo + of_int i * b \<le> v \<and> (v < lo + of_int (i + 1) * b \<or> i = n - 1)"
proof -
  let ?x = "(v - lo) / b"
  have t: "trunc_float ?x = \<lfloor>?x\<rfloor>" using assms by (simp add: trunc_float_def)
  have le: "lo + of_int k * b \<le> v \<longleftrightarrow> k \<le> \<lfloor>?x\<rfloor>" for k
    using assms(2) by (simp add: le_floor_iff pos_le_divide_eq algebra_simps)
  have "lo + of_int (i + 1) * b \<le> v \<longleftrightarrow> i + 1 \<le> \<lfloor>?x\<rfloor>" by (rule le)
  then have "v < lo + of_int (i + 1) * b \<longleftrightarrow> \<lfloor>?x\<rfloor> < i + 1" by linarith
  with le [of i] assms(3,4) show ?thesis by (auto simp: bin_index_def Let_def t)
qed

lemma count_bins_counts:
  assumes "\<And>v. v \<in> set vs \<Longrightarrow> 0 \<le> bin_index lo b n v \<and> bin_index lo b n v < n" "length counts = nat n"
  shows "\<exists>cs. count_bins lo b n vs counts = Some cs \<and> length cs = nat n \<and>
    (\<forall>i < nat n. cs ! i = counts ! i + int (length (filter (\<lambda>v. bin_index lo b n v = int i) vs)))"
  using assms
proof (induction vs arbitrary: counts)
  case (Cons v vs)
  let ?k = "bin_index lo b n v" let ?c = "counts[nat ?k := counts ! nat ?k + 1]"
  have "0 \<le> ?k" "?k < n" using Cons.prems(1) [of v] by auto
  then have k: "0 \<le> ?k" "?k < int (length counts)" using Cons.prems(2) by linarith+
  from Cons.IH [of ?c] Cons.prems obtain cs where cs: "count_bins lo b n vs ?c = Some cs" "length cs = nat n"
    "\<forall>i < nat n. cs ! i = ?c ! i + int (length (filter (\<lambda>v. bin_index lo b n v = int i) vs))" by auto
  have "cs ! i = counts ! i + int (length (filter (\<lambda>v. bin_index lo b n v = int i) (v # vs)))" if "i < nat n" for i
    using cs(3) that k Cons.prems(2) by (auto simp: nth_list_update)
  with cs k show ?case by (simp add: Let_def)
qed simp

lemma sorted_median:
  assumes "sorted xs" "xs \<noteq> []"
  shows "xs ! 0 \<le> median xs \<and> median xs \<le> xs ! (length xs - 1)"
proof -
  have le: "xs ! i \<le> xs ! j" if "i \<le> j" "j < length xs" for i j using assms(1) that by (rule sorted_nth_mono)
  let ?m = "length xs div 2"
  have m: "?m < length xs" "?m - 1 < length xs" "?m \<le> length xs - 1" "?m - 1 \<le> length xs - 1"
    using assms(2) by (cases xs; simp)+
  have "xs ! 0 \<le> xs ! (?m - 1)" "xs ! 0 \<le> xs ! ?m" "xs ! (?m - 1) \<le> xs ! (length xs - 1)" "xs ! ?m \<le> xs ! (length xs - 1)"
    using m assms(2) by (auto intro!: le)
  then show ?thesis by (auto simp: median_def Let_def)
qed

text \<open>The bins of a histogram partition the values.\<close>

lemma filter_bins_total:
  assumes "\<And>v. v \<in> set vs \<Longrightarrow> 0 \<le> f v \<and> f v < int n"
  shows "(\<Sum>i < n. length (filter (\<lambda>v. f v = int i) vs)) = length vs"
  using assms
proof (induction vs)
  case (Cons v vs)
  have eq: "f v = int i \<longleftrightarrow> i = nat (f v)" for i using Cons.prems [of v] by auto
  have "(\<Sum>i < n. length (filter (\<lambda>v. f v = int i) (v # vs)))
      = (\<Sum>i < n. (if i = nat (f v) then 1 else 0) + length (filter (\<lambda>v. f v = int i) vs))"
    by (rule sum.cong) (simp_all add: eq)
  also have "\<dots> = (\<Sum>i < n. if i = nat (f v) then 1 else 0) + length vs"
    using Cons by (simp add: sum.distrib)
  also have "\<dots> = Suc (length vs)" using Cons.prems [of v] by (simp add: sum.delta nat_less_iff)
  finally show ?case by simp
qed simp

lemma histogram_values_range:
  assumes "v \<in> set (histogram_values model since db)"
  shows "histogram_values model since db ! 0 \<le> v"
    "v \<le> histogram_values model since db ! (length (histogram_values model since db) - 1)"
proof -
  let ?vs = "histogram_values model since db"
  obtain i where i: "i < length ?vs" "v = ?vs ! i" using assms by (auto simp: in_set_conv_nth)
  have s: "sorted ?vs" by (simp add: histogram_values_def)
  show "?vs ! 0 \<le> v" "v \<le> ?vs ! (length ?vs - 1)" using i s by (auto intro: sorted_nth_mono)
qed

lemma histogram_index:
  assumes "vs = histogram_values model since db" "lo = vs ! 0" "hi = vs ! (length vs - 1)"
    "b = (if hi - lo = 0 then 1 else hi - lo) / of_int n" "1 \<le> n" "v \<in> set vs"
  shows "0 \<le> bin_index lo b n v \<and> bin_index lo b n v < n"
proof -
  have "lo \<le> v" "v \<le> hi" using histogram_values_range [of v model since db] assms by simp_all
  then show ?thesis using assms(4,5) by (intro bin_index_range) auto
qed

lemma GetHistogram_total:
  assumes "1 \<le> n"
  shows "GetHistogram err model since n db \<noteq> None"
proof -
  define vs where "vs = histogram_values model since db"
  define lo where "lo = vs ! 0"
  define hi where "hi = vs ! (length vs - 1)"
  define b where "b = (if hi - lo = 0 then 1 else hi - lo) / of_int n"
  have "count_bins lo b n vs (replicate (nat n) 0) \<noteq> None"
    using count_bins_counts [of vs lo b n "replicate (nat n) 0", OF histogram_index [OF vs_def lo_def hi_def b_def assms]] by auto
  then show ?thesis using assms
    unfolding GetHistogram_def Let_def vs_def [symmetric] lo_def [symmetric] hi_def [symmetric] b_def [symmetric]
    by (simp split: option.splits)
qed


section \<open>Totals\<close>

lemma sum_list_pick:
  fixes c :: "'b::comm_monoid_add"
  shows "distinct ks \<Longrightarrow> k \<in> set ks \<Longrightarrow> sum_list (map (\<lambda>j. if j = k then c + g j else g j) ks) = c + sum_list (map g ks)"
proof (induction ks)
  case (Cons j ks)
  show ?case
  proof (cases "j = k")
    case True
    then have "map (\<lambda>j. if j = k then c + g j else g j) ks = map g ks" using Cons.prems(1) by (intro map_cong) auto
    then have "sum_list (map (\<lambda>j. if j = k then c + g j else g j) ks) = sum_list (map g ks)" by (rule arg_cong)
    with True show ?thesis by (simp add: add.assoc)
  next
    case False
    with Cons show ?thesis by (simp add: add.left_commute)
  qed
qed simp

lemma group_sums:
  fixes f :: "'a \<Rightarrow> 'b::comm_monoid_add"
  assumes "distinct ks" "key ` set xs \<subseteq> set ks"
  shows "sum_list (map (\<lambda>k. sum_list (map f (filter (\<lambda>x. key x = k) xs))) ks) = sum_list (map f xs)"
  using assms(2)
proof (induction xs)
  case Nil
  show ?case by (induction ks) simp_all
next
  case (Cons x xs)
  let ?g = "\<lambda>k. sum_list (map f (filter (\<lambda>y. key y = k) xs))"
  have "(\<lambda>k. sum_list (map f (filter (\<lambda>y. key y = k) (x # xs)))) = (\<lambda>k. if k = key x then f x + ?g k else ?g k)"
    by auto
  moreover have "sum_list (map (\<lambda>k. if k = key x then f x + ?g k else ?g k) ks) = f x + sum_list (map ?g ks)"
    using Cons.prems by (intro sum_list_pick assms(1)) simp
  ultimately show ?case using Cons by (simp only: list.map sum_list.Cons) simp
qed

lemma foldl_sum: "foldl (\<lambda>s r. s + f r) a xs = a + sum_list (map f xs)" for f :: "'a \<Rightarrow> 'b::comm_monoid_add"
  by (induction xs arbitrary: a) (simp_all add: add.assoc)

lemma ordered_sum:
  fixes f :: "'a \<Rightarrow> 'b::comm_monoid_add"
  shows "sql_order_ok ord \<Longrightarrow> sum_list (map f (ord key xs)) = sum_list (map f xs)"
  by (metis mset_map sql_order_ok_def sum_mset_sum_list)

lemma reports_sum:
  fixes f :: "TokenRecord \<Rightarrow> 'b::comm_monoid_add"
  assumes "sql_order_ok ord" "\<And>k. g (report_of db k) = sum_list (map f (filter (\<lambda>r. usage_key r = k) db))"
  shows "sum_list (map g (ord key (map (report_of db) (remdups (map usage_key db))))) = sum_list (map f db)"
  using group_sums [of "remdups (map usage_key db)" usage_key db f]
  by (simp add: ordered_sum [OF assms(1)] assms(2) o_def)

text \<open>
  C30. The totals of the usage summary do not depend on how the records are grouped or ordered: they are the totals over all
  records of the table, and the number of jobs is the number of records; each report of the summary adds up the
  records of its provider, model and node.
\<close>

theorem GetSummary_totals:
  assumes "sql_order_ok ord"
  shows "\<exists>s. GetSummary None ord db = Inr s \<and> us_total_prompts s = sum_list (map tr_PromptTokens db) \<and>
    us_total_completions s = sum_list (map tr_CompletionTokens db) \<and> us_total_tokens s = sum_list (map tr_TotalTokens db) \<and>
    us_total_duration s = sum_list (map tr_DurationSeconds db) \<and> us_total_jobs s = int (length db) \<and>
    set (us_by_provider_model s) = report_of db ` usage_key ` set db"
proof -
  note sums = reports_sum [OF assms, of _ db]
  have jobs: "sum_list (map ur_JobCount (ord key (map (report_of db) (remdups (map usage_key db))))) = int (length db)" for key
    by (subst sums [where f = "\<lambda>r. 1"]) (simp_all add: report_of_def Let_def sum_list_triv)
  have "set (ord key (map (report_of db) (remdups (map usage_key db)))) = report_of db ` usage_key ` set db" for key
    using assms unfolding sql_order_ok_def by (metis image_set list.set_map mset_eq_setD set_remdups)
  then show ?thesis
    by (auto simp: GetSummary_def GetReports_def sql_result_def Let_def foldl_sum jobs
        sums [where g = ur_TotalPrompts and f = tr_PromptTokens]
        sums [where g = ur_TotalCompletions and f = tr_CompletionTokens]
        sums [where g = ur_TotalTokens and f = tr_TotalTokens]
        sums [where g = ur_TotalDurationSeconds and f = tr_DurationSeconds] report_of_def)
qed

text \<open>Pruning keeps exactly the records that are not older than the age given, and the newest records come first.\<close>

lemma Prune_exact: "set (snd (Prune None now age db)) = {r \<in> set db. now_seconds now - age \<le> tr_Timestamp r}"
  by (auto simp: Prune_def)

lemma GetRecent_newest:
  "snd (usage_Insert None rec db) = db @ [rec]" "0 < n \<Longrightarrow> GetRecent None n (db @ [rec]) = Inr (rec # take (nat n - 1) (rev db))"
  by (simp_all add: usage_Insert_def GetRecent_def sql_result_def sql_limit_def take_Cons')

section \<open>Witnesses\<close>

definition sample_usage :: TokenRecord where
  "sample_usage = \<lparr>tr_Provider = ''ollama'', tr_Model = ''llama3'', tr_PromptTokens = 3, tr_CompletionTokens = 4, tr_TotalTokens = 7,
     tr_DurationSeconds = 1, tr_TokensPerSecond = 7, tr_JobType = ''chat'', tr_ClientID = ''c'', tr_JobID = ''j'',
     tr_ServingNode = ''n'', tr_ServingType = ''CPU'', tr_Timestamp = 10\<rparr>"

lemma sort_key_order_ok: "sql_order_ok sort_key"
  by (simp add: sql_order_ok_def)

theorem GetSummary_totals_witness:
  "sql_order_ok (sort_key :: UsageReport sql_order) \<and>
   (\<exists>s. GetSummary None sort_key [sample_usage, sample_usage] = Inr s \<and> us_total_tokens s = 14 \<and> us_total_jobs s = 2)"
  using GetSummary_totals [of sort_key "[sample_usage, sample_usage]"] sort_key_order_ok
  by (auto simp: sample_usage_def)


end
