(* ===== verification/Agent_DB.thy ===== *)
theory Agent_DB
  imports Usage_DB
begin

text \<open>
  The tables of the coding agent (\<^verbatim>\<open>hive-server-go/db.go\<close>, structures from \<^verbatim>\<open>coding_agent.go\<close>): sessions, messages and the audit
  log, with the statements the server runs on them. The theory shows that a stored session is read back as it was,
  that the updated columns and no others change, that deleting a session leaves nothing of it, what searching
  finds, and what replacing old messages by a summary does to the conversation.

  Keys declared \<^verbatim>\<open>PRIMARY KEY\<close> make an insertion fail when the key exists. SQLite does not enforce foreign keys unless told to, and
  the server does not tell it to. A failed transaction is rolled back. As in the table of usage, \<open>err\<close> is the error the
  engine reports, if it does.
\<close>

section \<open>Rows\<close>

record CodingAgentSession =
  cs_ID :: string
  cs_AgentType :: string
  cs_Model :: string
  cs_TokenBudget :: int
  cs_Status :: string
  cs_SystemPrompt :: string
  cs_Metadata :: "jobj option"
  cs_CreatedAt :: real
  cs_UpdatedAt :: real
  cs_TotalMessages :: int
  cs_TotalTokens :: int
  cs_Compressions :: int

record CodingAgentMessage =
  cg_ID :: string
  cg_SessionID :: string
  cg_Role :: string
  cg_Content :: string
  cg_TokenCount :: int
  cg_CompressGroup :: int
  cg_IsSummary :: bool
  cg_MetadataJSON :: string
  cg_CreatedAt :: real

record CodingAgentAuditEntry =
  ca_ID :: int
  ca_SessionID :: string
  ca_AgentType :: string
  ca_Model :: string
  ca_Role :: string
  ca_Content :: string
  ca_TokenCount :: int
  ca_CompressGroup :: int
  ca_IsSummary :: bool
  ca_CreatedAt :: real

text \<open>A row of the sessions: the columns, and the metadata as JSON text. \<open>ad_audit_seq\<close> is the last automatic key.\<close>

type_synonym session_row = "CodingAgentSession \<times> string"

record AgentDB =
  ad_sessions :: "session_row list"
  ad_messages :: "CodingAgentMessage list"
  ad_audit :: "CodingAgentAuditEntry list"
  ad_audit_seq :: int

text \<open>\<^verbatim>\<open>json.Marshal\<close> of a map, and \<^verbatim>\<open>json.Unmarshal\<close> into one (\<open>None\<close>: it stays nil).\<close>

record json_codec =
  jc_enc :: "jobj \<Rightarrow> string"
  jc_dec :: "string \<Rightarrow> jobj option"

definition empty_agent_db :: AgentDB where
  "empty_agent_db = \<lparr>ad_sessions = [], ad_messages = [], ad_audit = [], ad_audit_seq = 0\<rparr>"

definition unique_error :: "string \<Rightarrow> string" where
  "unique_error table = ''UNIQUE constraint failed: '' @ table @ ''.id''"

definition estimateTokens :: "string \<Rightarrow> int" where
  "estimateTokens s = (if length s = 0 then 0 else let tokens = int (length s) div 4 in if tokens < 1 then 1 else tokens)"

definition millis :: "gotime \<Rightarrow> string" where
  "millis t = dec_int (t div 1000000)"

section \<open>Sessions\<close>

definition metadata_text :: "json_codec \<Rightarrow> jobj option \<Rightarrow> string" where
  "metadata_text jc md = (case md of None \<Rightarrow> ''{}'' | Some m \<Rightarrow> jc_enc jc m)"

definition read_session :: "json_codec \<Rightarrow> session_row \<Rightarrow> CodingAgentSession" where
  "read_session jc = (\<lambda>(s, md). s\<lparr>cs_Metadata := (if md \<noteq> [] \<and> md \<noteq> ''{}'' then jc_dec jc md else None)\<rparr>)"

definition InsertCodingAgentSession ::
  "json_codec \<Rightarrow> string option \<Rightarrow> CodingAgentSession \<Rightarrow> AgentDB \<Rightarrow> string option \<times> AgentDB" where
  "InsertCodingAgentSession jc err s db =
     (case err of
        Some e \<Rightarrow> (Some e, db)
      | None \<Rightarrow>
          if cs_ID s \<in> cs_ID ` fst ` set (ad_sessions db) then (Some (unique_error ''coding_agent_sessions''), db)
          else (None, db\<lparr>ad_sessions := ad_sessions db @ [(s\<lparr>cs_Metadata := None\<rparr>, metadata_text jc (cs_Metadata s))]\<rparr>))"

definition GetCodingAgentSession ::
  "json_codec \<Rightarrow> string option \<Rightarrow> string \<Rightarrow> AgentDB \<Rightarrow> string + CodingAgentSession option" where
  "GetCodingAgentSession jc err i db =
     sql_result err (map_option (read_session jc) (find (\<lambda>(s, md). cs_ID s = i) (ad_sessions db)))"

definition ListCodingAgentSessions ::
  "json_codec \<Rightarrow> string option \<Rightarrow> session_row sql_order \<Rightarrow> string \<Rightarrow> AgentDB \<Rightarrow> string + CodingAgentSession list" where
  "ListCodingAgentSessions jc err ord agentType db = sql_result err (map (read_session jc) (sql_limit 200
     (ord (\<lambda>(s, md). - cs_CreatedAt s) (filter (\<lambda>(s, md). agentType \<noteq> [] \<longrightarrow> cs_AgentType s = agentType) (ad_sessions db)))))"

definition set_session_columns :: "CodingAgentSession \<Rightarrow> CodingAgentSession \<Rightarrow> CodingAgentSession" where
  "set_session_columns new s = s\<lparr>cs_Status := cs_Status new, cs_TotalMessages := cs_TotalMessages new,
     cs_TotalTokens := cs_TotalTokens new, cs_Compressions := cs_Compressions new, cs_UpdatedAt := cs_UpdatedAt new\<rparr>"

definition UpdateCodingAgentSession :: "string option \<Rightarrow> CodingAgentSession \<Rightarrow> AgentDB \<Rightarrow> string option \<times> AgentDB" where
  "UpdateCodingAgentSession err s db = (case err of
     Some e \<Rightarrow> (Some e, db)
   | None \<Rightarrow> (None, db\<lparr>ad_sessions := map (\<lambda>(r, md). (if cs_ID r = cs_ID s then set_session_columns s r else r, md)) (ad_sessions db)\<rparr>))"

definition DeleteCodingAgentSession :: "string option \<Rightarrow> string \<Rightarrow> AgentDB \<Rightarrow> string option \<times> AgentDB" where
  "DeleteCodingAgentSession err i db = (case err of
     Some e \<Rightarrow> (Some e, db)
   | None \<Rightarrow> (None, db\<lparr>ad_messages := filter (\<lambda>m. cg_SessionID m \<noteq> i) (ad_messages db),
       ad_audit := filter (\<lambda>a. ca_SessionID a \<noteq> i) (ad_audit db),
       ad_sessions := filter (\<lambda>(s, md). cs_ID s \<noteq> i) (ad_sessions db)\<rparr>))"

section \<open>Messages\<close>

definition InsertCodingAgentMessage :: "string option \<Rightarrow> CodingAgentMessage \<Rightarrow> AgentDB \<Rightarrow> string option \<times> AgentDB" where
  "InsertCodingAgentMessage err msg db =
     (let m = msg\<lparr>cg_MetadataJSON := (if cg_MetadataJSON msg = [] then ''{}'' else cg_MetadataJSON msg)\<rparr>
      in case err of
           Some e \<Rightarrow> (Some e, db)
         | None \<Rightarrow>
             if cg_ID m \<in> cg_ID ` set (ad_messages db) then (Some (unique_error ''coding_agent_messages''), db)
             else (None, db\<lparr>ad_messages := ad_messages db @ [m]\<rparr>))"

definition session_messages :: "string \<Rightarrow> AgentDB \<Rightarrow> CodingAgentMessage list" where
  "session_messages i db = filter (\<lambda>m. cg_SessionID m = i) (ad_messages db)"

definition GetCodingAgentMessages ::
  "string option \<Rightarrow> CodingAgentMessage sql_order \<Rightarrow> string \<Rightarrow> int \<Rightarrow> AgentDB \<Rightarrow> string + CodingAgentMessage list" where
  "GetCodingAgentMessages err ord i limit db =
     sql_result err (let ms = ord cg_CreatedAt (session_messages i db) in if limit > 0 then sql_limit limit ms else ms)"

definition summary_message :: "gotime \<Rightarrow> string \<Rightarrow> string \<Rightarrow> int \<Rightarrow> CodingAgentMessage" where
  "summary_message t i summaryContent compressGroup =
     \<lparr>cg_ID = ''msg-'' @ i @ ''-summary-'' @ millis t, cg_SessionID = i, cg_Role = ''system'', cg_Content = summaryContent,
      cg_TokenCount = estimateTokens summaryContent, cg_CompressGroup = compressGroup, cg_IsSummary = True,
      cg_MetadataJSON = ''{\"type\":\"context_summary\"}'', cg_CreatedAt = now_seconds t\<rparr>"

text \<open>\<open>err1\<close>, \<open>err2\<close>: what goes wrong in reading the messages and in the transaction.\<close>

definition CompressCodingAgentMessages ::
  "string option \<Rightarrow> string option \<Rightarrow> CodingAgentMessage sql_order \<Rightarrow> gotime \<Rightarrow> string \<Rightarrow> nat \<Rightarrow> string \<Rightarrow> int \<Rightarrow> AgentDB
     \<Rightarrow> string option \<times> AgentDB" where
  "CompressCodingAgentMessages err1 err2 ord t i splitIdx0 summaryContent compressGroup db =
     (case GetCodingAgentMessages err1 ord i 0 db of
        Inl e \<Rightarrow> (Some e, db)
      | Inr msgs \<Rightarrow>
          let splitIdx = (if splitIdx0 > length msgs then length msgs else splitIdx0)
          in if splitIdx \<le> 1 then (None, db)
             else case err2 of
                 Some e \<Rightarrow> (Some e, db)
               | None \<Rightarrow>
                   let old = set (map cg_ID (drop 1 (take splitIdx msgs)));
                       kept = filter (\<lambda>m. cg_ID m \<notin> old) (ad_messages db);
                       s = summary_message t i summaryContent compressGroup
                   in if cg_ID s \<in> cg_ID ` set kept then (Some (unique_error ''coding_agent_messages''), db)
                      else (None, db\<lparr>ad_messages := kept @ [s]\<rparr>))"

section \<open>Audit log and search\<close>

definition InsertCodingAgentAuditEntry :: "string option \<Rightarrow> CodingAgentAuditEntry \<Rightarrow> AgentDB \<Rightarrow> string option \<times> AgentDB" where
  "InsertCodingAgentAuditEntry err entry db = (case err of
     Some e \<Rightarrow> (Some e, db)
   | None \<Rightarrow> (None, db\<lparr>ad_audit := ad_audit db @ [entry\<lparr>ca_ID := ad_audit_seq db + 1\<rparr>], ad_audit_seq := ad_audit_seq db + 1\<rparr>))"

definition GetCodingAgentAuditLogs :: "string option \<Rightarrow> string \<Rightarrow> int \<Rightarrow> AgentDB \<Rightarrow> string + CodingAgentAuditEntry list" where
  "GetCodingAgentAuditLogs err i limit db =
     sql_result err (sql_limit (if limit \<le> 0 then 500 else limit) (rev (filter (\<lambda>a. ca_SessionID a = i) (ad_audit db))))"

text \<open>SQL's \<^verbatim>\<open>LIKE\<close>: a percent sign matches any text, an underscore any character, and letters match in either case.\<close>

fun sql_like :: "string \<Rightarrow> string \<Rightarrow> bool" where
  "sql_like [] s = (s = [])"
| "sql_like (p # ps) [] = (p = CHR ''%'' \<and> sql_like ps [])"
| "sql_like (p # ps) (c # cs) =
     (if p = CHR ''%'' then sql_like ps (c # cs) \<or> sql_like (p # ps) cs
      else (p = CHR ''_'' \<or> lower_char p = lower_char c) \<and> sql_like ps cs)"

definition SearchCodingAgentMessages ::
  "string option \<Rightarrow> CodingAgentMessage sql_order \<Rightarrow> string \<Rightarrow> int \<Rightarrow> AgentDB \<Rightarrow> string + CodingAgentMessage list" where
  "SearchCodingAgentMessages err ord query limit db =
     sql_result err (sql_limit (if limit \<le> 0 then 50 else limit)
       (ord (\<lambda>m. - cg_CreatedAt m) (filter (\<lambda>m. sql_like (''%'' @ query @ ''%'') (cg_Content m)) (ad_messages db))))"

section \<open>Storing and reading\<close>

text \<open>
  What the server relies on for the metadata of a session: the JSON text of the map decodes to that map, and only the
  empty map is written as two braces.
\<close>

definition codec_ok :: "json_codec \<Rightarrow> jobj option \<Rightarrow> bool" where
  "codec_ok jc md \<longleftrightarrow> (case md of None \<Rightarrow> True
     | Some m \<Rightarrow> if m = [] then jc_enc jc m = ''{}''
         else jc_enc jc m \<noteq> ''{}'' \<and> jc_enc jc m \<noteq> [] \<and> jc_dec jc (jc_enc jc m) = Some m)"

lemma read_metadata: "codec_ok jc (cs_Metadata s) \<Longrightarrow>
   read_session jc (s\<lparr>cs_Metadata := None\<rparr>, metadata_text jc (cs_Metadata s))
     = s\<lparr>cs_Metadata := (if cs_Metadata s = Some [] then None else cs_Metadata s)\<rparr>"
  by (auto simp: read_session_def metadata_text_def codec_ok_def split: option.splits if_splits)

text \<open>
  A session that could be stored is read back as it was stored, an empty metadata map as none; the other sessions are
  read as before; and storing fails exactly if its ID is taken.
\<close>

theorem session_roundtrip:
  assumes "codec_ok jc (cs_Metadata s)" "GetCodingAgentSession jc None (cs_ID s) db = Inr None"
  shows "\<exists>db'. InsertCodingAgentSession jc None s db = (None, db') \<and>
    GetCodingAgentSession jc None (cs_ID s) db'
      = Inr (Some (s\<lparr>cs_Metadata := (if cs_Metadata s = Some [] then None else cs_Metadata s)\<rparr>)) \<and>
    (\<forall>i. i \<noteq> cs_ID s \<longrightarrow> GetCodingAgentSession jc None i db' = GetCodingAgentSession jc None i db) \<and>
    fst (InsertCodingAgentSession jc None s db') \<noteq> None"
proof -
  let ?r = "(s\<lparr>cs_Metadata := None\<rparr>, metadata_text jc (cs_Metadata s))"
  let ?db = "db\<lparr>ad_sessions := ad_sessions db @ [?r]\<rparr>"
  have none: "find (\<lambda>(s', md). cs_ID s' = cs_ID s) (ad_sessions db) = None"
    using assms(2) by (simp add: GetCodingAgentSession_def sql_result_def)
  then have fresh: "cs_ID s \<notin> cs_ID ` fst ` set (ad_sessions db)" by (force simp: find_None_iff)
  have find_append: "find P (xs @ [y]) = (case find P xs of Some x \<Rightarrow> Some x | None \<Rightarrow> if P y then Some y else None)"
    for P :: "session_row \<Rightarrow> bool" and xs y by (induction xs) auto
  have "GetCodingAgentSession jc None i ?db = GetCodingAgentSession jc None i db" if "i \<noteq> cs_ID s" for i
    using that by (simp add: GetCodingAgentSession_def sql_result_def find_append split: option.splits)
  moreover have "GetCodingAgentSession jc None (cs_ID s) ?db
      = Inr (Some (s\<lparr>cs_Metadata := (if cs_Metadata s = Some [] then None else cs_Metadata s)\<rparr>))"
    using none read_metadata [OF assms(1)] by (simp add: GetCodingAgentSession_def sql_result_def find_append)
  ultimately show ?thesis using fresh by (intro exI [of _ ?db]) (simp add: InsertCodingAgentSession_def)
qed

lemma Delete_leaves_nothing:
  assumes "DeleteCodingAgentSession None i db = (e, db')"
  shows "e = None" "session_messages i db' = []" "GetCodingAgentSession jc None i db' = Inr None"
    "GetCodingAgentAuditLogs None i n db' = Inr []" "j \<noteq> i \<Longrightarrow> session_messages j db' = session_messages j db"
  using assms
  by (auto simp: DeleteCodingAgentSession_def session_messages_def GetCodingAgentSession_def GetCodingAgentAuditLogs_def
      sql_result_def sql_limit_def find_None_iff filter_empty_conv intro: filter_cong [OF refl])

lemma Update_columns:
  assumes "UpdateCodingAgentSession None s db = (e, db')"
  shows "ad_messages db' = ad_messages db" "map (cs_ID \<circ> fst) (ad_sessions db') = map (cs_ID \<circ> fst) (ad_sessions db)"
    "map snd (ad_sessions db') = map snd (ad_sessions db)"
  using assms by (auto simp: UpdateCodingAgentSession_def set_session_columns_def)

text \<open>Searching for a text without wildcards finds the messages that contain it, in whatever case.\<close>

lemma sql_like_any: "sql_like ''%'' s"
  by (induction s) auto

lemma sql_like_plain:
  "CHR ''%'' \<notin> set q \<Longrightarrow> CHR ''_'' \<notin> set q \<Longrightarrow> sql_like (q @ ''%'') s \<longleftrightarrow> has_prefix (to_lower s) (to_lower q)"
proof (induction q arbitrary: s)
  case Nil
  then show ?case by (simp add: sql_like_any to_lower_def)
next
  case (Cons p q)
  show ?case
  proof (cases s)
    case Nil
    with Cons.prems show ?thesis by (auto simp: has_prefix_def to_lower_def)
  next
    case (Cons c cs)
    with Cons.prems Cons.IH [of cs] show ?thesis by (auto simp: has_prefix_def to_lower_def)
  qed
qed

lemma sql_like_contains:
  assumes "CHR ''%'' \<notin> set q" "CHR ''_'' \<notin> set q"
  shows "sql_like (''%'' @ q @ ''%'') s \<longleftrightarrow> str_contains (to_lower s) (to_lower q)"
proof (induction s)
  case Nil
  then show ?case using sql_like_plain [OF assms, of "[]"] by (auto simp: to_lower_def has_prefix_def)
next
  case (Cons c cs)
  then show ?case using sql_like_plain [OF assms, of "c # cs"] by (simp add: to_lower_def)
qed

section \<open>Replacing old messages by a summary\<close>

text \<open>Where the keys differ there is only one order.\<close>

lemma sql_order_unique:
  assumes "sql_order_ok ord" "mset ys = mset xs" "sorted_wrt (<) (map key ys)"
  shows "ord key xs = ys"
proof -
  have o: "mset (ord key xs) = mset xs" "sorted (map key (ord key xs))" using assms(1) by (auto simp: sql_order_ok_def)
  have d: "sorted (map key ys)" "distinct (map key ys)" using assms(3) strict_sorted_iff by blast+
  have "mset (map key (ord key xs)) = mset (map key ys)" using o(1) assms(2) by simp
  then have "map key (ord key xs) = map key ys" by (metis d(1) o(2) properties_for_sort)
  moreover have "inj_on key (set (ord key xs) \<union> set ys)"
    using d(2) o(1) assms(2) by (metis Un_absorb distinct_map mset_eq_setD)
  ultimately show ?thesis by (rule map_inj_on)
qed

lemma filter_old_ids:
  assumes "distinct (map cg_ID msgs)" "1 \<le> k" "k \<le> length msgs"
  shows "filter (\<lambda>m. cg_ID m \<notin> set (map cg_ID (drop 1 (take k msgs)))) msgs = hd msgs # drop k msgs"
proof -
  let ?mid = "drop 1 (take k msgs)"
  have split: "msgs = hd msgs # ?mid @ drop k msgs"
    using assms(2,3) by (cases msgs; cases k) (auto simp flip: append_take_drop_id)
  then have d: "distinct (map cg_ID (hd msgs # ?mid @ drop k msgs))" using assms(1) by simp
  have "filter (\<lambda>m. cg_ID m \<notin> set (map cg_ID ?mid)) (hd msgs # ?mid @ drop k msgs) = hd msgs # drop k msgs"
  proof -
    have "filter (\<lambda>m. cg_ID m \<notin> set (map cg_ID ?mid)) ?mid = []" by (auto simp: filter_empty_conv)
    moreover have "filter (\<lambda>m. cg_ID m \<notin> set (map cg_ID ?mid)) (drop k msgs) = drop k msgs"
      using d by (intro filter_True) auto
    ultimately show ?thesis using d by auto
  qed
  with split show ?thesis by metis
qed

lemma Compress_frame:
  assumes ids: "distinct (map cg_ID (ad_messages db))" and ord: "sql_order_ok ord"
    and c: "CompressCodingAgentMessages e1 e2 ord t i k txt grp db = (r, db')"
  shows "distinct (map cg_ID (ad_messages db'))" "j \<noteq> i \<Longrightarrow> session_messages j db' = session_messages j db"
    "m \<in> set (ad_messages db') \<Longrightarrow> m \<in> set (ad_messages db) \<or> cg_SessionID m = i"
    "ad_sessions db' = ad_sessions db" "ad_audit db' = ad_audit db" "ad_audit_seq db' = ad_audit_seq db"
proof -
  let ?msgs = "ord cg_CreatedAt (session_messages i db)" let ?s = "summary_message t i txt grp"
  define old where "old = set (map cg_ID (drop 1 (take (min k (length ?msgs)) ?msgs)))"
  let ?kept = "filter (\<lambda>m. cg_ID m \<notin> old) (ad_messages db)"
  have cases: "db' = db \<or> cg_ID ?s \<notin> cg_ID ` set ?kept \<and> db' = db\<lparr>ad_messages := ?kept @ [?s]\<rparr>"
    using c unfolding CompressCodingAgentMessages_def old_def
    by (auto simp: GetCodingAgentMessages_def sql_result_def Let_def min_def split: option.splits if_splits sum.splits)
  have "set ?msgs = set (session_messages i db)" using ord by (metis mset_eq_setD sql_order_ok_def)
  then have mine: "m \<in> set ?msgs \<Longrightarrow> m \<in> set (ad_messages db) \<and> cg_SessionID m = i" for m by (auto simp: session_messages_def)
  have keep: "cg_ID m \<notin> old" if "m \<in> set (ad_messages db)" "cg_SessionID m \<noteq> i" for m
  proof
    assume "cg_ID m \<in> old"
    then obtain m' where "m' \<in> set ?msgs" "cg_ID m' = cg_ID m" by (auto simp: old_def dest!: in_set_dropD in_set_takeD)
    then show False using that mine [of m'] ids by (auto simp: distinct_map dest: inj_onD)
  qed
  have si: "cg_SessionID ?s = i" by (simp add: summary_message_def)
  show "distinct (map cg_ID (ad_messages db'))" using cases ids by (auto simp: distinct_map_filter)
  show "session_messages j db' = session_messages j db" if "j \<noteq> i"
  proof -
    have "filter (\<lambda>m. cg_SessionID m = j) ?kept = session_messages j db"
      unfolding session_messages_def filter_filter using keep that by (intro filter_cong) auto
    then have "session_messages j (db\<lparr>ad_messages := ?kept @ [?s]\<rparr>) = session_messages j db"
      using that si by (simp only: session_messages_def AgentDB.simps filter_append) simp
    then show ?thesis using cases by blast
  qed
  show "m \<in> set (ad_messages db') \<Longrightarrow> m \<in> set (ad_messages db) \<or> cg_SessionID m = i" using cases si by auto
  show "ad_sessions db' = ad_sessions db" "ad_audit db' = ad_audit db" "ad_audit_seq db' = ad_audit_seq db" using cases by auto
qed

lemma compressed_messages:
  assumes ord: "sql_order_ok ord" and ids: "distinct (map cg_ID (ad_messages db))"
    and msgs: "msgs = ord cg_CreatedAt (session_messages i db)" and times: "sorted_wrt (<) (map cg_CreatedAt msgs)"
    and k: "1 < k" "k \<le> length msgs" and now: "\<And>m. m \<in> set msgs \<Longrightarrow> cg_CreatedAt m < now_seconds t"
    and fresh: "cg_ID (summary_message t i txt grp) \<notin> cg_ID ` set (ad_messages db)"
  obtains db' where "CompressCodingAgentMessages None None ord t i k txt grp db = (None, db')"
    "ord cg_CreatedAt (session_messages i db') = hd msgs # drop k msgs @ [summary_message t i txt grp]"
    "mset (session_messages i db') = mset (hd msgs # drop k msgs @ [summary_message t i txt grp])"
    "\<And>j. j \<noteq> i \<Longrightarrow> session_messages j db' = session_messages j db" "distinct (map cg_ID (ad_messages db'))"
    "ad_sessions db' = ad_sessions db" "ad_audit db' = ad_audit db" "ad_audit_seq db' = ad_audit_seq db"
proof -
  let ?old = "set (map cg_ID (drop 1 (take k msgs)))" let ?s = "summary_message t i txt grp"
  let ?kept = "filter (\<lambda>m. cg_ID m \<notin> ?old) (ad_messages db)" let ?db = "db\<lparr>ad_messages := ?kept @ [?s]\<rparr>"
  let ?new = "hd msgs # drop k msgs @ [?s]"
  have mm: "mset msgs = mset (session_messages i db)" using ord msgs by (simp add: sql_order_ok_def)
  have sm: "set msgs = set (session_messages i db)" using mm by (metis mset_eq_setD)
  have "distinct (map cg_ID (session_messages i db))" using ids by (simp add: session_messages_def distinct_map_filter)
  then have dm: "distinct (map cg_ID msgs)" by (metis mm mset_eq_imp_distinct_iff mset_map)
  have si: "cg_SessionID ?s = i" by (simp add: summary_message_def)
  have "mset (session_messages i ?db) = mset (filter (\<lambda>m. cg_ID m \<notin> ?old) (session_messages i db)) + {#?s#}"
    using si by (simp add: session_messages_def conj_commute)
  also have "mset (filter (\<lambda>m. cg_ID m \<notin> ?old) (session_messages i db)) = mset (filter (\<lambda>m. cg_ID m \<notin> ?old) msgs)"
    by (simp add: mm mset_filter)
  also have "filter (\<lambda>m. cg_ID m \<notin> ?old) msgs = hd msgs # drop k msgs" using dm k by (intro filter_old_ids) auto
  finally have m: "mset (session_messages i ?db) = mset ?new" by simp
  have "msgs \<noteq> []" using k by auto
  then have split: "msgs = (hd msgs # drop 1 (take k msgs)) @ drop k msgs"
    using k by (cases msgs; cases k) (auto simp flip: append_take_drop_id)
  have "sorted_wrt (<) (map cg_CreatedAt ((hd msgs # drop 1 (take k msgs)) @ drop k msgs))" using times split by simp
  moreover have "cg_CreatedAt x < cg_CreatedAt ?s" if "x \<in> set (hd msgs # drop k msgs)" for x
    using now [of x] that \<open>msgs \<noteq> []\<close> by (auto simp: summary_message_def dest: in_set_dropD)
  ultimately have "sorted_wrt (<) (map cg_CreatedAt ?new)" by (auto simp: sorted_wrt_append)
  then have o: "ord cg_CreatedAt (session_messages i ?db) = ?new" by (rule sql_order_unique [OF ord m [symmetric]])
  have notin: "cg_ID ?s \<notin> cg_ID ` set ?kept" using fresh by auto
  have c: "CompressCodingAgentMessages None None ord t i k txt grp db = (None, ?db)"
    unfolding CompressCodingAgentMessages_def using notin k msgs
    by (simp add: GetCodingAgentMessages_def sql_result_def Let_def)
  show ?thesis using c o m Compress_frame(2) [OF ids ord c] Compress_frame(1) [OF ids ord c] by (rule that) simp_all
qed

section \<open>Witnesses\<close>

definition sample_session :: CodingAgentSession where
  "sample_session = \<lparr>cs_ID = ''ca-codex-1'', cs_AgentType = ''codex'', cs_Model = ''llama3'', cs_TokenBudget = 8192, cs_Status = ''active'',
     cs_SystemPrompt = [], cs_Metadata = Some [(''k'', JNull)], cs_CreatedAt = 0, cs_UpdatedAt = 0, cs_TotalMessages = 0,
     cs_TotalTokens = 0, cs_Compressions = 0\<rparr>"

definition sample_codec :: json_codec where
  "sample_codec = \<lparr>jc_enc = \<lambda>m. if m = [] then ''{}'' else ''{\"k\":null}'', jc_dec = \<lambda>s. Some [(''k'', JNull)]\<rparr>"

theorem session_roundtrip_witness:
  "codec_ok sample_codec (cs_Metadata sample_session) \<and>
   (\<exists>db'. InsertCodingAgentSession sample_codec None sample_session empty_agent_db = (None, db') \<and>
      GetCodingAgentSession sample_codec None ''ca-codex-1'' db' = Inr (Some sample_session))"
proof -
  have c: "codec_ok sample_codec (cs_Metadata sample_session)" by (simp add: codec_ok_def sample_codec_def sample_session_def)
  have g: "GetCodingAgentSession sample_codec None (cs_ID sample_session) empty_agent_db = Inr None"
    by (simp add: GetCodingAgentSession_def sql_result_def empty_agent_db_def)
  from session_roundtrip [OF c g] c show ?thesis by (auto simp: sample_session_def)
qed

end
