(* ===== verification/Coding_Agent.thy ===== *)
theory Coding_Agent
  imports Agent_DB Job_Queue Mesh Model_Context
begin

text \<open>
  The coding agent (\<^verbatim>\<open>hive-server-go/coding_agent.go\<close>): sessions with a conversation that is kept in the database, sent to a
  model through the job queue (or a peer, or directly, when the queue is full), and compressed when it outgrows its
  budget. The theory shows that the tokens counted for a session are those of its messages, that an archived session
  takes no message, what compression removes and where the summary ends up, and that a session deleted while a
  message is under way comes back.

  Sessions are shared by pointer: \<open>cam_heap\<close> holds them. Sending a message waits for the model for up to ten minutes, so it is split
  where it waits: \<open>SendMessage_start\<close> does what comes before, \<open>finishMessage\<close> what comes after. Within each part the clock is
  read as one time. \<open>ae_db n\<close> is the error the database engine reports for the \<open>n\<close>-th statement of a part, if it does.
\<close>

section \<open>State\<close>

definition AgentTypeCustom :: string where "AgentTypeCustom = ''custom''"
definition SessionActive :: string where "SessionActive = ''active''"
definition SessionArchived :: string where "SessionArchived = ''archived''"
definition CompressThresholdPct :: real where "CompressThresholdPct = 85 / 100"
definition RecentMessageKeep :: nat where "RecentMessageKeep = 6"

type_synonym session_addr = nat

record CodingAgentManager =
  cam_db :: AgentDB
  cam_queue :: OllamaQueue
  cam_mesh :: "MeshDiscovery option"
  cam_detector :: ModelContextDetector
  cam_serverID :: string
  cam_sessions :: "string \<rightharpoonup> session_addr"
  cam_heap :: "session_addr \<Rightarrow> CodingAgentSession"
  cam_next :: session_addr

text \<open>The outside of an operation: the time, the engine's errors, the order of rows, JSON, Ollama's \<^verbatim>\<open>/api/show\<close>, and Ollama's answer to a
  request for a summary (the text of the error, or of the summary).\<close>

record agent_env =
  ae_time :: gotime
  ae_db :: "nat \<Rightarrow> string option"
  ae_ord :: "CodingAgentMessage sql_order"
  ae_codec :: json_codec
  ae_show :: show_api
  ae_summary :: "jobj \<Rightarrow> string + string"

text \<open>With no queue the access to its URL panics: \<open>None\<close>.\<close>

definition NewCodingAgentManager ::
  "AgentDB \<Rightarrow> OllamaQueue option \<Rightarrow> MeshDiscovery option \<Rightarrow> string \<Rightarrow> (session_addr \<Rightarrow> CodingAgentSession)
     \<Rightarrow> CodingAgentManager option" where
  "NewCodingAgentManager db queue mesh serverID h = (case queue of
     None \<Rightarrow> None
   | Some q \<Rightarrow> Some \<lparr>cam_db = db, cam_queue = q, cam_mesh = mesh,
       cam_detector = NewModelContextDetector (oq_ollamaURL q), cam_serverID = serverID, cam_sessions = Map.empty,
       cam_heap = h, cam_next = 0\<rparr>)"

definition upd_session :: "session_addr \<Rightarrow> (CodingAgentSession \<Rightarrow> CodingAgentSession) \<Rightarrow> CodingAgentManager \<Rightarrow> CodingAgentManager" where
  "upd_session a f cam = cam\<lparr>cam_heap := (cam_heap cam)(a := f (cam_heap cam a))\<rparr>"

definition upd_db :: "(AgentDB \<Rightarrow> string option \<times> AgentDB) \<Rightarrow> CodingAgentManager \<Rightarrow> string option \<times> CodingAgentManager" where
  "upd_db f cam = (case f (cam_db cam) of (e, db) \<Rightarrow> (e, cam\<lparr>cam_db := db\<rparr>))"

definition add_session :: "CodingAgentSession \<Rightarrow> CodingAgentManager \<Rightarrow> session_addr \<times> CodingAgentManager" where
  "add_session s cam = (cam_next cam, cam\<lparr>cam_heap := (cam_heap cam)(cam_next cam := s), cam_next := cam_next cam + 1,
     cam_sessions := (cam_sessions cam)(cs_ID s \<mapsto> cam_next cam)\<rparr>)"

definition new_message :: "string \<Rightarrow> string \<Rightarrow> string \<Rightarrow> string \<Rightarrow> string \<Rightarrow> gotime \<Rightarrow> CodingAgentMessage" where
  "new_message msgID sid role content md t = \<lparr>cg_ID = msgID, cg_SessionID = sid, cg_Role = role, cg_Content = content,
     cg_TokenCount = estimateTokens content, cg_CompressGroup = 0, cg_IsSummary = False, cg_MetadataJSON = md,
     cg_CreatedAt = now_seconds t\<rparr>"

definition auditLog ::
  "gotime \<Rightarrow> string option \<Rightarrow> CodingAgentSession \<Rightarrow> string \<Rightarrow> string \<Rightarrow> int \<Rightarrow> int \<Rightarrow> bool \<Rightarrow> CodingAgentManager \<Rightarrow> CodingAgentManager" where
  "auditLog t err s role content tokenCount compressGroup isSummary cam =
     snd (upd_db (InsertCodingAgentAuditEntry err
       \<lparr>ca_ID = 0, ca_SessionID = cs_ID s, ca_AgentType = cs_AgentType s, ca_Model = cs_Model s, ca_Role = role, ca_Content = content,
        ca_TokenCount = tokenCount, ca_CompressGroup = compressGroup, ca_IsSummary = isSummary, ca_CreatedAt = now_seconds t\<rparr>) cam)"

section \<open>Sessions\<close>

text \<open>The session's counters are raised for the system prompt even when its row could not be inserted.\<close>

definition new_session :: "gotime \<Rightarrow> string \<Rightarrow> string \<Rightarrow> string \<Rightarrow> int \<Rightarrow> jobj option \<Rightarrow> CodingAgentSession" where
  "new_session t agentType model systemPrompt budget metadata =
     \<lparr>cs_ID = ''ca-'' @ agentType @ ''-'' @ millis t, cs_AgentType = agentType, cs_Model = model, cs_TokenBudget = budget,
      cs_Status = SessionActive, cs_SystemPrompt = systemPrompt, cs_Metadata = metadata, cs_CreatedAt = now_seconds t,
      cs_UpdatedAt = now_seconds t, cs_TotalMessages = 0, cs_TotalTokens = 0, cs_Compressions = 0\<rparr>"

definition system_message :: "gotime \<Rightarrow> CodingAgentSession \<Rightarrow> CodingAgentMessage" where
  "system_message t s = new_message (''msg-'' @ cs_ID s @ ''-sys-'' @ millis t) (cs_ID s) ''system'' (cs_SystemPrompt s) [] t"

definition CreateSession ::
  "agent_env \<Rightarrow> string \<Rightarrow> string \<Rightarrow> string \<Rightarrow> int \<Rightarrow> jobj option \<Rightarrow> CodingAgentManager
     \<Rightarrow> (string + session_addr \<times> ModelContextWindow) \<times> CodingAgentManager" where
  "CreateSession env agentType model0 systemPrompt budget0 metadata cam =
     (let t = ae_time env;
          model = (if model0 = [] then oq_ollamaModel (cam_queue cam) else model0);
          (detected, d1) = DetectContextWindow (ae_show env) model (cam_detector cam);
          (budget, d2) = GetContextBudgetForModel (ae_show env) model budget0 d1;
          cam1 = cam\<lparr>cam_detector := d2\<rparr>;
          s = new_session t agentType model systemPrompt budget metadata
      in case upd_db (InsertCodingAgentSession (ae_codec env) (ae_db env 0) s) cam1 of
           (Some e, cam2) \<Rightarrow> (Inl (''insert session: '' @ e), cam2)
         | (None, cam2) \<Rightarrow>
             let msg = system_message t s;
                 (s', cam3) = (if systemPrompt = [] then (s, cam2)
                   else (s\<lparr>cs_TotalMessages := cs_TotalMessages s + 1, cs_TotalTokens := cs_TotalTokens s + cg_TokenCount msg\<rparr>,
                         snd (upd_db (InsertCodingAgentMessage (ae_db env 1) msg) cam2)));
                 (a, cam4) = add_session s' cam3
             in (Inr (a, detected), cam4))"

definition GetSession :: "agent_env \<Rightarrow> string \<Rightarrow> CodingAgentManager \<Rightarrow> (string + session_addr option) \<times> CodingAgentManager" where
  "GetSession env sid cam = (case cam_sessions cam sid of
     Some a \<Rightarrow> (Inr (Some a), cam)
   | None \<Rightarrow>
       (case GetCodingAgentSession (ae_codec env) (ae_db env 0) sid (cam_db cam) of
          Inl e \<Rightarrow> (Inl e, cam)
        | Inr None \<Rightarrow> (Inr None, cam)
        | Inr (Some s) \<Rightarrow> (case add_session s cam of (a, cam') \<Rightarrow> (Inr (Some a), cam'))))"

definition ListSessions ::
  "agent_env \<Rightarrow> session_row sql_order \<Rightarrow> string \<Rightarrow> CodingAgentManager \<Rightarrow> string + CodingAgentSession list" where
  "ListSessions env ord agentType cam = ListCodingAgentSessions (ae_codec env) (ae_db env 0) ord agentType (cam_db cam)"

definition GetMessages :: "agent_env \<Rightarrow> string \<Rightarrow> int \<Rightarrow> CodingAgentManager \<Rightarrow> string + CodingAgentMessage list" where
  "GetMessages env sid limit cam = GetCodingAgentMessages (ae_db env 0) (ae_ord env) sid limit (cam_db cam)"

definition ArchiveSession :: "agent_env \<Rightarrow> string \<Rightarrow> CodingAgentManager \<Rightarrow> string option \<times> CodingAgentManager" where
  "ArchiveSession env sid cam = (case GetSession env sid cam of
     (Inr (Some a), cam1) \<Rightarrow>
       let cam2 = upd_session a (\<lambda>s. s\<lparr>cs_Status := SessionArchived, cs_UpdatedAt := now_seconds (ae_time env)\<rparr>) cam1
       in upd_db (UpdateCodingAgentSession (ae_db env 1) (cam_heap cam2 a)) cam2
   | (_, cam1) \<Rightarrow> (Some (''session not found: '' @ sid), cam1))"

definition DeleteSession :: "agent_env \<Rightarrow> string \<Rightarrow> CodingAgentManager \<Rightarrow> string option \<times> CodingAgentManager" where
  "DeleteSession env sid cam = upd_db (DeleteCodingAgentSession (ae_db env 0) sid) (cam\<lparr>cam_sessions := (cam_sessions cam)(sid := None)\<rparr>)"

definition GetAuditLogs :: "agent_env \<Rightarrow> string \<Rightarrow> int \<Rightarrow> CodingAgentManager \<Rightarrow> string + CodingAgentAuditEntry list" where
  "GetAuditLogs env sid limit cam = GetCodingAgentAuditLogs (ae_db env 0) sid limit (cam_db cam)"

definition SearchMessages :: "agent_env \<Rightarrow> string \<Rightarrow> int \<Rightarrow> CodingAgentManager \<Rightarrow> string + CodingAgentMessage list" where
  "SearchMessages env query limit cam = SearchCodingAgentMessages (ae_db env 0) (ae_ord env) query limit (cam_db cam)"

section \<open>Compression\<close>

text \<open>The loop that looks for the first message to keep; \<open>i\<close>, \<open>keepCount\<close> and \<open>splitIdx\<close> are its variables.\<close>

fun split_scan :: "nat \<Rightarrow> nat \<Rightarrow> nat \<Rightarrow> CodingAgentMessage list \<Rightarrow> nat" where
  "split_scan i keepCount splitIdx [] = splitIdx"
| "split_scan i keepCount splitIdx (m # ms) =
     (if cg_Role m = ''system'' \<and> \<not> cg_IsSummary m then split_scan (i + 1) keepCount (i + 1) ms
      else if keepCount + 1 \<ge> RecentMessageKeep then i
      else split_scan (i + 1) (keepCount + 1) splitIdx ms)"

definition summary_part :: "CodingAgentMessage \<Rightarrow> string" where
  "summary_part m = ''['' @ (if cg_IsSummary m then ''context_summary'' else cg_Role m) @ '']: '' @ truncStr (cg_Content m) 2000"

fun join_lines :: "string list \<Rightarrow> string" where
  "join_lines [] = []"
| "join_lines [x] = x"
| "join_lines (x # xs) = x @ [CHR 0x0A] @ join_lines xs"

definition summary_prompt :: "CodingAgentMessage list \<Rightarrow> string" where
  "summary_prompt ms = join_lines
     [''You are a context compression assistant for a coding workflow. Summarize the following conversation history into a concise context summary. Preserve:'',
      ''- Key decisions and their rationale'', ''- File names, function names, variable names mentioned'',
      ''- Error messages and their solutions'', ''- Important code snippets or patterns'', ''- Current task/goal state'', [],
      ''Conversation to summarize:'', join_lines (map summary_part ms), [],
      ''Return ONLY the summary text, no JSON or markdown. Keep it under 1500 characters.'']"

definition summary_body :: "string \<Rightarrow> CodingAgentMessage list \<Rightarrow> jobj" where
  "summary_body model ms = [(''model'', JStr model), (''prompt'', JStr (summary_prompt ms)), (''stream'', JBool False),
     (''temperature'', JNum (1 / 10))]"

definition recount :: "agent_env \<Rightarrow> session_addr \<Rightarrow> CodingAgentManager \<Rightarrow> CodingAgentManager" where
  "recount env a cam = (case GetCodingAgentMessages (ae_db env 7) (ae_ord env) (cs_ID (cam_heap cam a)) 0 (cam_db cam) of
     Inl e \<Rightarrow> cam
   | Inr ms \<Rightarrow> upd_session a (\<lambda>s. s\<lparr>cs_TotalTokens := sum_list (map cg_TokenCount ms)\<rparr>) cam)"

definition compressContext :: "agent_env \<Rightarrow> session_addr \<Rightarrow> CodingAgentManager \<Rightarrow> string option \<times> CodingAgentManager" where
  "compressContext env a cam =
     (let s = cam_heap cam a
      in case GetCodingAgentMessages (ae_db env 3) (ae_ord env) (cs_ID s) 0 (cam_db cam) of
           Inl e \<Rightarrow> (Some e, cam)
         | Inr msgs \<Rightarrow>
             if length msgs \<le> RecentMessageKeep + 2 then (None, cam)
             else
               let splitIdx = split_scan 0 0 0 msgs; toSummarize = drop 1 (take splitIdx msgs)
               in if splitIdx \<le> 1 \<or> toSummarize = [] then (None, cam)
                  else case ae_summary env (summary_body (cs_Model s) toSummarize) of
                      Inl e \<Rightarrow> (Some e, cam)
                    | Inr response \<Rightarrow>
                        if response = [] then (Some ''empty summary response'', cam)
                        else
                          let grp = cg_CompressGroup (msgs ! (splitIdx - 1)) + 1
                          in case upd_db (CompressCodingAgentMessages (ae_db env 4) (ae_db env 5) (ae_ord env) (ae_time env)
                                 (cs_ID s) splitIdx response grp) cam of
                               (Some e, cam1) \<Rightarrow> (Some (''compress messages: '' @ e), cam1)
                             | (None, cam1) \<Rightarrow>
                                 (None, recount env a (auditLog (ae_time env) (ae_db env 6) s ''system''
                                   (''[Context compressed] '' @ truncStr response 500) (estimateTokens response) grp True cam1)))"

definition maybeCompress :: "agent_env \<Rightarrow> session_addr \<Rightarrow> CodingAgentManager \<Rightarrow> (bool \<times> string option) \<times> CodingAgentManager" where
  "maybeCompress env a cam =
     (let s = cam_heap cam a; threshold = trunc_float (of_int (cs_TokenBudget s) * CompressThresholdPct)
      in if cs_TotalTokens s \<le> threshold then ((False, None), cam)
         else case compressContext env a cam of (e, cam') \<Rightarrow> ((True, e), cam'))"

section \<open>Sending a message\<close>

definition buildOllamaMessages :: "agent_env \<Rightarrow> string \<Rightarrow> CodingAgentManager \<Rightarrow> string + json list" where
  "buildOllamaMessages env sid cam = (case GetCodingAgentMessages (ae_db env 8) (ae_ord env) sid 0 (cam_db cam) of
     Inl e \<Rightarrow> Inl e
   | Inr ms \<Rightarrow> Inr (map (\<lambda>m. JObj [(''role'', JStr (cg_Role m)), (''content'', JStr (cg_Content m))]) ms))"

text \<open>Where sending stands when it has to wait: refused, waiting for the job of this ID, or asking elsewhere as the queue is full.\<close>

datatype send_state =
  SendError string
| SendQueued session_addr CodingAgentMessage bool string
| SendElsewhere session_addr CodingAgentMessage bool "json list"

definition incoming_message :: "agent_env \<Rightarrow> string \<Rightarrow> string \<Rightarrow> string \<Rightarrow> jobj option \<Rightarrow> CodingAgentMessage" where
  "incoming_message env sid role content metadata =
     new_message (''msg-'' @ sid @ ''-'' @ millis (ae_time env)) sid role content
       (case metadata of None \<Rightarrow> [] | Some m \<Rightarrow> jc_enc (ae_codec env) m) (ae_time env)"

text \<open>Submitting the conversation as a job; \<open>ja\<close> is the address the job is allocated at.\<close>

definition submit_chat ::
  "agent_env \<Rightarrow> job_addr \<Rightarrow> string \<Rightarrow> session_addr \<Rightarrow> CodingAgentMessage \<Rightarrow> bool \<Rightarrow> CodingAgentManager \<Rightarrow> send_state \<times> CodingAgentManager" where
  "submit_chat env ja sid a inMsg compressed cam =
     (case buildOllamaMessages env (cs_ID (cam_heap cam a)) cam of
        Inl e \<Rightarrow> (SendError (''build messages: '' @ e), cam)
      | Inr messages \<Rightarrow>
          let jobID = ''agent:'' @ sid @ '':'' @ millis (ae_time env);
              payload = [(''model'', JStr (cs_Model (cam_heap cam a))), (''messages'', JArr messages),
                (''stream'', JBool False), (''source'', JStr ''coding_agent''), (''session_id'', JStr sid)];
              job = NewJob (ae_time env) jobID ''coding-agent'' ''coding_agent_chat'' payload;
              q = (cam_queue cam)\<lparr>oq_heap := (oq_heap (cam_queue cam))(ja := job)\<rparr>
          in (case oq_Submit ja q of
                (True, q') \<Rightarrow> (SendQueued a inMsg compressed jobID, cam\<lparr>cam_queue := q'\<rparr>)
              | (False, q') \<Rightarrow> (SendElsewhere a inMsg compressed messages, cam\<lparr>cam_queue := q'\<rparr>)))"

definition count_incoming :: "CodingAgentMessage \<Rightarrow> CodingAgentSession \<Rightarrow> CodingAgentSession" where
  "count_incoming m s = s\<lparr>cs_TotalMessages := cs_TotalMessages s + 1, cs_TotalTokens := cs_TotalTokens s + cg_TokenCount m\<rparr>"

definition SendMessage_start ::
  "agent_env \<Rightarrow> job_addr \<Rightarrow> string \<Rightarrow> string \<Rightarrow> string \<Rightarrow> jobj option \<Rightarrow> CodingAgentManager \<Rightarrow> send_state \<times> CodingAgentManager" where
  "SendMessage_start env ja sid role content metadata cam = (case GetSession env sid cam of
     (Inr (Some a), cam1) \<Rightarrow>
       if cs_Status (cam_heap cam1 a) \<noteq> SessionActive then (SendError (''session is archived: '' @ sid), cam1)
       else
         let inMsg = incoming_message env sid role content metadata
         in case upd_db (InsertCodingAgentMessage (ae_db env 1) inMsg) cam1 of
              (Some e, cam2) \<Rightarrow> (SendError (''insert message: '' @ e), cam2)
            | (None, cam2) \<Rightarrow>
                let cam3 = upd_session a (count_incoming inMsg) cam2;
                    cam4 = auditLog (ae_time env) (ae_db env 2) (cam_heap cam3 a) role content (cg_TokenCount inMsg) 0 False cam3;
                    ((compressed, e), cam5) = maybeCompress env a cam4
                in submit_chat env ja sid a inMsg compressed cam5
   | (_, cam1) \<Rightarrow> (SendError (''session not found: '' @ sid), cam1))"

text \<open>\<open>fmt\<close> is the text of \<^verbatim>\<open>%v\<close>.\<close>

definition extractChatResponse :: "(json \<Rightarrow> string) \<Rightarrow> json option \<Rightarrow> string" where
  "extractChatResponse fmt result = (case result of
     None \<Rightarrow> []
   | Some JNull \<Rightarrow> []
   | Some (JObj m) \<Rightarrow>
       (case (case get_obj m ''message'' of Some msg \<Rightarrow> get_str msg ''content'' | None \<Rightarrow> None) of
          Some c \<Rightarrow> c
        | None \<Rightarrow> (case get_str m ''response'' of
            Some r \<Rightarrow> r
          | None \<Rightarrow> (case get_str m ''raw_response'' of Some r \<Rightarrow> r | None \<Rightarrow> fmt (JObj m))))
   | Some v \<Rightarrow> fmt v)"

text \<open>
  Waiting for the job: what a look at the queue at a tick decides (\<open>None\<close>: go on waiting), and the loop over the looks until
  the deadline.
\<close>

definition poll_job :: "(json \<Rightarrow> string) \<Rightarrow> Job option \<Rightarrow> (string + string) option" where
  "poll_job fmt j = (case j of
     None \<Rightarrow> None
   | Some j \<Rightarrow>
       if j_Status j = JobFailed then Some (Inl (''ollama call failed: '' @ j_Error j))
       else if j_Status j = JobCompleted then Some (Inr (extractChatResponse fmt (j_Result j)))
       else None)"

fun wait_job :: "(json \<Rightarrow> string) \<Rightarrow> string \<Rightarrow> Job option list \<Rightarrow> string + string" where
  "wait_job fmt jobID [] = Inl (''job timeout: '' @ jobID)"
| "wait_job fmt jobID (j # js) = (case poll_job fmt j of Some r \<Rightarrow> r | None \<Rightarrow> wait_job fmt jobID js)"

text \<open>
  The queue being full: first the best peer, if there is one, then Ollama directly. The answers of the outside are arguments: of the
  peer, an error or the fields \<^verbatim>\<open>status\<close>, \<^verbatim>\<open>result\<close> and \<^verbatim>\<open>error\<close>; of Ollama, an error or the fields \<^verbatim>\<open>message.content\<close> and \<^verbatim>\<open>response\<close>.
\<close>

definition forward_body :: "gotime \<Rightarrow> string \<Rightarrow> json list \<Rightarrow> CodingAgentManager \<Rightarrow> jobj" where
  "forward_body t model messages cam =
     (let forwardModel = (case cam_mesh cam of Some m \<Rightarrow> MapModel model m | None \<Rightarrow> model)
      in [(''job_id'', JStr (''mesh-agent:'' @ millis t)), (''client_id'', JStr ''mesh-agent''),
          (''job_type'', JStr ''coding_agent_chat''),
          (''payload'', JObj [(''model'', JStr forwardModel), (''messages'', JArr messages), (''stream'', JBool False),
             (''source'', JStr ''coding_agent'')]),
          (''origin'', JStr (cam_serverID cam))])"

definition forwardToPeer ::
  "(json \<Rightarrow> string) \<Rightarrow> (PeerInfo \<Rightarrow> jobj \<Rightarrow> string + string \<times> json option \<times> string) \<Rightarrow> gotime \<Rightarrow> PeerInfo \<Rightarrow> string \<Rightarrow> json list
     \<Rightarrow> CodingAgentManager \<Rightarrow> string + string" where
  "forwardToPeer fmt post t peer model messages cam = (case post peer (forward_body t model messages cam) of
     Inl e \<Rightarrow> Inl e
   | Inr (status, result, err) \<Rightarrow>
       if status = ''failed'' then Inl (''peer execution failed: '' @ err) else Inr (extractChatResponse fmt result))"

definition agent_callOllamaChat :: "(jobj \<Rightarrow> string + string \<times> string) \<Rightarrow> string \<Rightarrow> json list \<Rightarrow> string + string" where
  "agent_callOllamaChat post model messages =
     (case post [(''model'', JStr model), (''messages'', JArr messages), (''stream'', JBool False)] of
        Inl e \<Rightarrow> Inl e
      | Inr (content, response) \<Rightarrow> Inr (if content \<noteq> [] then content else response))"

definition answer_elsewhere ::
  "(json \<Rightarrow> string) \<Rightarrow> (PeerInfo \<Rightarrow> jobj \<Rightarrow> string + string \<times> json option \<times> string) \<Rightarrow> (jobj \<Rightarrow> string + string \<times> string)
     \<Rightarrow> gotime \<Rightarrow> string list \<Rightarrow> string \<Rightarrow> json list \<Rightarrow> CodingAgentManager \<Rightarrow> (string + string) \<times> CodingAgentManager" where
  "answer_elsewhere fmt peer_post ollama_post t ks model messages cam =
     (let direct = (case agent_callOllamaChat ollama_post model messages of
            Inl e \<Rightarrow> Inl (''ollama call failed: '' @ e) | Inr r \<Rightarrow> Inr r)
      in case cam_mesh cam of
           None \<Rightarrow> (direct, cam)
         | Some m \<Rightarrow>
             (case GetBestPeer t ks m of (best, m') \<Rightarrow>
                let cam' = cam\<lparr>cam_mesh := Some m'\<rparr>
                in (case best of
                      None \<Rightarrow> (direct, cam')
                    | Some peer \<Rightarrow>
                        (case forwardToPeer fmt peer_post t peer model messages cam' of
                           Inr r \<Rightarrow> (Inr r, cam') | Inl e \<Rightarrow> (direct, cam')))))"

text \<open>The reply is persisted. An error in inserting it is only logged; the counters are raised all the same.\<close>

definition reply_message :: "agent_env \<Rightarrow> string \<Rightarrow> string \<Rightarrow> CodingAgentMessage" where
  "reply_message env sid response =
     new_message (''msg-'' @ sid @ ''-'' @ millis (ae_time env)) sid ''assistant'' response [] (ae_time env)"

definition count_reply :: "agent_env \<Rightarrow> CodingAgentMessage \<Rightarrow> CodingAgentSession \<Rightarrow> CodingAgentSession" where
  "count_reply env m s = s\<lparr>cs_TotalMessages := cs_TotalMessages s + 1,
     cs_TotalTokens := cs_TotalTokens s + cg_TokenCount m, cs_UpdatedAt := now_seconds (ae_time env)\<rparr>"

definition finishMessage ::
  "agent_env \<Rightarrow> session_addr \<Rightarrow> string \<Rightarrow> bool \<Rightarrow> CodingAgentManager \<Rightarrow> CodingAgentManager" where
  "finishMessage env a response compressed cam =
     (let outMsg = reply_message env (cs_ID (cam_heap cam a)) response;
          cam1 = snd (upd_db (InsertCodingAgentMessage (ae_db env 0) outMsg) cam);
          cam2 = upd_session a (count_reply env outMsg) cam1;
          cam3 = auditLog (ae_time env) (ae_db env 1) (cam_heap cam2 a) ''assistant'' response (cg_TokenCount outMsg) 0 False cam2;
          cam4 = upd_session a (\<lambda>s. s\<lparr>cs_Compressions := cs_Compressions s + (if compressed then 1 else 0)\<rparr>) cam3;
          cam5 = snd (upd_db (UpdateCodingAgentSession (ae_db env 2) (cam_heap cam4 a)) cam4)
      in cam5\<lparr>cam_sessions := (cam_sessions cam5)(cs_ID (cam_heap cam5 a) \<mapsto> a)\<rparr>)"

section \<open>Statistics\<close>

record ContextStats =
  cx_session_id :: string
  cx_token_budget :: int
  cx_total_tokens :: int
  cx_budget_used_pct :: real
  cx_total_messages :: int
  cx_summary_messages :: int
  cx_compressions :: int
  cx_role_breakdown :: "string \<Rightarrow> int"
  cx_needs_compression :: bool
  cx_window :: ModelContextWindow
  cx_budget_ratio :: string

definition GetContextStats :: "agent_env \<Rightarrow> string \<Rightarrow> CodingAgentManager \<Rightarrow> (string + ContextStats) \<times> CodingAgentManager" where
  "GetContextStats env sid cam = (case GetSession env sid cam of
     (Inr (Some a), cam1) \<Rightarrow>
       (case GetCodingAgentMessages (ae_db env 1) (ae_ord env) sid 0 (cam_db cam1) of
          Inl e \<Rightarrow> (Inl e, cam1)
        | Inr msgs \<Rightarrow>
            let s = cam_heap cam1 a; tokens = foldl (\<lambda>n m. n + cg_TokenCount m) 0 msgs;
                used = of_int tokens / of_int (cs_TokenBudget s) * 100;
                (w, d) = DetectContextWindow (ae_show env) (cs_Model s) (cam_detector cam1)
            in (Inr \<lparr>cx_session_id = sid, cx_token_budget = cs_TokenBudget s, cx_total_tokens = tokens, cx_budget_used_pct = used,
                  cx_total_messages = int (length msgs), cx_summary_messages = int (length (filter cg_IsSummary msgs)),
                  cx_compressions = cs_Compressions s,
                  cx_role_breakdown = (\<lambda>r. sum_list (map cg_TokenCount (filter (\<lambda>m. cg_Role m = r) msgs))),
                  cx_needs_compression = (used \<ge> CompressThresholdPct * 100), cx_window = w,
                  cx_budget_ratio = dec_int (trunc_float (of_int (cs_TokenBudget s) / of_int (cw_ContextLength w) * 100)) @ ''%''\<rparr>,
                cam1\<lparr>cam_detector := d\<rparr>))
   | (_, cam1) \<Rightarrow> (Inl (''session not found: '' @ sid), cam1))"

section \<open>Tokens are accounted for\<close>

definition tokens_of :: "AgentDB \<Rightarrow> string \<Rightarrow> int" where
  "tokens_of db sid = sum_list (map cg_TokenCount (session_messages sid db))"

definition session_ok :: "CodingAgentManager \<Rightarrow> string \<Rightarrow> session_addr \<Rightarrow> bool" where
  "session_ok cam sid a \<longleftrightarrow> cs_ID (cam_heap cam a) = sid \<and> a < cam_next cam \<and>
     cs_TotalTokens (cam_heap cam a) = tokens_of (cam_db cam) sid"

definition cam_ok :: "CodingAgentManager \<Rightarrow> bool" where
  "cam_ok cam \<longleftrightarrow> distinct (map cg_ID (ad_messages (cam_db cam))) \<and>
     (\<forall>sid a. cam_sessions cam sid = Some a \<longrightarrow> session_ok cam sid a) \<and>
     (\<forall>m \<in> set (ad_messages (cam_db cam)). cg_SessionID m \<in> dom (cam_sessions cam)) \<and>
     (cs_ID \<circ> fst) ` set (ad_sessions (cam_db cam)) = dom (cam_sessions cam)"

lemma cam_okI:
  assumes "distinct (map cg_ID (ad_messages (cam_db cam)))" "\<And>sid a. cam_sessions cam sid = Some a \<Longrightarrow> session_ok cam sid a"
    "\<And>m. m \<in> set (ad_messages (cam_db cam)) \<Longrightarrow> cg_SessionID m \<in> dom (cam_sessions cam)"
    "(cs_ID \<circ> fst) ` set (ad_sessions (cam_db cam)) = dom (cam_sessions cam)"
  shows "cam_ok cam"
  using assms by (simp add: cam_ok_def)

lemma cam_okD:
  assumes "cam_ok cam"
  shows "distinct (map cg_ID (ad_messages (cam_db cam)))" "cam_sessions cam sid = Some a \<Longrightarrow> session_ok cam sid a"
    "m \<in> set (ad_messages (cam_db cam)) \<Longrightarrow> cg_SessionID m \<in> dom (cam_sessions cam)"
    "(cs_ID \<circ> fst) ` set (ad_sessions (cam_db cam)) = dom (cam_sessions cam)"
  using assms by (auto simp: cam_ok_def)

text \<open>Changes that do not touch what the invariant speaks of.\<close>

definition same_core :: "CodingAgentManager \<Rightarrow> CodingAgentManager \<Rightarrow> bool" where
  "same_core cam cam' \<longleftrightarrow> cam_sessions cam' = cam_sessions cam \<and> cam_next cam' = cam_next cam \<and>
     ad_messages (cam_db cam') = ad_messages (cam_db cam) \<and>
     (cs_ID \<circ> fst) ` set (ad_sessions (cam_db cam')) = (cs_ID \<circ> fst) ` set (ad_sessions (cam_db cam)) \<and>
     (\<forall>a. cs_ID (cam_heap cam' a) = cs_ID (cam_heap cam a) \<and> cs_TotalTokens (cam_heap cam' a) = cs_TotalTokens (cam_heap cam a))"

lemma tokens_of_cong: "ad_messages db' = ad_messages db \<Longrightarrow> tokens_of db' sid = tokens_of db sid"
  by (simp add: tokens_of_def session_messages_def)

lemma same_core_ok: "same_core cam cam' \<Longrightarrow> cam_ok cam \<Longrightarrow> cam_ok cam'"
proof (rule cam_okI)
  assume s: "same_core cam cam'" and ok: "cam_ok cam"
  show "distinct (map cg_ID (ad_messages (cam_db cam')))" using s cam_okD(1) [OF ok] by (simp add: same_core_def)
  show "session_ok cam' sid a" if "cam_sessions cam' sid = Some a" for sid a
    using s that cam_okD(2) [OF ok, of sid a] tokens_of_cong [of "cam_db cam'" "cam_db cam"] by (simp add: same_core_def session_ok_def)
  show "cg_SessionID m \<in> dom (cam_sessions cam')" if "m \<in> set (ad_messages (cam_db cam'))" for m
    using s that cam_okD(3) [OF ok, of m] by (simp add: same_core_def)
  show "(cs_ID \<circ> fst) ` set (ad_sessions (cam_db cam')) = dom (cam_sessions cam')" using s cam_okD(4) [OF ok] by (simp add: same_core_def)
qed

lemma same_core_refl [intro]: "same_core cam cam"
  by (simp add: same_core_def)

lemma same_core_trans [trans]: "same_core c d \<Longrightarrow> same_core d e \<Longrightarrow> same_core c e"
  by (simp add: same_core_def)

lemma auditLog_core [intro]: "same_core cam (auditLog t err s role content n g b cam)"
  by (simp add: same_core_def auditLog_def upd_db_def InsertCodingAgentAuditEntry_def split: option.splits)

lemma upd_session_core:
  "(\<And>s. cs_ID (f s) = cs_ID s \<and> cs_TotalTokens (f s) = cs_TotalTokens s) \<Longrightarrow> same_core cam (upd_session a f cam)"
  by (simp add: same_core_def upd_session_def)

lemma update_core: "same_core cam (snd (upd_db (UpdateCodingAgentSession err s) cam))"
  by (force simp: same_core_def upd_db_def UpdateCodingAgentSession_def set_session_columns_def image_iff split: option.splits)

lemma outside_core: "same_core cam (cam\<lparr>cam_queue := q\<rparr>)" "same_core cam (cam\<lparr>cam_mesh := m\<rparr>)" "same_core cam (cam\<lparr>cam_detector := d\<rparr>)"
  by (simp_all add: same_core_def)

text \<open>Inserting a message of a known session and counting it.\<close>

lemma Insert_message_cases:
  assumes "InsertCodingAgentMessage err m db = (e, db')"
  obtains (failed) x where "e = Some x" "db' = db"
    | (added) m' where "e = None" "db' = db\<lparr>ad_messages := ad_messages db @ [m']\<rparr>" "cg_ID m' = cg_ID m"
      "cg_SessionID m' = cg_SessionID m" "cg_TokenCount m' = cg_TokenCount m" "cg_ID m \<notin> cg_ID ` set (ad_messages db)"
  using assms by (auto simp: InsertCodingAgentMessage_def Let_def split: option.splits if_splits)

lemma count_message_ok:
  assumes ok: "cam_ok cam" and a: "cam_sessions cam (cg_SessionID m) = Some a"
    and ins: "upd_db (InsertCodingAgentMessage err m) cam = (None, cam1)"
    and f: "\<And>s. cs_ID (f s) = cs_ID s" "\<And>s. cs_TotalTokens (f s) = cs_TotalTokens s + cg_TokenCount m"
  shows "cam_ok (upd_session a f cam1)"
proof -
  obtain db' where db': "InsertCodingAgentMessage err m (cam_db cam) = (None, db')" "cam1 = cam\<lparr>cam_db := db'\<rparr>"
    using ins by (auto simp: upd_db_def split: prod.splits)
  obtain m' where m': "db' = (cam_db cam)\<lparr>ad_messages := ad_messages (cam_db cam) @ [m']\<rparr>" "cg_ID m' = cg_ID m"
    "cg_SessionID m' = cg_SessionID m" "cg_TokenCount m' = cg_TokenCount m" "cg_ID m \<notin> cg_ID ` set (ad_messages (cam_db cam))"
    by (rule Insert_message_cases [OF db'(1)]) auto
  have t: "tokens_of db' j = tokens_of (cam_db cam) j + (if j = cg_SessionID m then cg_TokenCount m else 0)" for j
    by (auto simp: tokens_of_def session_messages_def m')
  show ?thesis
  proof (rule cam_okI)
    show "distinct (map cg_ID (ad_messages (cam_db (upd_session a f cam1))))"
      using cam_okD(1) [OF ok] m' db'(2) by (auto simp: upd_session_def)
    show "session_ok (upd_session a f cam1) sid b" if "cam_sessions (upd_session a f cam1) sid = Some b" for sid b
    proof -
      have b: "cam_sessions cam sid = Some b" using that db'(2) by (simp add: upd_session_def)
      have "b = a \<longleftrightarrow> sid = cg_SessionID m" using cam_okD(2) [OF ok b] cam_okD(2) [OF ok a] a b by (auto simp: session_ok_def)
      then show ?thesis using cam_okD(2) [OF ok b] t [of sid] f db'(2) by (auto simp: session_ok_def upd_session_def)
    qed
    show "cg_SessionID x \<in> dom (cam_sessions (upd_session a f cam1))" if "x \<in> set (ad_messages (cam_db (upd_session a f cam1)))" for x
      using that cam_okD(3) [OF ok, of x] m' db'(2) a by (auto simp: upd_session_def)
    show "(cs_ID \<circ> fst) ` set (ad_sessions (cam_db (upd_session a f cam1))) = dom (cam_sessions (upd_session a f cam1))"
      using cam_okD(4) [OF ok] m' db'(2) by (simp add: upd_session_def)
  qed
qed

text \<open>The frame of an operation on a session: the table of sessions and the IDs behind the pointers stay.\<close>

definition same_ids :: "CodingAgentManager \<Rightarrow> CodingAgentManager \<Rightarrow> bool" where
  "same_ids cam cam' \<longleftrightarrow> cam_sessions cam' = cam_sessions cam \<and> cam_next cam' = cam_next cam \<and>
     (\<forall>a. cs_ID (cam_heap cam' a) = cs_ID (cam_heap cam a))"

lemma same_core_ids: "same_core cam cam' \<Longrightarrow> same_ids cam cam'"
  by (simp add: same_core_def same_ids_def)

lemma same_ids_trans [trans]: "same_ids c d \<Longrightarrow> same_ids d e \<Longrightarrow> same_ids c e"
  by (simp add: same_ids_def)

lemma recount_ok:
  assumes env: "ae_db env 7 = None" "sql_order_ok (ae_ord env)" and ids: "distinct (map cg_ID (ad_messages (cam_db cam)))"
    and a: "cam_sessions cam sid = Some a" "cs_ID (cam_heap cam a) = sid" "a < cam_next cam"
    and others: "\<And>j b. j \<noteq> sid \<Longrightarrow> cam_sessions cam j = Some b \<Longrightarrow> session_ok cam j b"
    and doms: "\<And>m. m \<in> set (ad_messages (cam_db cam)) \<Longrightarrow> cg_SessionID m \<in> dom (cam_sessions cam)"
      "(cs_ID \<circ> fst) ` set (ad_sessions (cam_db cam)) = dom (cam_sessions cam)"
  shows "cam_ok (recount env a cam)" "same_ids cam (recount env a cam)"
proof -
  have r: "recount env a cam = upd_session a (\<lambda>s. s\<lparr>cs_TotalTokens := tokens_of (cam_db cam) sid\<rparr>) cam"
    using env a(2) by (simp add: recount_def GetCodingAgentMessages_def sql_result_def tokens_of_def ordered_sum)
  show "same_ids cam (recount env a cam)" by (simp add: r same_ids_def upd_session_def)
  have "session_ok (recount env a cam) j b" if "cam_sessions cam j = Some b" for j b
  proof (cases "j = sid")
    case True
    then show ?thesis unfolding r using that a by (simp add: session_ok_def upd_session_def)
  next
    case False
    then have "b \<noteq> a" using others [OF False that] a(2) by (auto simp: session_ok_def)
    then show ?thesis unfolding r using others [OF False that] by (simp add: session_ok_def upd_session_def)
  qed
  then show "cam_ok (recount env a cam)" using ids doms by (intro cam_okI) (simp_all add: r upd_session_def)
qed

lemma Compress_error: "CompressCodingAgentMessages e1 e2 ord t i k sm grp db = (Some e, db') \<Longrightarrow> db' = db"
  unfolding CompressCodingAgentMessages_def by (simp add: Let_def split: sum.splits if_splits option.splits)

lemma compressContext_cases:
  assumes "compressContext env a cam = (e, cam')"
  obtains (same) "cam' = cam"
    | (compressed) k sm grp db' s role ct n g b where
      "CompressCodingAgentMessages (ae_db env 4) (ae_db env 5) (ae_ord env) (ae_time env) (cs_ID (cam_heap cam a)) k sm grp (cam_db cam) = (None, db')"
      "cam' = recount env a (auditLog (ae_time env) (ae_db env 6) s role ct n g b (cam\<lparr>cam_db := db'\<rparr>))"
proof (cases "GetCodingAgentMessages (ae_db env 3) (ae_ord env) (cs_ID (cam_heap cam a)) 0 (cam_db cam)")
  case (Inl x)
  with assms show ?thesis by (intro same) (simp add: compressContext_def Let_def)
next
  case (Inr msgs)
  let ?k = "split_scan 0 0 0 msgs" let ?grp = "cg_CompressGroup (msgs ! (?k - 1)) + 1"
  show ?thesis
  proof (cases "\<exists>sm. length msgs > RecentMessageKeep + 2 \<and> ?k > 1 \<and> drop 1 (take ?k msgs) \<noteq> [] \<and>
      ae_summary env (summary_body (cs_Model (cam_heap cam a)) (drop 1 (take ?k msgs))) = Inr sm \<and> sm \<noteq> []")
    case False
    with assms Inr show ?thesis
      by (intro same) (auto simp: compressContext_def Let_def not_less split: sum.splits if_splits)
  next
    case True
    then obtain sm where T: "length msgs > RecentMessageKeep + 2" "?k > 1" "drop 1 (take ?k msgs) \<noteq> []"
      "ae_summary env (summary_body (cs_Model (cam_heap cam a)) (drop 1 (take ?k msgs))) = Inr sm" "sm \<noteq> []" by blast
    obtain r db' where R: "CompressCodingAgentMessages (ae_db env 4) (ae_db env 5) (ae_ord env) (ae_time env) (cs_ID (cam_heap cam a))
      ?k sm ?grp (cam_db cam) = (r, db')" by fastforce
    show ?thesis
    proof (cases r)
      case None
      with assms Inr T R show ?thesis by (intro compressed) (auto simp: compressContext_def Let_def upd_db_def)
    next
      case (Some x)
      with assms Inr T R Compress_error [of "ae_db env 4"] show ?thesis by (intro same) (auto simp: compressContext_def Let_def upd_db_def)
    qed
  qed
qed

lemma compressContext_ok:
  assumes env: "ae_db env 7 = None" "sql_order_ok (ae_ord env)" and ok: "cam_ok cam" and a: "cam_sessions cam sid = Some a"
    and c: "compressContext env a cam = (e, cam')"
  shows "cam_ok cam' \<and> same_ids cam cam'"
proof -
  have sid: "cs_ID (cam_heap cam a) = sid" "a < cam_next cam" using cam_okD(2) [OF ok a] by (auto simp: session_ok_def)
  from c show ?thesis
  proof (cases rule: compressContext_cases)
    case same
    then show ?thesis using ok by (simp add: same_ids_def)
  next
    case (compressed k sm grp db' s role ct n g b)
    note cc = compressed(1) [unfolded sid(1)] and cam' = compressed(2)
    let ?c1 = "cam\<lparr>cam_db := db'\<rparr>" let ?c2 = "auditLog (ae_time env) (ae_db env 6) s role ct n g b ?c1"
    note F = Compress_frame [OF cam_okD(1) [OF ok] env(2) cc]
    have core: "same_core ?c1 ?c2" by (rule auditLog_core)
    have sess: "ad_sessions (cam_db ?c2) = ad_sessions db'"
      by (simp add: auditLog_def upd_db_def InsertCodingAgentAuditEntry_def split: option.splits)
    have msgs: "ad_messages (cam_db ?c2) = ad_messages db'" "cam_sessions ?c2 = cam_sessions cam" "cam_next ?c2 = cam_next cam"
      "cs_ID (cam_heap ?c2 d) = cs_ID (cam_heap cam d)" "cs_TotalTokens (cam_heap ?c2 d) = cs_TotalTokens (cam_heap cam d)" for d
      using core by (auto simp: same_core_def)
    have "session_ok ?c2 j d" if "j \<noteq> sid" "cam_sessions ?c2 j = Some d" for j d
    proof -
      have "tokens_of (cam_db ?c2) j = tokens_of (cam_db cam) j"
        using F(2) [OF that(1)] tokens_of_cong [OF msgs(1)] by (simp add: tokens_of_def)
      then show ?thesis using cam_okD(2) [OF ok, of j d] that(2) msgs by (simp add: session_ok_def)
    qed
    moreover have "cg_SessionID m \<in> dom (cam_sessions ?c2)" if "m \<in> set (ad_messages (cam_db ?c2))" for m
      using F(3) [of m] that a cam_okD(3) [OF ok, of m] by (auto simp: msgs)
    moreover have "(cs_ID \<circ> fst) ` set (ad_sessions (cam_db ?c2)) = dom (cam_sessions ?c2)"
      using cam_okD(4) [OF ok] F(4) by (simp add: sess msgs)
    ultimately have "cam_ok (recount env a ?c2)" "same_ids ?c2 (recount env a ?c2)"
      using recount_ok [OF env, of ?c2 sid a] F(1) sid a by (simp_all add: msgs)
    moreover have "same_ids cam ?c2" by (simp add: same_ids_def msgs)
    ultimately show ?thesis unfolding cam' by (auto intro: same_ids_trans)
  qed
qed

lemma GetSession_ok:
  assumes "cam_ok cam" "GetSession env sid cam = (r, cam')"
  shows "cam' = cam \<and> (\<forall>a. r = Inr (Some a) \<longrightarrow> cam_sessions cam sid = Some a)"
proof (cases "cam_sessions cam sid")
  case None
  then have "find (\<lambda>(s, md). cs_ID s = sid) (ad_sessions (cam_db cam)) = None"
    using cam_okD(4) [OF assms(1)] by (force simp: find_None_iff)
  with None assms(2) show ?thesis
    by (auto simp: GetSession_def GetCodingAgentSession_def sql_result_def split: option.splits)
qed (use assms(2) in \<open>auto simp: GetSession_def\<close>)

lemma maybeCompress_ok:
  assumes "ae_db env 7 = None" "sql_order_ok (ae_ord env)" "cam_ok cam" "cam_sessions cam sid = Some a"
    and "maybeCompress env a cam = (r, cam')"
  shows "cam_ok cam' \<and> same_ids cam cam'"
  using assms(3,5) compressContext_ok [OF assms(1-4)]
  by (auto simp: maybeCompress_def Let_def same_ids_def split: if_splits prod.splits)

text \<open>Which session a started message belongs to.\<close>

fun send_session :: "send_state \<Rightarrow> session_addr option" where
  "send_session (SendError e) = None"
| "send_session (SendQueued a m c j) = Some a"
| "send_session (SendElsewhere a m c ms) = Some a"

text \<open>The incoming message is stored, counted and logged.\<close>

lemma incoming_ok:
  assumes ok: "cam_ok cam" and a: "cam_sessions cam (cg_SessionID m) = Some a"
    and I: "upd_db (InsertCodingAgentMessage err m) cam = (None, cam2)"
    and cam4: "cam4 = auditLog now err' se role content n d cmp (upd_session a (count_incoming m) cam2)"
  shows "cam_ok cam4 \<and> same_ids cam cam4"
proof -
  define cam3 where "cam3 = upd_session a (count_incoming m) cam2"
  have "cam_ok cam3" unfolding cam3_def
    using count_message_ok [OF ok _ I, of a "count_incoming m"] a by (simp add: count_incoming_def)
  then have "cam_ok cam4" unfolding cam4 cam3_def [symmetric] by (rule same_core_ok [OF auditLog_core])
  moreover have "cam_sessions cam2 = cam_sessions cam" "cam_next cam2 = cam_next cam" "cam_heap cam2 = cam_heap cam"
    using I by (auto simp: upd_db_def split: prod.splits)
  then have "same_ids cam cam3" by (simp add: cam3_def same_ids_def upd_session_def count_incoming_def)
  moreover have "same_ids cam3 cam4" unfolding cam4 cam3_def [symmetric] by (rule same_core_ids [OF auditLog_core])
  ultimately show ?thesis by (blast intro: same_ids_trans)
qed

lemma submit_chat_ok:
  assumes "submit_chat env ja sid a m b cam = (r, cam')" "cam_ok cam"
  shows "cam_ok cam' \<and> same_ids cam cam' \<and> (send_session r = None \<or> send_session r = Some a)"
proof -
  have "cam' = cam \<or> (\<exists>q. cam' = cam\<lparr>cam_queue := q\<rparr>)" "send_session r = None \<or> send_session r = Some a"
    using assms(1) by (auto simp: submit_chat_def Let_def split: sum.splits prod.splits bool.splits)
  with assms(2) show ?thesis by (auto intro: same_core_ok [OF outside_core(1)] simp: same_ids_def)
qed

lemma SendMessage_start_ok:
  assumes env: "ae_db env 7 = None" "sql_order_ok (ae_ord env)" and ok: "cam_ok cam"
    and s: "SendMessage_start env ja sid role content md cam = (r, cam')"
  shows "cam_ok cam' \<and> same_ids cam cam' \<and> (\<forall>a. send_session r = Some a \<longrightarrow> cam_sessions cam sid = Some a)"
proof -
  obtain g cam1 where G: "GetSession env sid cam = (g, cam1)" by fastforce
  note gs = GetSession_ok [OF ok G]
  show ?thesis
  proof (cases "\<exists>a. g = Inr (Some a) \<and> cs_Status (cam_heap cam a) = SessionActive")
    case False
    with s G gs ok show ?thesis
      by (auto simp: SendMessage_start_def same_ids_def split: sum.splits option.splits if_splits)
  next
    case True
    then obtain a where a: "g = Inr (Some a)" "cs_Status (cam_heap cam a) = SessionActive" "cam_sessions cam sid = Some a" "cam1 = cam"
      using gs by auto
    define inMsg where "inMsg = incoming_message env sid role content md"
    have sid: "cg_SessionID inMsg = sid" by (simp add: inMsg_def incoming_message_def new_message_def)
    obtain e cam2 where I: "upd_db (InsertCodingAgentMessage (ae_db env 1) inMsg) cam = (e, cam2)" by fastforce
    show ?thesis
    proof (cases e)
      case (Some x)
      then have "cam2 = cam" using I by (auto simp: upd_db_def InsertCodingAgentMessage_def Let_def split: option.splits if_splits)
      with s G a I Some ok show ?thesis
        by (auto simp: SendMessage_start_def Let_def inMsg_def [symmetric] same_ids_def)
    next
      case None
      define cam3 where "cam3 = upd_session a (count_incoming inMsg) cam2"
      define cam4 where "cam4 = auditLog (ae_time env) (ae_db env 2) (cam_heap cam3 a) role content (cg_TokenCount inMsg) 0 False cam3"
      obtain b x cam5 where M: "maybeCompress env a cam4 = ((b, x), cam5)" by (metis prod.exhaust)
      have 4: "cam_ok cam4" "same_ids cam cam4"
        using incoming_ok [OF ok _ I [unfolded None] cam4_def [unfolded cam3_def], folded cam3_def] a(3) sid by auto
      then have "cam_sessions cam4 sid = Some a" using a(3) by (simp add: same_ids_def)
      from maybeCompress_ok [OF env 4(1) this M] 4(2) have 5: "cam_ok cam5" "same_ids cam cam5" by (auto intro: same_ids_trans)
      have "SendMessage_start env ja sid role content md cam = submit_chat env ja sid a inMsg b cam5"
        using G a I None M
        by (simp add: SendMessage_start_def Let_def inMsg_def [symmetric] cam3_def [symmetric] cam4_def [symmetric])
      with s submit_chat_ok [of env ja sid a inMsg b cam5 r cam'] 5 a(3) show ?thesis by (auto intro: same_ids_trans)
    qed
  qed
qed

lemma finishMessage_ok:
  assumes ok: "cam_ok cam" and a: "cam_sessions cam (cs_ID (cam_heap cam a)) = Some a" and env: "ae_db env 0 = None"
    and fresh: "cg_ID (reply_message env (cs_ID (cam_heap cam a)) response) \<notin> cg_ID ` set (ad_messages (cam_db cam))"
  shows "cam_ok (finishMessage env a response compressed cam) \<and> same_ids cam (finishMessage env a response compressed cam)"
proof -
  define out where "out = reply_message env (cs_ID (cam_heap cam a)) response"
  define cam1 where "cam1 = snd (upd_db (InsertCodingAgentMessage (ae_db env 0) out) cam)"
  define cam2 where "cam2 = upd_session a (count_reply env out) cam1"
  define cam3 where "cam3 = auditLog (ae_time env) (ae_db env 1) (cam_heap cam2 a) ''assistant'' response (cg_TokenCount out) 0 False cam2"
  define cam4 where "cam4 = upd_session a (\<lambda>s. s\<lparr>cs_Compressions := cs_Compressions s + (if compressed then 1 else 0)\<rparr>) cam3"
  define cam5 where "cam5 = snd (upd_db (UpdateCodingAgentSession (ae_db env 2) (cam_heap cam4 a)) cam4)"
  have f: "finishMessage env a response compressed cam = cam5\<lparr>cam_sessions := (cam_sessions cam5)(cs_ID (cam_heap cam5 a) \<mapsto> a)\<rparr>"
    unfolding finishMessage_def Let_def out_def [symmetric] cam1_def [symmetric] cam2_def [symmetric] cam3_def [symmetric]
      cam4_def [symmetric] cam5_def [symmetric] ..
  have I: "upd_db (InsertCodingAgentMessage (ae_db env 0) out) cam = (None, cam1)"
    using env fresh by (auto simp: cam1_def upd_db_def InsertCodingAgentMessage_def out_def)
  then have i1: "cam_sessions cam1 = cam_sessions cam" "cam_next cam1 = cam_next cam" "cam_heap cam1 = cam_heap cam"
    by (auto simp: upd_db_def split: prod.splits)
  have sid: "cg_SessionID out = cs_ID (cam_heap cam a)" by (simp add: out_def reply_message_def new_message_def)
  have ok2: "cam_ok cam2" unfolding cam2_def
    using count_message_ok [OF ok _ I, of a "count_reply env out"] a sid by (simp add: count_reply_def)
  have i2: "same_ids cam cam2" by (simp add: cam2_def same_ids_def upd_session_def i1 count_reply_def)
  have "same_core cam2 cam3" unfolding cam3_def by (rule auditLog_core)
  also have "same_core cam3 cam4" unfolding cam4_def by (rule upd_session_core) simp
  also have "same_core cam4 cam5" unfolding cam5_def by (rule update_core)
  finally have c: "same_core cam2 cam5" .
  then have ok5: "cam_ok cam5" "same_ids cam cam5" using ok2 i2 same_core_ok same_core_ids same_ids_trans by blast+
  have "finishMessage env a response compressed cam = cam5"
    unfolding f using ok5(2) a by (simp add: same_ids_def fun_upd_idem)
  with ok5 show ?thesis by simp
qed

lemma ArchiveSession_ok:
  assumes ok: "cam_ok cam" and s: "ArchiveSession env sid cam = (e, cam')"
  shows "cam_ok cam' \<and> same_ids cam cam'"
proof -
  obtain g cam1 where G: "GetSession env sid cam = (g, cam1)" by fastforce
  note gs = GetSession_ok [OF ok G]
  show ?thesis
  proof (cases "\<exists>a. g = Inr (Some a)")
    case False
    with s G gs ok show ?thesis by (auto simp: ArchiveSession_def same_ids_def split: sum.splits option.splits)
  next
    case True
    then obtain a where a: "g = Inr (Some a)" ..
    define cam2 where "cam2 = upd_session a (\<lambda>s. s\<lparr>cs_Status := SessionArchived, cs_UpdatedAt := now_seconds (ae_time env)\<rparr>) cam"
    have "cam' = snd (upd_db (UpdateCodingAgentSession (ae_db env 1) (cam_heap cam2 a)) cam2)"
      using s G a gs by (simp add: ArchiveSession_def Let_def cam2_def)
    then have "same_core cam2 cam'" using update_core by simp
    moreover have "same_core cam cam2" unfolding cam2_def by (rule upd_session_core) simp
    ultimately show ?thesis using ok same_core_ok same_core_ids same_ids_trans by blast
  qed
qed

text \<open>What \<open>CreateSession\<close> does to the state once the row of the session is in.\<close>

lemma CreateSession_cases:
  assumes "CreateSession env ty m0 prompt b0 md cam = (r, cam')"
  obtains (refused) d where "cam' = cam\<lparr>cam_detector := d\<rparr>"
    | (created) s row msg d f where "cs_ID (fst row) = cs_ID s" "cs_ID s \<notin> (cs_ID \<circ> fst) ` set (ad_sessions (cam_db cam))"
      "cs_TotalTokens s = 0" "msg = system_message (ae_time env) s" "cs_SystemPrompt s = prompt"
      "cs_ID s = ''ca-'' @ ty @ ''-'' @ millis (ae_time env)"
      "cam' = snd (add_session (f s) (if prompt = [] then cam\<lparr>cam_detector := d, cam_db := (cam_db cam)\<lparr>ad_sessions := ad_sessions (cam_db cam) @ [row]\<rparr>\<rparr>
          else snd (upd_db (InsertCodingAgentMessage (ae_db env 1) msg)
            (cam\<lparr>cam_detector := d, cam_db := (cam_db cam)\<lparr>ad_sessions := ad_sessions (cam_db cam) @ [row]\<rparr>\<rparr>))))"
      "cs_ID (f s) = cs_ID s" "cs_TotalTokens (f s) = (if prompt = [] then 0 else cg_TokenCount msg)"
proof -
  let ?t = "ae_time env" let ?model = "if m0 = [] then oq_ollamaModel (cam_queue cam) else m0"
  obtain w d1 where d1: "DetectContextWindow (ae_show env) ?model (cam_detector cam) = (w, d1)" by fastforce
  obtain b d2 where d2: "GetContextBudgetForModel (ae_show env) ?model b0 d1 = (b, d2)" by fastforce
  define s where "s = new_session ?t ty ?model prompt b md"
  define msg where "msg = system_message ?t s"
  define cam1 where "cam1 = cam\<lparr>cam_detector := d2\<rparr>"
  define f where "f = (\<lambda>s' :: CodingAgentSession. if prompt = [] then s' else s'\<lparr>cs_TotalMessages := cs_TotalMessages s' + 1, cs_TotalTokens := cs_TotalTokens s' + cg_TokenCount msg\<rparr>)"
  obtain e cam2 where I: "upd_db (InsertCodingAgentSession (ae_codec env) (ae_db env 0) s) cam1 = (e, cam2)" by fastforce
  note def = assms [unfolded CreateSession_def Let_def d1 d2 prod.case, folded s_def cam1_def msg_def, unfolded I prod.case]
  have s0: "cs_TotalTokens s = 0" "cs_SystemPrompt s = prompt" "cs_ID s = ''ca-'' @ ty @ ''-'' @ millis ?t"
    by (simp_all add: s_def new_session_def)
  show ?thesis
  proof (cases e)
    case (Some x)
    then have "cam2 = cam1" using I by (auto simp: upd_db_def InsertCodingAgentSession_def split: option.splits if_splits)
    with def Some show ?thesis by (intro refused [of d2]) (simp add: cam1_def)
  next
    case None
    let ?row = "(s\<lparr>cs_Metadata := None\<rparr>, metadata_text (ae_codec env) (cs_Metadata s))"
    have i: "cs_ID s \<notin> (cs_ID \<circ> fst) ` set (ad_sessions (cam_db cam))"
      "cam2 = cam\<lparr>cam_detector := d2, cam_db := (cam_db cam)\<lparr>ad_sessions := ad_sessions (cam_db cam) @ [?row]\<rparr>\<rparr>"
      using I None by (auto simp: upd_db_def InsertCodingAgentSession_def cam1_def image_image comp_def split: option.splits if_splits)
    have "cam' = snd (add_session (f s) (if prompt = [] then cam2 else snd (upd_db (InsertCodingAgentMessage (ae_db env 1) msg) cam2)))"
      using def None by (auto simp: f_def split: prod.splits if_splits)
    then show ?thesis using i s0 by (intro created [of ?row s msg f d2]) (simp_all add: msg_def f_def)
  qed
qed

text \<open>A new session with the messages \<open>ms\<close>, whose tokens it counts.\<close>

lemma new_session_ok:
  assumes ok: "cam_ok cam" and new: "cam_sessions cam (cs_ID s) = None" and row: "cs_ID (fst row) = cs_ID s"
    and cam': "cam_sessions cam' = (cam_sessions cam)(cs_ID s \<mapsto> cam_next cam)" "cam_next cam' = cam_next cam + 1"
      "cam_heap cam' = (cam_heap cam)(cam_next cam := s)" "ad_messages (cam_db cam') = ad_messages (cam_db cam) @ ms"
      "ad_sessions (cam_db cam') = ad_sessions (cam_db cam) @ [row]"
    and ms: "distinct (map cg_ID (ad_messages (cam_db cam) @ ms))" "\<And>m. m \<in> set ms \<Longrightarrow> cg_SessionID m = cs_ID s"
      "sum_list (map cg_TokenCount ms) = cs_TotalTokens s"
  shows "cam_ok cam'"
proof (rule cam_okI)
  have "cg_SessionID m \<noteq> cs_ID s" if "m \<in> set (ad_messages (cam_db cam))" for m using cam_okD(3) [OF ok that] new by auto
  then have "filter (\<lambda>m. cg_SessionID m = cs_ID s) (ad_messages (cam_db cam)) = []" by (simp add: filter_empty_conv)
  moreover have "filter (\<lambda>m. cg_SessionID m = i) ms = (if i = cs_ID s then ms else [])" for i
    using ms(2) by (auto simp: filter_empty_conv)
  ultimately have t: "tokens_of (cam_db cam') i = (if i = cs_ID s then cs_TotalTokens s else tokens_of (cam_db cam) i)" for i
    using ms(3) by (simp add: tokens_of_def session_messages_def cam'(4))
  show "distinct (map cg_ID (ad_messages (cam_db cam')))" using ms(1) by (simp add: cam'(4))
  show "session_ok cam' i a" if "cam_sessions cam' i = Some a" for i a
    using that cam_okD(2) [OF ok, of i a] by (auto simp: session_ok_def cam'(1-3) t split: if_splits)
  show "cg_SessionID m \<in> dom (cam_sessions cam')" if "m \<in> set (ad_messages (cam_db cam'))" for m
    using that cam_okD(3) [OF ok, of m] ms(2) by (auto simp: cam'(1,4))
  show "(cs_ID \<circ> fst) ` set (ad_sessions (cam_db cam')) = dom (cam_sessions cam')"
    using cam_okD(4) [OF ok] row by (simp add: cam'(1,5))
qed

lemma CreateSession_ok:
  assumes ok: "cam_ok cam" and env: "ae_db env 1 = None"
    and fresh: "prompt \<noteq> [] \<longrightarrow> ''msg-ca-'' @ ty @ ''-'' @ millis (ae_time env) @ ''-sys-'' @ millis (ae_time env) \<notin> cg_ID ` set (ad_messages (cam_db cam))"
    and c: "CreateSession env ty m0 prompt b0 md cam = (r, cam')"
  shows "cam_ok cam' \<and> (\<forall>a < cam_next cam. cam_heap cam' a = cam_heap cam a) \<and> cam_sessions cam \<subseteq>\<^sub>m cam_sessions cam'"
  using c
proof (cases rule: CreateSession_cases)
  case (refused d)
  then show ?thesis using ok by (auto intro: same_core_ok [OF outside_core(3)] simp: map_le_def)
next
  case (created s row msg d f)
  let ?cam = "cam\<lparr>cam_detector := d, cam_db := (cam_db cam)\<lparr>ad_sessions := ad_sessions (cam_db cam) @ [row]\<rparr>\<rparr>"
  let ?sid = "cs_ID s"
  have new: "cam_sessions cam ?sid = None" using created(2) cam_okD(4) [OF ok] by auto
  have mid: "cg_SessionID msg = ?sid" "cg_ID msg = ''msg-ca-'' @ ty @ ''-'' @ millis (ae_time env) @ ''-sys-'' @ millis (ae_time env)"
    using created(6) by (simp_all add: created(4) system_message_def new_message_def)
  obtain ms where ms: "cam' = snd (add_session (f s) (?cam\<lparr>cam_db := (cam_db ?cam)\<lparr>ad_messages := ad_messages (cam_db cam) @ ms\<rparr>\<rparr>))"
    "distinct (map cg_ID (ad_messages (cam_db cam) @ ms))" "\<And>m. m \<in> set ms \<Longrightarrow> cg_SessionID m = ?sid"
    "sum_list (map cg_TokenCount ms) = cs_TotalTokens (f s)"
  proof (cases "prompt = []")
    case True
    then show ?thesis using created(7,9) cam_okD(1) [OF ok] by (intro that [of "[]"]) simp_all
  next
    case False
    let ?m = "msg\<lparr>cg_MetadataJSON := ''{}''\<rparr>"
    have "cg_MetadataJSON msg = []" by (simp add: created(4) system_message_def new_message_def)
    then show ?thesis using False created(7,9) cam_okD(1) [OF ok] env fresh mid
      by (intro that [of "[?m]"]) (auto simp: upd_db_def InsertCodingAgentMessage_def)
  qed
  have cam': "cam_sessions cam' = (cam_sessions cam)(cs_ID (f s) \<mapsto> cam_next cam)" "cam_next cam' = cam_next cam + 1"
    "cam_heap cam' = (cam_heap cam)(cam_next cam := f s)" "ad_messages (cam_db cam') = ad_messages (cam_db cam) @ ms"
    "ad_sessions (cam_db cam') = ad_sessions (cam_db cam) @ [row]"
    using created(8) by (simp_all add: ms(1) add_session_def)
  have "cam_ok cam'"
    using new created(1,8) ms(2-4) by (intro new_session_ok [OF ok _ _ cam']) auto
  then show ?thesis using new created(8) by (auto simp: cam'(1,3) map_le_def dom_def)
qed

lemma DeleteSession_ok:
  assumes ok: "cam_ok cam" and env: "ae_db env 0 = None"
  shows "cam_ok (snd (DeleteSession env sid cam))" "cam_heap (snd (DeleteSession env sid cam)) = cam_heap cam"
    "cam_sessions (snd (DeleteSession env sid cam)) = (cam_sessions cam)(sid := None)"
proof -
  define cam' where "cam' = snd (DeleteSession env sid cam)"
  have d: "cam_sessions cam' = (cam_sessions cam)(sid := None)" "cam_heap cam' = cam_heap cam" "cam_next cam' = cam_next cam"
    "ad_messages (cam_db cam') = filter (\<lambda>m. cg_SessionID m \<noteq> sid) (ad_messages (cam_db cam))"
    "ad_sessions (cam_db cam') = filter (\<lambda>(s, md). cs_ID s \<noteq> sid) (ad_sessions (cam_db cam))"
    using env by (simp_all add: cam'_def DeleteSession_def upd_db_def DeleteCodingAgentSession_def)
  have t: "tokens_of (cam_db cam') i = tokens_of (cam_db cam) i" if "i \<noteq> sid" for i
    using that by (auto simp: tokens_of_def session_messages_def d(4) intro!: arg_cong [where f = sum_list] arg_cong [where f = "map cg_TokenCount"] filter_cong)
  have "cam_ok cam'"
  proof (rule cam_okI)
    show "distinct (map cg_ID (ad_messages (cam_db cam')))" using cam_okD(1) [OF ok] by (simp add: d(4) distinct_map_filter)
    show "session_ok cam' i a" if "cam_sessions cam' i = Some a" for i a
      using that cam_okD(2) [OF ok, of i a] t [of i] by (auto simp: session_ok_def d(1-3) split: if_splits)
    show "cg_SessionID m \<in> dom (cam_sessions cam')" if "m \<in> set (ad_messages (cam_db cam'))" for m
      using that cam_okD(3) [OF ok, of m] by (auto simp: d(1,4))
    have "(cs_ID \<circ> fst) ` set (ad_sessions (cam_db cam')) = (cs_ID \<circ> fst) ` set (ad_sessions (cam_db cam)) - {sid}"
      by (force simp: d(5))
    then show "(cs_ID \<circ> fst) ` set (ad_sessions (cam_db cam')) = dom (cam_sessions cam')"
      using cam_okD(4) [OF ok] by (simp add: d(1))
  qed
  then show "cam_ok (snd (DeleteSession env sid cam))" "cam_heap (snd (DeleteSession env sid cam)) = cam_heap cam"
    "cam_sessions (snd (DeleteSession env sid cam)) = (cam_sessions cam)(sid := None)"
    using d(1,2) unfolding cam'_def by auto
qed

text \<open>
  The manager with the messages under way (their session, and whether the conversation was compressed for them). Requests
  come in any order and wait for the model side by side. The guards are the errors that are only logged: a system prompt or
  a reply that cannot be stored is counted nevertheless, as is a deleted session that a message is under way for.
\<close>

type_synonym agent_sys = "CodingAgentManager \<times> (session_addr \<times> bool) list"

fun send_pending :: "send_state \<Rightarrow> (session_addr \<times> bool) list" where
  "send_pending (SendError e) = []"
| "send_pending (SendQueued a m c j) = [(a, c)]"
| "send_pending (SendElsewhere a m c ms) = [(a, c)]"

inductive agent_step :: "agent_sys \<Rightarrow> agent_sys \<Rightarrow> bool" where
  create: "CreateSession env ty model prompt budget md cam = (r, cam') \<Longrightarrow> ae_db env 1 = None \<Longrightarrow>
    prompt \<noteq> [] \<longrightarrow> ''msg-ca-'' @ ty @ ''-'' @ millis (ae_time env) @ ''-sys-'' @ millis (ae_time env) \<notin> cg_ID ` set (ad_messages (cam_db cam)) \<Longrightarrow>
    agent_step (cam, ps) (cam', ps)"
| start: "SendMessage_start env ja sid role content md cam = (r, cam') \<Longrightarrow> ae_db env 7 = None \<Longrightarrow> sql_order_ok (ae_ord env) \<Longrightarrow>
    agent_step (cam, ps) (cam', ps @ send_pending r)"
| finish: "(a, c) \<in> set ps \<Longrightarrow> ae_db env 0 = None \<Longrightarrow>
    cg_ID (reply_message env (cs_ID (cam_heap cam a)) response) \<notin> cg_ID ` set (ad_messages (cam_db cam)) \<Longrightarrow>
    agent_step (cam, ps) (finishMessage env a response c cam, remove1 (a, c) ps)"
| give_up: "agent_step (cam, ps) (cam, remove1 p ps)"
| archive: "ArchiveSession env sid cam = (e, cam') \<Longrightarrow> agent_step (cam, ps) (cam', ps)"
| delete: "DeleteSession env sid cam = (e, cam') \<Longrightarrow> ae_db env 0 = None \<Longrightarrow>
    \<forall>(a, c) \<in> set ps. cs_ID (cam_heap cam a) \<noteq> sid \<Longrightarrow> agent_step (cam, ps) (cam', ps)"
| others: "agent_step (cam, ps) (cam\<lparr>cam_queue := q, cam_mesh := m\<rparr>, ps)"

inductive_cases agent_stepE: "agent_step (cam, ps) t"

definition agent_ok :: "agent_sys \<Rightarrow> bool" where
  "agent_ok = (\<lambda>(cam, ps). cam_ok cam \<and> (\<forall>(a, c) \<in> set ps. cam_sessions cam (cs_ID (cam_heap cam a)) = Some a))"

lemma agent_ok_same_ids: "agent_ok (cam, ps) \<Longrightarrow> cam_ok cam' \<Longrightarrow> same_ids cam cam' \<Longrightarrow> set qs \<subseteq> set ps \<Longrightarrow> agent_ok (cam', qs)"
  by (fastforce simp: agent_ok_def same_ids_def)

lemma agent_step_ok: "agent_step st st' \<Longrightarrow> agent_ok st \<Longrightarrow> agent_ok st'"
proof (induction rule: agent_step.induct)
  case (create env ty model prompt budget md cam r cam' ps)
  then have C: "cam_ok cam'" "\<And>a. a < cam_next cam \<Longrightarrow> cam_heap cam' a = cam_heap cam a" "cam_sessions cam \<subseteq>\<^sub>m cam_sessions cam'"
    using CreateSession_ok [OF _ create.hyps(2,3,1)] by (auto simp: agent_ok_def)
  have "cam_sessions cam' (cs_ID (cam_heap cam' a)) = Some a" if "(a, c) \<in> set ps" for a c
  proof -
    have s: "cam_sessions cam (cs_ID (cam_heap cam a)) = Some a" using create.prems that by (auto simp: agent_ok_def)
    then have "a < cam_next cam" using create.prems cam_okD(2) [OF _ s] by (auto simp: agent_ok_def session_ok_def)
    then show ?thesis using s C(2,3) by (auto simp: map_le_def dom_def)
  qed
  then show ?case using C(1) by (auto simp: agent_ok_def)
next
  case (start env ja sid role content md cam r cam' ps)
  then have S: "cam_ok cam'" "same_ids cam cam'" "\<And>a. send_session r = Some a \<Longrightarrow> cam_sessions cam sid = Some a"
    using SendMessage_start_ok [OF start.hyps(2,3) _ start.hyps(1)] by (auto simp: agent_ok_def)
  have "cam_sessions cam' (cs_ID (cam_heap cam' a)) = Some a" if "(a, c) \<in> set (send_pending r)" for a c
  proof -
    have "send_session r = Some a" using that by (cases r) auto
    from S(3) [OF this] have "cam_sessions cam' sid = Some a" using S(2) by (simp add: same_ids_def)
    then show ?thesis using cam_okD(2) [OF S(1)] by (auto simp: session_ok_def)
  qed
  moreover have "agent_ok (cam', ps)" by (rule agent_ok_same_ids [OF start.prems S(1,2) order.refl])
  ultimately show ?case by (auto simp: agent_ok_def)
next
  case (finish a c ps env cam response)
  then have "cam_ok cam" "cam_sessions cam (cs_ID (cam_heap cam a)) = Some a" by (auto simp: agent_ok_def)
  from finishMessage_ok [OF this finish.hyps(2,3), of c] show ?case
    by (intro agent_ok_same_ids [OF finish.prems] set_remove1_subset) auto
next
  case (give_up cam ps p)
  then show ?case by (rule agent_ok_same_ids) (use give_up in \<open>auto simp: agent_ok_def same_ids_def dest: set_remove1_subset [THEN subsetD]\<close>)
next
  case (archive env sid cam e cam' ps)
  then have "cam_ok cam' \<and> same_ids cam cam'" using ArchiveSession_ok [OF _ archive.hyps] by (auto simp: agent_ok_def)
  then show ?case using agent_ok_same_ids [OF archive.prems] by blast
next
  case (delete env sid cam e cam' ps)
  then have "cam_ok cam" by (simp add: agent_ok_def)
  from DeleteSession_ok [OF this delete.hyps(2), of sid] show ?case using delete by (auto simp: agent_ok_def)
next
  case (others cam ps m q)
  have "same_core cam (cam\<lparr>cam_queue := q, cam_mesh := m\<rparr>)" by (simp add: same_core_def)
  moreover have "cam_ok cam" using others by (simp add: agent_ok_def)
  ultimately show ?case using agent_ok_same_ids [OF others] same_core_ok same_core_ids by blast
qed

interpretation agents: invariant_system agent_step agent_ok
  by unfold_locales (rule agent_step_ok)


definition sample_agent_env :: agent_env where
  "sample_agent_env = \<lparr>ae_time = 0, ae_db = \<lambda>n. None, ae_ord = sort_key, ae_codec = sample_codec,
     ae_show = \<lambda>m. Some (200, Some (8192, 0)), ae_summary = \<lambda>b. Inr ''so far''\<rparr>"

definition sample_cam :: CodingAgentManager where
  "sample_cam = \<lparr>cam_db = empty_agent_db, cam_queue = sample_oq, cam_mesh = None,
     cam_detector = NewModelContextDetector ''http://localhost:11434'', cam_serverID = ''s'', cam_sessions = Map.empty,
     cam_heap = \<lambda>a. sample_session, cam_next = 0\<rparr>"

lemma sample_cam_new: "NewCodingAgentManager empty_agent_db (Some sample_oq) None ''s'' (\<lambda>a. sample_session) = Some sample_cam"
  by (simp add: NewCodingAgentManager_def sample_cam_def sample_oq_def NewOllamaQueue_def)

definition sample_created :: CodingAgentManager where
  "sample_created = snd (CreateSession sample_agent_env ''codex'' ''llama3'' ''be brief please'' 4096 None sample_cam)"

lemmas sample_create_simps = CreateSession_def sample_agent_env_def sample_cam_def sample_oq_def NewOllamaQueue_def
  DetectContextWindow_def NewModelContextDetector_def resolve_window_def queryOllamaShow_def mk_window_def model_or_unknown_def
  GetContextBudgetForModel_def MinTokenBudget_def MaxTokenBudget_def upd_db_def InsertCodingAgentSession_def empty_agent_db_def
  new_session_def system_message_def new_message_def estimateTokens_def InsertCodingAgentMessage_def add_session_def

lemma sample_created_state:
  "cam_sessions sample_created = [''ca-codex-'' @ millis 0 \<mapsto> 0]" "cs_TotalTokens (cam_heap sample_created 0) = 3"
  by (simp_all add: sample_created_def sample_create_simps Let_def)


section \<open>What compression keeps\<close>

definition plain_system :: "CodingAgentMessage \<Rightarrow> bool" where
  "plain_system m \<longleftrightarrow> cg_Role m = ''system'' \<and> \<not> cg_IsSummary m"

lemma split_scan_Cons:
  "split_scan i n k (m # ms) = (if plain_system m then split_scan (i + 1) n (i + 1) ms
     else if n + 1 \<ge> RecentMessageKeep then i else split_scan (i + 1) (n + 1) k ms)"
  by (simp add: plain_system_def)

lemma split_scan_prompt:
  assumes "length ms > 8" "plain_system (hd ms)" and rest: "\<And>m. m \<in> set (tl ms) \<Longrightarrow> \<not> plain_system m"
  shows "split_scan 0 0 0 ms = 6"
proof -
  have "Suc (Suc (Suc (Suc (Suc (Suc (Suc 0)))))) \<le> length ms" using assms(1) by simp
  then obtain m0 m1 m2 m3 m4 m5 m6 rest where ms: "ms = m0 # m1 # m2 # m3 # m4 # m5 # m6 # rest"
    unfolding Suc_le_length_iff by blast
  have "\<not> plain_system m1" "\<not> plain_system m2" "\<not> plain_system m3" "\<not> plain_system m4" "\<not> plain_system m5" "\<not> plain_system m6"
    using rest by (simp_all add: ms)
  then show ?thesis using assms(2) by (simp add: ms split_scan_Cons RecentMessageKeep_def del: split_scan.simps)
qed

lemma recount_db: "cam_db (recount env a cam) = cam_db cam"
  by (simp add: recount_def upd_session_def split: sum.splits)

lemma auditLog_messages: "session_messages i (cam_db (auditLog t err s role ct n g b cam)) = session_messages i (cam_db cam)"
  using auditLog_core [of cam] by (simp add: same_core_def session_messages_def)

text \<open>
  C32. Compressing a conversation that starts with its system prompt: of the messages in the order of their times it replaces the second
  to the sixth, however long the conversation is, and the summary that stands for them comes last in the conversation, after the
  message to be answered. The counted tokens are those of the new conversation, and the other sessions keep theirs.
\<close>

theorem compression_effect:
  assumes ord: "sql_order_ok (ae_ord env)" and eng: "\<And>n. ae_db env n = None"
    and ids: "distinct (map cg_ID (ad_messages (cam_db cam)))" and s: "s = cam_heap cam a"
    and msgs: "GetMessages env (cs_ID s) 0 cam = Inr msgs" "length msgs > 8" "sorted_wrt (<) (map cg_CreatedAt msgs)"
    and prompt: "plain_system (hd msgs)" and rest: "\<And>m. m \<in> set (tl msgs) \<Longrightarrow> \<not> plain_system m"
    and now: "\<And>m. m \<in> set msgs \<Longrightarrow> cg_CreatedAt m < now_seconds (ae_time env)"
    and answer: "ae_summary env (summary_body (cs_Model s) (take 5 (tl msgs))) = Inr response" "response \<noteq> []"
    and sm: "sm = summary_message (ae_time env) (cs_ID s) response (cg_CompressGroup (msgs ! 5) + 1)"
    and fresh: "cg_ID sm \<notin> cg_ID ` set (ad_messages (cam_db cam))"
  shows "\<exists>cam'. compressContext env a cam = (None, cam') \<and>
    GetMessages env (cs_ID s) 0 cam' = Inr (hd msgs # drop 6 msgs @ [sm]) \<and>
    cs_TotalTokens (cam_heap cam' a) = sum_list (map cg_TokenCount (hd msgs # drop 6 msgs @ [sm])) \<and>
    (\<forall>i. i \<noteq> cs_ID s \<longrightarrow> GetMessages env i 0 cam' = GetMessages env i 0 cam)"
proof -
  let ?i = "cs_ID s" let ?t = "ae_time env" let ?grp = "cg_CompressGroup (msgs ! 5) + 1" let ?new = "hd msgs # drop 6 msgs @ [sm]"
  have m: "msgs = ae_ord env cg_CreatedAt (session_messages ?i (cam_db cam))"
    using msgs(1) eng by (simp add: GetMessages_def GetCodingAgentMessages_def sql_result_def)
  have k: "split_scan 0 0 0 msgs = 6" using msgs(2) prompt rest by (rule split_scan_prompt)
  obtain db' where db': "CompressCodingAgentMessages None None (ae_ord env) ?t ?i 6 response ?grp (cam_db cam) = (None, db')"
    "ae_ord env cg_CreatedAt (session_messages ?i db') = ?new" "mset (session_messages ?i db') = mset ?new"
    "\<And>j. j \<noteq> ?i \<Longrightarrow> session_messages j db' = session_messages j (cam_db cam)"
    by (rule compressed_messages [OF ord ids m msgs(3), of 6 ?t response ?grp, folded sm]) (use msgs(2) now fresh in simp_all)
  have tk: "drop 1 (take 6 msgs) = take 5 (tl msgs)" by (cases msgs) simp_all
  have ne: "tl msgs \<noteq> []" using msgs(2) by (cases msgs) auto
  let ?c = "auditLog ?t (ae_db env 6) s ''system'' (''[Context compressed] '' @ truncStr response 500) (estimateTokens response) ?grp True
    (cam\<lparr>cam_db := db'\<rparr>)"
  have G: "GetCodingAgentMessages None (ae_ord env) ?i 0 (cam_db cam) = Inr msgs"
    using m by (simp add: GetCodingAgentMessages_def sql_result_def)
  have c: "compressContext env a cam = (None, recount env a ?c)"
    unfolding compressContext_def s [symmetric] Let_def eng G sum.case k tk
    using msgs(2) ne answer db'(1) by (simp add: RecentMessageKeep_def upd_db_def eng)
  have ci: "cs_ID (cam_heap ?c a) = ?i" using auditLog_core [of "cam\<lparr>cam_db := db'\<rparr>"] s by (simp add: same_core_def)
  have "cs_TotalTokens (cam_heap (recount env a ?c) a) = sum_list (map cg_TokenCount ?new)"
    using db'(2) ci by (simp add: recount_def eng GetCodingAgentMessages_def sql_result_def auditLog_messages upd_session_def)
  moreover have "GetMessages env j 0 (recount env a ?c) = Inr (ae_ord env cg_CreatedAt (session_messages j db'))" for j
    by (simp add: GetMessages_def GetCodingAgentMessages_def sql_result_def eng recount_db auditLog_messages)
  moreover have "GetMessages env j 0 cam = Inr (ae_ord env cg_CreatedAt (session_messages j (cam_db cam)))" for j
    by (simp add: GetMessages_def GetCodingAgentMessages_def sql_result_def eng)
  ultimately show ?thesis unfolding c using db'(2,4) by auto
qed

definition sample_message :: "nat \<Rightarrow> CodingAgentMessage" where
  "sample_message n = \<lparr>cg_ID = replicate n CHR ''m'', cg_SessionID = ''ca-codex-1'', cg_Role = (if n = 0 then ''system'' else ''user''),
     cg_Content = ''text'', cg_TokenCount = 1, cg_CompressGroup = 0, cg_IsSummary = False, cg_MetadataJSON = ''{}'', cg_CreatedAt = of_nat n\<rparr>"

definition sample_long :: CodingAgentManager where
  "sample_long = sample_cam\<lparr>cam_db := empty_agent_db\<lparr>ad_messages := map sample_message [0..<9]\<rparr>\<rparr>"

lemma sample_messages_id [simp]: "cg_ID (sample_message n) = replicate n CHR ''m''" "cg_SessionID (sample_message n) = ''ca-codex-1''"
  "cg_CreatedAt (sample_message n) = of_nat n" "plain_system (sample_message n) \<longleftrightarrow> n = 0"
  by (simp_all add: sample_message_def plain_system_def)

lemma sorted_sample: "sort_key cg_CreatedAt (map sample_message [0..<n]) = map sample_message [0..<n]"
  by (rule sort_key_id_if_sorted) (simp add: sorted_iff_nth_mono_less)

text \<open>Nine messages become five: the prompt, three of the others and the summary.\<close>

theorem compression_effect_witness:
  "\<exists>cam'. compressContext (sample_agent_env\<lparr>ae_time := 100000000000\<rparr>) 0 sample_long = (None, cam') \<and>
     GetMessages (sample_agent_env\<lparr>ae_time := 100000000000\<rparr>) ''ca-codex-1'' 0 cam'
       = Inr (map sample_message [0, 6, 7, 8] @ [summary_message 100000000000 ''ca-codex-1'' ''so far'' 1])"
proof -
  let ?env = "sample_agent_env\<lparr>ae_time := 100000000000\<rparr>" let ?msgs = "map sample_message [0..<9]"
  have u: "[0..<9] = [0, 1, 2, 3, 4, 5, 6, 7, 8 :: nat]" by code_simp
  have s: "sample_session = cam_heap sample_long 0" by (simp add: sample_long_def sample_cam_def)
  have all: "session_messages ''ca-codex-1'' (cam_db sample_long) = ?msgs" by (simp add: session_messages_def sample_long_def)
  have g: "GetMessages ?env (cs_ID sample_session) 0 sample_long = Inr ?msgs"
    using all sorted_sample [of 9]
    by (simp add: GetMessages_def GetCodingAgentMessages_def sql_result_def sample_agent_env_def sample_session_def del: upt_rec_numeral)
  have g5: "cg_CompressGroup (sample_message n) = 0" for n by (simp add: sample_message_def)
  have d: "hd ?msgs # drop 6 ?msgs @ [summary_message 100000000000 ''ca-codex-1'' ''so far'' 1]
      = map sample_message [0, 6, 7, 8] @ [summary_message 100000000000 ''ca-codex-1'' ''so far'' 1]" by (simp add: u)
  have "\<exists>cam'. compressContext ?env 0 sample_long = (None, cam') \<and>
    GetMessages ?env (cs_ID sample_session) 0 cam' = Inr (hd ?msgs # drop 6 ?msgs @ [summary_message 100000000000 ''ca-codex-1'' ''so far'' 1]) \<and>
    cs_TotalTokens (cam_heap cam' 0) = sum_list (map cg_TokenCount (hd ?msgs # drop 6 ?msgs @ [summary_message 100000000000 ''ca-codex-1'' ''so far'' 1])) \<and>
    (\<forall>i. i \<noteq> cs_ID sample_session \<longrightarrow> GetMessages ?env i 0 cam' = GetMessages ?env i 0 sample_long)"
  proof (rule compression_effect [OF _ _ _ s g])
    show "distinct (map cg_ID (ad_messages (cam_db sample_long)))"
      by (simp add: sample_long_def distinct_map inj_on_def replicate_eq_replicate)
    show "sorted_wrt (<) (map cg_CreatedAt ?msgs)" by (simp add: u)
    show "cg_ID (summary_message 100000000000 ''ca-codex-1'' ''so far'' 1) \<notin> cg_ID ` set (ad_messages (cam_db sample_long))"
      by (simp add: summary_message_def sample_long_def numeral_eq_Suc)
  qed (auto simp: sample_agent_env_def sort_key_order_ok g5 now_seconds_def u sample_session_def)
  then show ?thesis unfolding d by (auto simp: sample_session_def)
qed

section \<open>Archived and deleted sessions\<close>

text \<open>
  Archiving takes effect: a session that was archived refuses every message from then on, in whatever role; nothing is stored,
  counted or submitted for it.
\<close>

theorem archived_refuses:
  assumes "ArchiveSession env sid cam = (e, cam1)" "cam_sessions cam sid = Some a"
  shows "SendMessage_start env' ja sid role content md cam1 = (SendError (''session is archived: '' @ sid), cam1)"
proof -
  have "cam_sessions cam1 sid = Some a" "cs_Status (cam_heap cam1 a) = SessionArchived"
    using assms by (auto simp: ArchiveSession_def GetSession_def upd_db_def upd_session_def Let_def split: prod.splits)
  then show ?thesis by (simp add: SendMessage_start_def GetSession_def SessionArchived_def SessionActive_def)
qed

theorem archived_refuses_witness:
  "SendMessage_start sample_agent_env 0 (''ca-codex-'' @ millis 0) ''user'' ''hi'' None
     (snd (ArchiveSession sample_agent_env (''ca-codex-'' @ millis 0) sample_created))
   = (SendError (''session is archived: ca-codex-'' @ millis 0), snd (ArchiveSession sample_agent_env (''ca-codex-'' @ millis 0) sample_created))"
  using archived_refuses [OF prod.collapse [symmetric], where sid = "''ca-codex-'' @ millis 0" and cam = sample_created and a = 0
      and env = sample_agent_env]
  by (simp add: sample_created_state)

text \<open>A session deleted while a message for it is under way is back in the table when the reply comes, and in the database its reply
  is a message of no session.\<close>

lemma deleted_comes_back:
  assumes ok: "cam_ok cam" and a: "cam_sessions cam sid = Some a" and env: "\<And>n. ae_db env n = None"
    and cam1_def: "cam1 = snd (DeleteSession env sid cam)" and cam2_def: "cam2 = finishMessage env a response c cam1"
  shows "cam_sessions cam1 sid = None" "cam_sessions cam2 sid = Some a"
    "GetCodingAgentSession jc None sid (cam_db cam2) = Inr None"
    "\<And>m. m \<in> set (session_messages sid (cam_db cam1)) \<Longrightarrow> False"
    "cg_ID (reply_message env sid response) \<notin> cg_ID ` set (ad_messages (cam_db cam1)) \<Longrightarrow>
     \<exists>m. session_messages sid (cam_db cam2) = [m] \<and> cg_Content m = response"
proof -
  have sid: "cs_ID (cam_heap cam a) = sid" using cam_okD(2) [OF ok a] by (simp add: session_ok_def)
  have c1: "cam_heap cam1 = cam_heap cam" "cam_sessions cam1 = (cam_sessions cam)(sid := None)"
    "ad_messages (cam_db cam1) = filter (\<lambda>m. cg_SessionID m \<noteq> sid) (ad_messages (cam_db cam))"
    "ad_sessions (cam_db cam1) = filter (\<lambda>(s, md). cs_ID s \<noteq> sid) (ad_sessions (cam_db cam))"
    by (simp_all add: cam1_def DeleteSession_def upd_db_def DeleteCodingAgentSession_def env)
  show "cam_sessions cam1 sid = None" "\<And>m. m \<in> set (session_messages sid (cam_db cam1)) \<Longrightarrow> False"
    by (simp_all add: c1 session_messages_def)
  note fin = finishMessage_def Let_def upd_db_def upd_session_def auditLog_def InsertCodingAgentMessage_def
    InsertCodingAgentAuditEntry_def UpdateCodingAgentSession_def count_reply_def env
  show "cam_sessions cam2 sid = Some a" using sid by (auto simp: cam2_def fin c1)
  have "find (\<lambda>(s, md). cs_ID s = sid) (ad_sessions (cam_db cam2)) = None"
    using sid by (auto simp: cam2_def fin c1 find_None_iff set_session_columns_def)
  then show "GetCodingAgentSession jc None sid (cam_db cam2) = Inr None" by (simp add: GetCodingAgentSession_def sql_result_def)
  show "\<exists>m. session_messages sid (cam_db cam2) = [m] \<and> cg_Content m = response"
    if "cg_ID (reply_message env sid response) \<notin> cg_ID ` set (ad_messages (cam_db cam1))"
    using that sid by (auto simp: cam2_def fin c1(1,3) session_messages_def reply_message_def new_message_def)
qed

text \<open>The server makes its manager with no queue (\<open>NewHiveServer\<close>), which panics.\<close>

lemma nil_queue_panics: "NewCodingAgentManager db None mesh serverID h = None"
  by (simp add: NewCodingAgentManager_def)

end
