(* ===== verification/Provider.thy ===== *)
theory Provider
  imports Mesh Model_Registry
begin

text \<open>
  Model providers (\<^verbatim>\<open>hive-server-go/provider.go\<close>): the servers found on this node and on the peers' hosts, with the models each has,
  kept for 30 seconds. The theory shows that the list of all models names every model of the cached nodes once per
  provider, that reading it makes the cache forget the peers, and that the models of a peer's Ollama are entered into
  the registry as if this node had them.

  The registry is shared with the rest of the server, so the operations take and return it (\<open>None\<close>: there is none). What the
  probed servers answer is an argument: \<open>pp_tags url\<close> the names and sizes of the models of an Ollama, \<open>pp_v1 url\<close> the IDs that an
  OpenAI-compatible server lists, \<open>None\<close> when the request or the decoding fails.
\<close>

section \<open>Data\<close>

datatype ProviderType = ProviderOllama | ProviderLMStudio | ProviderVLLM | ProviderOpenAI | ProviderCustom

fun ProviderType_string :: "ProviderType \<Rightarrow> string" where
  "ProviderType_string ProviderOllama = ''ollama''"
| "ProviderType_string ProviderLMStudio = ''lm_studio''"
| "ProviderType_string ProviderVLLM = ''vllm''"
| "ProviderType_string ProviderOpenAI = ''openai_compatible''"
| "ProviderType_string ProviderCustom = ''custom''"

record ModelInfo =
  mi_Name :: string
  mi_Provider :: string
  mi_NodeID :: string
  mi_SizeGB :: string

record ProviderInfo =
  pv_Type :: ProviderType
  pv_BaseURL :: string
  pv_Healthy :: bool
  pv_Error :: string
  pv_Models :: "ModelInfo list"

record NodeInfo =
  nd_ID :: string
  nd_Endpoint :: string
  nd_IsSelf :: bool
  nd_Alive :: bool
  nd_Load :: real
  nd_Clients :: int
  nd_Providers :: "ProviderInfo list"

record ProviderManager =
  pm_selfID :: string
  pm_selfPort :: int
  pm_ollamaURL :: string
  pm_customURLs :: "string list"
  pm_nodesCache :: "NodeInfo list"
  pm_lastRefresh :: gotime
  pm_interval :: duration

record provider_env =
  pp_time :: gotime
  pp_server :: string
  pp_tags :: "string \<Rightarrow> (string \<times> int) list option"
  pp_v1 :: "string \<Rightarrow> string list option"
  pp_host :: "string \<Rightarrow> string option"
  pp_f1 :: "real \<Rightarrow> string"

text \<open>\<open>pp_server\<close> is the server's ID, \<open>pp_host\<close> the host name of a URL if it parses, \<open>pp_f1\<close> the text of \<^verbatim>\<open>%.1f\<close>.\<close>

type_synonym registry = "ModelRegistry option"

definition NewProviderManager :: "string \<Rightarrow> int \<Rightarrow> string \<Rightarrow> string list \<Rightarrow> ProviderManager" where
  "NewProviderManager selfID selfPort ollamaURL customURLs =
     \<lparr>pm_selfID = selfID, pm_selfPort = selfPort, pm_ollamaURL = ollamaURL, pm_customURLs = customURLs,
      pm_nodesCache = [], pm_lastRefresh = 0, pm_interval = 30 * second\<rparr>"

section \<open>Probes\<close>

definition register_found :: "provider_env \<Rightarrow> string \<Rightarrow> (string \<times> int) list \<Rightarrow> registry \<Rightarrow> registry" where
  "register_found env baseURL ms reg = map_option (\<lambda>mr. foldl (\<lambda>mr (name, sz).
     RegisterLocalModel (pp_server env) (pp_time env) name (ProviderType_string ProviderOllama) baseURL sz 0 mr) mr ms) reg"

definition probeOllama :: "provider_env \<Rightarrow> string \<Rightarrow> string \<Rightarrow> registry \<Rightarrow> ProviderInfo option \<times> registry" where
  "probeOllama env baseURL nodeID reg = (case pp_tags env baseURL of
     None \<Rightarrow> (None, reg)
   | Some ms \<Rightarrow>
       (Some \<lparr>pv_Type = ProviderOllama, pv_BaseURL = baseURL, pv_Healthy = True, pv_Error = [],
          pv_Models = map (\<lambda>(name, sz). \<lparr>mi_Name = name, mi_Provider = ProviderType_string ProviderOllama, mi_NodeID = nodeID,
            mi_SizeGB = (if sz > 0 then pp_f1 env (of_int sz / 1000000000) else [])\<rparr>) ms\<rparr>,
        register_found env baseURL ms reg))"

definition probeOpenAICompatible :: "provider_env \<Rightarrow> string \<Rightarrow> ModelInfo list option" where
  "probeOpenAICompatible env baseURL =
     map_option (map (\<lambda>i. \<lparr>mi_Name = i, mi_Provider = [], mi_NodeID = [], mi_SizeGB = []\<rparr>)) (pp_v1 env baseURL)"

definition provider_found :: "ProviderType \<Rightarrow> string \<Rightarrow> ModelInfo list \<Rightarrow> ProviderInfo" where
  "provider_found ty baseURL ms = \<lparr>pv_Type = ty, pv_BaseURL = baseURL, pv_Healthy = True, pv_Error = [],
     pv_Models = map (\<lambda>m. m\<lparr>mi_Provider := ProviderType_string ty\<rparr>) ms\<rparr>"

definition probeLMStudioAt :: "provider_env \<Rightarrow> string \<Rightarrow> ProviderInfo option" where
  "probeLMStudioAt env baseURL = map_option (provider_found ProviderLMStudio baseURL) (probeOpenAICompatible env baseURL)"

definition probeLMStudio :: "provider_env \<Rightarrow> ProviderInfo option" where
  "probeLMStudio env = probeLMStudioAt env ''http://localhost:1234''"

definition probeVLLMAt :: "provider_env \<Rightarrow> string \<Rightarrow> ProviderInfo option" where
  "probeVLLMAt env baseURL = map_option (provider_found ProviderVLLM baseURL) (probeOpenAICompatible env baseURL)"

definition probeVLLM :: "provider_env \<Rightarrow> ProviderInfo option" where
  "probeVLLM env = probeVLLMAt env ''http://localhost:8000''"

text \<open>A custom provider that does not answer is listed as healthy, with no models.\<close>

definition probeCustom :: "provider_env \<Rightarrow> string \<Rightarrow> ProviderInfo option" where
  "probeCustom env baseURL = Some (provider_found ProviderCustom baseURL
     (case probeOpenAICompatible env baseURL of None \<Rightarrow> [] | Some ms \<Rightarrow> ms))"

definition found :: "ProviderInfo option list \<Rightarrow> ProviderInfo list" where
  "found ps = concat (map (\<lambda>p. case p of Some x \<Rightarrow> [x] | None \<Rightarrow> []) ps)"

definition detectLocalProviders :: "provider_env \<Rightarrow> ProviderManager \<Rightarrow> registry \<Rightarrow> ProviderInfo list \<times> registry" where
  "detectLocalProviders env pm reg = (case probeOllama env (pm_ollamaURL pm) (pm_selfID pm) reg of
     (p, reg') \<Rightarrow> (found ([p, probeLMStudio env, probeVLLM env] @ map (probeCustom env) (pm_customURLs pm)), reg'))"

definition detectPeerProviders :: "provider_env \<Rightarrow> PeerInfo \<Rightarrow> registry \<Rightarrow> ProviderInfo list \<times> registry" where
  "detectPeerProviders env peer reg = (case pp_host env (pe_Endpoint peer) of
     None \<Rightarrow> ([], reg)
   | Some host \<Rightarrow>
       (case probeOllama env (''http://'' @ host @ '':11434'') (pe_ServerID peer) reg of
          (p, reg') \<Rightarrow> (found [p, probeLMStudioAt env (''http://'' @ host @ '':1234''), probeVLLMAt env (''http://'' @ host @ '':8000'')], reg')))"

section \<open>The cache of nodes\<close>

definition peer_node :: "provider_env \<Rightarrow> PeerInfo \<Rightarrow> registry \<Rightarrow> NodeInfo \<times> registry" where
  "peer_node env p reg = (case detectPeerProviders env p reg of (providers, reg') \<Rightarrow>
     (\<lparr>nd_ID = pe_ServerID p, nd_Endpoint = pe_Endpoint p, nd_IsSelf = False,
       nd_Alive = (pp_time env - trunc_float (pe_LastSeen p) * second < 30 * second), nd_Load = pe_Load p, nd_Clients = pe_Clients p,
       nd_Providers = providers\<rparr>, reg'))"

fun peer_nodes :: "provider_env \<Rightarrow> PeerInfo list \<Rightarrow> registry \<Rightarrow> NodeInfo list \<times> registry" where
  "peer_nodes env [] reg = ([], reg)"
| "peer_nodes env (p # ps) reg = (let (n, reg1) = peer_node env p reg; (ns, reg2) = peer_nodes env ps reg1 in (n # ns, reg2))"

definition provider_refresh :: "provider_env \<Rightarrow> PeerInfo list \<Rightarrow> ProviderManager \<times> registry \<Rightarrow> ProviderManager \<times> registry" where
  "provider_refresh env peers = (\<lambda>(pm, reg).
     let (selfProviders, reg1) = detectLocalProviders env pm reg;
         selfNode = \<lparr>nd_ID = pm_selfID pm, nd_Endpoint = ''http://localhost:'' @ dec_int (pm_selfPort pm), nd_IsSelf = True,
           nd_Alive = True, nd_Load = 0, nd_Clients = 0, nd_Providers = selfProviders\<rparr>;
         (nodes, reg2) = peer_nodes env peers reg1
     in (pm\<lparr>pm_lastRefresh := pp_time env, pm_nodesCache := selfNode # nodes\<rparr>, reg2))"

text \<open>The zero time is further back than any interval.\<close>

definition expired_nodes :: "gotime \<Rightarrow> ProviderManager \<Rightarrow> bool" where
  "expired_nodes t pm \<longleftrightarrow> pm_lastRefresh pm = 0 \<or> t - pm_lastRefresh pm > pm_interval pm"

definition GetNodes ::
  "provider_env \<Rightarrow> PeerInfo list \<Rightarrow> ProviderManager \<times> registry \<Rightarrow> NodeInfo list \<times> (ProviderManager \<times> registry)" where
  "GetNodes env peers st =
     (let st' = (if expired_nodes (pp_time env) (fst st) then provider_refresh env peers st else st)
      in (pm_nodesCache (fst st'), st'))"

definition node_models :: "NodeInfo list \<Rightarrow> ModelInfo list" where
  "node_models nodes = concat (map (\<lambda>n. concat (map pv_Models (nd_Providers n))) nodes)"

text \<open>The loops over nodes, providers and models with the keys seen so far.\<close>

definition model_key :: "ModelInfo \<Rightarrow> string" where
  "model_key m = mi_Provider m @ '':'' @ mi_Name m"

fun first_by_key :: "string set \<Rightarrow> ModelInfo list \<Rightarrow> ModelInfo list" where
  "first_by_key seen [] = []"
| "first_by_key seen (m # ms) =
     (if model_key m \<in> seen then first_by_key seen ms else m # first_by_key (insert (model_key m) seen) ms)"

definition GetAggregatedModels :: "provider_env \<Rightarrow> ProviderManager \<times> registry \<Rightarrow> ModelInfo list \<times> (ProviderManager \<times> registry)" where
  "GetAggregatedModels env st = (case GetNodes env [] st of (nodes, st') \<Rightarrow> (first_by_key {} (node_models nodes), st'))"

text \<open>\<open>ts\<close>: the order in which the set of types is visited.\<close>

definition provider_types :: "NodeInfo list \<Rightarrow> ProviderType set" where
  "provider_types nodes = set (concat (map (\<lambda>n. map pv_Type (nd_Providers n)) nodes))"

definition GetProviderTypes ::
  "provider_env \<Rightarrow> (ProviderType set \<Rightarrow> ProviderType list) \<Rightarrow> ProviderManager \<times> registry \<Rightarrow> ProviderType list \<times> (ProviderManager \<times> registry)" where
  "GetProviderTypes env ts st = (case GetNodes env [] st of (nodes, st') \<Rightarrow> (ts (provider_types nodes), st'))"

section \<open>The list of all models\<close>

lemma first_by_key_set:
  "distinct (map model_key (first_by_key seen ms))" "model_key ` set (first_by_key seen ms) = model_key ` set ms - seen"
  "set (first_by_key seen ms) \<subseteq> set ms"
  by (induction seen ms rule: first_by_key.induct) auto

text \<open>Every model a node shows carries the name of one of the provider types, none of which has a colon in it.\<close>

definition typed_provider :: "ProviderInfo \<Rightarrow> bool" where
  "typed_provider p \<longleftrightarrow> (\<forall>m \<in> set (pv_Models p). mi_Provider m \<in> range ProviderType_string)"

definition typed_nodes :: "NodeInfo list \<Rightarrow> bool" where
  "typed_nodes nodes \<longleftrightarrow> (\<forall>n \<in> set nodes. \<forall>p \<in> set (nd_Providers n). typed_provider p)"

lemma typed_nodes_models: "typed_nodes nodes \<Longrightarrow> m \<in> set (node_models nodes) \<Longrightarrow> \<exists>ty. mi_Provider m = ProviderType_string ty"
  by (fastforce simp: typed_nodes_def typed_provider_def node_models_def)

lemma found_set: "x \<in> set (found ps) \<longleftrightarrow> Some x \<in> set ps"
  by (auto simp: found_def split: option.splits)

lemma probe_typed:
  "probeOllama env u i reg = (Some p, reg') \<Longrightarrow> typed_provider p" "probeLMStudioAt env u = Some p \<Longrightarrow> typed_provider p"
  "probeVLLMAt env u = Some p \<Longrightarrow> typed_provider p" "probeCustom env u = Some p \<Longrightarrow> typed_provider p"
  by (auto simp: typed_provider_def probeOllama_def probeLMStudioAt_def probeVLLMAt_def probeCustom_def provider_found_def
      simp del: ProviderType_string.simps split: option.splits)

lemma detect_typed:
  "p \<in> set (fst (detectLocalProviders env pm reg)) \<Longrightarrow> typed_provider p"
  "p \<in> set (fst (detectPeerProviders env peer reg)) \<Longrightarrow> typed_provider p"
  by (auto simp: detectLocalProviders_def detectPeerProviders_def found_set probeLMStudio_def probeVLLM_def split: prod.splits option.splits
      dest: probe_typed probe_typed(2-) [OF sym] probe_typed(2-4))

lemma peer_node_typed: "typed_nodes [fst (peer_node env p reg)]"
  using detect_typed(2) [of _ env p reg] by (simp add: typed_nodes_def peer_node_def case_prod_unfold)

lemma peer_nodes_typed: "typed_nodes (fst (peer_nodes env ps reg))"
proof (induction ps arbitrary: reg)
  case (Cons p ps)
  then show ?case using peer_node_typed [of env p reg] by (simp add: case_prod_unfold Let_def typed_nodes_def)
qed (simp add: typed_nodes_def)

inductive provider_step :: "ProviderManager \<times> registry \<Rightarrow> ProviderManager \<times> registry \<Rightarrow> bool" where
  nodes: "provider_step st (snd (GetNodes env peers st))"
| models: "provider_step st (snd (GetAggregatedModels env st))"
| types: "provider_step st (snd (GetProviderTypes env ts st))"
| registry: "provider_step (pm, reg) (pm, reg')"

lemma refresh_typed: "typed_nodes (pm_nodesCache (fst (provider_refresh env peers st)))"
  using peer_nodes_typed [of env peers] detect_typed(1) [of _ env "fst st" "snd st"]
  by (simp add: provider_refresh_def case_prod_unfold Let_def typed_nodes_def)

lemma GetNodes_typed:
  "typed_nodes (pm_nodesCache (fst st)) \<Longrightarrow> typed_nodes (pm_nodesCache (fst (snd (GetNodes env peers st))))"
  by (simp add: GetNodes_def Let_def refresh_typed)

interpretation provider_cache: invariant_system provider_step "\<lambda>st. typed_nodes (pm_nodesCache (fst st))"
proof
  show "typed_nodes (pm_nodesCache (fst t))" if "provider_step s t" "typed_nodes (pm_nodesCache (fst s))" for s t
    using that by (induction rule: provider_step.induct)
      (auto simp: GetAggregatedModels_def GetProviderTypes_def case_prod_unfold GetNodes_typed)
qed

lemma no_colon: "CHR '':'' \<notin> set (ProviderType_string ty)"
  by (cases ty) simp_all

lemma model_key_inj: "model_key m = model_key m' \<Longrightarrow> mi_Provider m = ProviderType_string ty \<Longrightarrow> mi_Provider m' = ProviderType_string ty' \<Longrightarrow>
   mi_Provider m = mi_Provider m' \<and> mi_Name m = mi_Name m'"
proof -
  assume a: "model_key m = model_key m'" "mi_Provider m = ProviderType_string ty" "mi_Provider m' = ProviderType_string ty'"
  have *: "takeWhile (\<lambda>c. c \<noteq> CHR '':'') (p @ '':'' @ n) = p" if "CHR '':'' \<notin> set p" for p n :: string
    using that by (induction p) auto
  have "mi_Provider m = mi_Provider m'"
    using * [of "mi_Provider m" "mi_Name m"] * [of "mi_Provider m'" "mi_Name m'"] a no_colon by (metis model_key_def)
  with a(1) show ?thesis by (simp add: model_key_def)
qed

text \<open>
  The list of all models, in every state of the manager: it names every provider and model of the cached nodes, each pair once,
  and nothing else.
\<close>

theorem aggregated_models:
  assumes "provider_step\<^sup>*\<^sup>* (NewProviderManager selfID port url custom, reg) st" "GetAggregatedModels env st = (ms, st')"
  shows "distinct (map (\<lambda>m. (mi_Provider m, mi_Name m)) ms) \<and>
    (\<lambda>m. (mi_Provider m, mi_Name m)) ` set ms = (\<lambda>m. (mi_Provider m, mi_Name m)) ` set (node_models (pm_nodesCache (fst st')))"
proof -
  let ?all = "node_models (pm_nodesCache (fst st'))" let ?pair = "\<lambda>m. (mi_Provider m, mi_Name m)"
  have "typed_nodes (pm_nodesCache (fst (NewProviderManager selfID port url custom, reg)))"
    by (simp add: NewProviderManager_def typed_nodes_def)
  with assms(1) have "typed_nodes (pm_nodesCache (fst st))" by (rule provider_cache.invar_reach)
  moreover have st': "st' = snd (GetNodes env [] st)" "ms = first_by_key {} ?all"
    using assms(2) by (auto simp: GetAggregatedModels_def GetNodes_def Let_def)
  ultimately have typed: "typed_nodes (pm_nodesCache (fst st'))" by (simp add: GetNodes_typed)
  have key: "model_key m = model_key m' \<longleftrightarrow> ?pair m = ?pair m'" if "m \<in> set ?all" "m' \<in> set ?all" for m m'
    using typed_nodes_models [OF typed that(1)] typed_nodes_models [OF typed that(2)] model_key_inj [of m m'] by (auto simp: model_key_def)
  note F = first_by_key_set [of "{}" ?all, folded st'(2)]
  have "inj_on ?pair (set ms)" "distinct ms" using F(1,3) key by (simp_all add: distinct_map inj_on_def) blast+
  moreover have "?pair m \<in> ?pair ` set ms" if "m \<in> set ?all" for m
  proof -
    have "model_key m \<in> model_key ` set ms" unfolding F(2) using that by simp
    then obtain m' where m': "m' \<in> set ms" "model_key m = model_key m'" by blast
    then have "?pair m = ?pair m'" using key [OF that, of m'] F(3) by blast
    then show ?thesis using m'(1) by (rule image_eqI)
  qed
  ultimately show ?thesis using F(3) by (force simp: distinct_map)
qed

text \<open>
  Asking for the list of models, or of provider types, is not just reading: when the cache is 30 seconds old the manager looks at its
  own node only, so the peers are gone from the cache, and asking for the nodes with the peers does not bring
  them back for another 30 seconds.
\<close>

theorem listing_forgets_peers:
  assumes "expired_nodes (pp_time env) (fst st)" "pm_interval (fst st) = 30 * second" "0 < pp_time env"
    and st': "st' = snd (GetAggregatedModels env st)" and t: "pp_time env' - pp_time env \<le> 30 * second"
  shows "(\<exists>self. fst (GetNodes env' peers st') = [self] \<and> nd_IsSelf self) \<and> snd (GetNodes env' peers st') = st'"
proof -
  have *: "st' = provider_refresh env [] st" using assms(1) by (simp add: st' GetAggregatedModels_def GetNodes_def case_prod_unfold Let_def)
  obtain pm reg where st: "st = (pm, reg)" by fastforce
  obtain self reg1 where r: "st' = (pm\<lparr>pm_lastRefresh := pp_time env, pm_nodesCache := [self]\<rparr>, reg1)" "nd_IsSelf self"
    by (simp add: * st provider_refresh_def case_prod_unfold Let_def)
  have "\<not> expired_nodes (pp_time env') (fst st')" using assms(2,3) t st by (simp add: r expired_nodes_def)
  then show ?thesis using r by (simp add: GetNodes_def)
qed

section \<open>Models of peers\<close>

lemma RegisterLocalModel_loaded:
  "IsLoadedLocally name (RegisterLocalModel server now name pr ep sz ctx mr)"
  "IsLoadedLocally i mr \<Longrightarrow> IsLoadedLocally i (RegisterLocalModel server now name pr ep sz ctx mr)"
  using RegisterLocalModel_frame(1) [of server now name pr ep sz ctx mr] by (auto simp: IsLoadedLocally_def)

text \<open>No probe takes a model out of the registry, and what an Ollama lists is in it afterwards.\<close>

definition has_loaded :: "string \<Rightarrow> registry \<Rightarrow> bool" where
  "has_loaded i reg \<longleftrightarrow> (case reg of None \<Rightarrow> False | Some mr \<Rightarrow> IsLoadedLocally i mr)"

lemma register_found_Cons:
  "register_found env u ((i, sz) # ms) reg = register_found env u ms
     (map_option (RegisterLocalModel (pp_server env) (pp_time env) i (ProviderType_string ProviderOllama) u sz 0) reg)"
  by (cases reg) (simp_all add: register_found_def)

lemma register_found_keeps: "has_loaded i reg \<Longrightarrow> has_loaded i (register_found env u ms reg)"
proof (induction ms arbitrary: reg)
  case (Cons x ms)
  then show ?case by (cases x; cases reg) (simp_all add: register_found_Cons has_loaded_def RegisterLocalModel_loaded)
qed (simp add: register_found_def map_option.identity [unfolded id_def])

lemma register_found_loaded: "reg \<noteq> None \<Longrightarrow> i \<in> fst ` set ms \<Longrightarrow> has_loaded i (register_found env u ms reg)"
proof (induction ms arbitrary: reg)
  case (Cons x ms)
  obtain j sz where x: "x = (j, sz)" by fastforce
  let ?reg = "map_option (RegisterLocalModel (pp_server env) (pp_time env) j (ProviderType_string ProviderOllama) u sz 0) reg"
  show ?case
  proof (cases "i = j")
    case True
    then have "has_loaded i ?reg" using Cons.prems(1) by (auto simp: has_loaded_def RegisterLocalModel_loaded)
    then show ?thesis by (simp add: x register_found_Cons register_found_keeps)
  next
    case False
    then show ?thesis using Cons.IH [of ?reg] Cons.prems x by (simp add: register_found_Cons)
  qed
qed simp

lemma register_found_some: "reg \<noteq> None \<Longrightarrow> register_found env u ms reg \<noteq> None"
  by (auto simp: register_found_def)

lemma probeOllama_keeps:
  "has_loaded i reg \<Longrightarrow> has_loaded i (snd (probeOllama env u n reg))" "reg \<noteq> None \<Longrightarrow> snd (probeOllama env u n reg) \<noteq> None"
  using register_found_some [of reg env u] by (auto simp: probeOllama_def register_found_keeps split: option.splits)

lemma peer_node_registry: "snd (peer_node env p reg) = (case pp_host env (pe_Endpoint p) of
    None \<Rightarrow> reg | Some host \<Rightarrow> snd (probeOllama env (''http://'' @ host @ '':11434'') (pe_ServerID p) reg))"
  by (simp add: peer_node_def detectPeerProviders_def case_prod_unfold split: option.splits)

lemma peer_node_keeps:
  "has_loaded i reg \<Longrightarrow> has_loaded i (snd (peer_node env p reg))" "reg \<noteq> None \<Longrightarrow> snd (peer_node env p reg) \<noteq> None"
  by (simp_all add: peer_node_registry probeOllama_keeps split: option.splits) (metis not_Some_eq probeOllama_keeps(2))

lemma peer_nodes_keeps: "has_loaded i reg \<Longrightarrow> has_loaded i (snd (peer_nodes env ps reg))"
  by (induction ps arbitrary: reg) (simp_all add: case_prod_unfold Let_def peer_node_keeps)

lemma peer_nodes_loaded:
  assumes "p \<in> set ps" "reg \<noteq> None" "pp_host env (pe_Endpoint p) = Some host"
    "pp_tags env (''http://'' @ host @ '':11434'') = Some ms" "i \<in> fst ` set ms"
  shows "has_loaded i (snd (peer_nodes env ps reg))"
  using assms
proof (induction ps arbitrary: reg)
  case (Cons q ps)
  show ?case
  proof (cases "p = q")
    case True
    then have "has_loaded i (snd (peer_node env q reg))"
      using Cons.prems register_found_loaded [OF Cons.prems(2,5)] by (simp add: peer_node_registry probeOllama_def)
    then show ?thesis by (simp add: case_prod_unfold Let_def peer_nodes_keeps)
  next
    case False
    then show ?thesis using Cons.IH [OF _ peer_node_keeps(2)] Cons.prems by (simp add: case_prod_unfold Let_def)
  qed
qed simp

lemma refresh_loads_peer_models:
  assumes "p \<in> set peers" "reg \<noteq> None" "pp_host env (pe_Endpoint p) = Some host"
    "pp_tags env (''http://'' @ host @ '':11434'') = Some ms" "i \<in> fst ` set ms"
  shows "has_loaded i (snd (provider_refresh env peers (pm, reg)))"
proof -
  have "snd (detectLocalProviders env pm reg) \<noteq> None"
    using probeOllama_keeps(2) [OF assms(2)] by (simp add: detectLocalProviders_def case_prod_unfold)
  from peer_nodes_loaded [OF assms(1) this assms(3-5)] show ?thesis
    by (simp add: provider_refresh_def case_prod_unfold Let_def)
qed

section \<open>Witnesses\<close>

definition sample_penv :: "gotime \<Rightarrow> provider_env" where
  "sample_penv t = \<lparr>pp_time = t, pp_server = ''s'', pp_tags = (\<lambda>u. if u = ''http://localhost:11434'' then Some [(''llama3'', 5), (''llama3'', 5)] else None),
     pp_v1 = \<lambda>u. None, pp_host = \<lambda>u. Some ''peer'', pp_f1 = \<lambda>x. ''0.0''\<rparr>"

definition sample_pm :: ProviderManager where
  "sample_pm = NewProviderManager ''s'' 8081 ''http://localhost:11434'' []"

lemma sample_models:
  "set (node_models (pm_nodesCache (fst (snd (GetAggregatedModels (sample_penv 1) (sample_pm, None))))))
     = {\<lparr>mi_Name = ''llama3'', mi_Provider = ''ollama'', mi_NodeID = ''s'', mi_SizeGB = ''0.0''\<rparr>}"
  by (simp add: GetAggregatedModels_def GetNodes_def expired_nodes_def sample_pm_def NewProviderManager_def provider_refresh_def
      detectLocalProviders_def probeOllama_def sample_penv_def register_found_def found_def probeLMStudio_def probeLMStudioAt_def
      probeVLLM_def probeVLLMAt_def probeOpenAICompatible_def node_models_def case_prod_unfold Let_def)

theorem aggregated_models_witness:
  "distinct (map (\<lambda>m. (mi_Provider m, mi_Name m)) (fst (GetAggregatedModels (sample_penv 1) (sample_pm, None)))) \<and>
   (\<lambda>m. (mi_Provider m, mi_Name m)) ` set (fst (GetAggregatedModels (sample_penv 1) (sample_pm, None))) = {(''ollama'', ''llama3'')}"
proof -
  have "provider_step\<^sup>*\<^sup>* (sample_pm, None) (sample_pm, None)" ..
  from aggregated_models [OF this [unfolded sample_pm_def] prod.collapse [symmetric], of "sample_penv 1", folded sample_pm_def]
  show ?thesis using sample_models by simp
qed

theorem listing_forgets_peers_witness:
  "\<exists>self. fst (GetNodes (sample_penv 2) [sample_peer ''p'' 0] (snd (GetAggregatedModels (sample_penv 1) (sample_pm, None)))) = [self]"
  using listing_forgets_peers [of "sample_penv 1" "(sample_pm, None)" _ "sample_penv 2" "[sample_peer ''p'' 0]", OF _ _ _ refl]
  by (auto simp: expired_nodes_def sample_pm_def NewProviderManager_def sample_penv_def)

end
