(* ===== verification/Hive_Server.thy ===== *)
theory Hive_Server
  imports Coding_Agent Telemetry Provider
begin

text \<open>
  The HTTP side of the hive server (\<^verbatim>\<open>hive-server-go/handlers.go\<close>): the table of clients, and the handlers over the queue, the
  mesh, the usage table, the log and the coding agent. The theory shows that the table of clients never exceeds its
  limit and refuses exactly a new client when it is full, what submitting a job does in each case, that a job
  forwarded to a peer is the same job there and goes no further, and that the histogram endpoint never panics.

  A handler answers with an error text and a status, or with a value that is written as JSON. Of a request the handlers see the
  method, the path, the query parameters (an absent one is empty, as \<^verbatim>\<open>Get\<close> returns it) and the body, which is an argument: what
  \<^verbatim>\<open>encoding/json\<close> decodes it to, \<open>None\<close> when that fails.

  The server keeps its queue in a field declared as \<^verbatim>\<open>PriorityQueue\<close>, but every method the handlers call on it is a method
  of \<^verbatim>\<open>OllamaQueue\<close>; the model has the latter. A handler that waits (for a peer, or for a job) is split where it waits.
\<close>

section \<open>Clients\<close>

type_synonym client_addr = nat

record ClientInfo =
  ci_ClientID :: string
  ci_Name :: string
  ci_ConnectedAt :: real
  ci_LastHeartbeat :: real
  ci_JobsSubmitted :: int
  ci_JobsCompleted :: int

text \<open>The clients are shared by pointer: \<open>cl_heap\<close> holds them, \<open>cl_next\<close> is an address none of them has.\<close>

record ClientManager =
  cl_clients :: "string \<rightharpoonup> client_addr"
  cl_maxClients :: int
  cl_heap :: "client_addr \<Rightarrow> ClientInfo"
  cl_next :: client_addr

definition NewClientManager :: "int \<Rightarrow> (client_addr \<Rightarrow> ClientInfo) \<Rightarrow> ClientManager" where
  "NewClientManager maxClients h = \<lparr>cl_clients = Map.empty, cl_maxClients = maxClients, cl_heap = h, cl_next = 0\<rparr>"

definition upd_client :: "client_addr \<Rightarrow> (ClientInfo \<Rightarrow> ClientInfo) \<Rightarrow> ClientManager \<Rightarrow> ClientManager" where
  "upd_client a f cm = cm\<lparr>cl_heap := (cl_heap cm)(a := f (cl_heap cm a))\<rparr>"

definition Count :: "ClientManager \<Rightarrow> int" where
  "Count cm = int (card (dom (cl_clients cm)))"

definition Register :: "gotime \<Rightarrow> string \<Rightarrow> string \<Rightarrow> ClientManager \<Rightarrow> (string + client_addr) \<times> ClientManager" where
  "Register t clientID name cm =
     (if Count cm \<ge> cl_maxClients cm \<and> cl_clients cm clientID = None
      then (Inl (''max clients ('' @ dec_int (cl_maxClients cm) @ '') reached''), cm)
      else case cl_clients cm clientID of
          Some a \<Rightarrow> (Inr a, upd_client a (\<lambda>c. c\<lparr>ci_LastHeartbeat := now_seconds t, ci_Name := (if name \<noteq> [] then name else ci_Name c)\<rparr>) cm)
        | None \<Rightarrow>
            let client = \<lparr>ci_ClientID = clientID, ci_Name = name, ci_ConnectedAt = now_seconds t, ci_LastHeartbeat = now_seconds t,
                  ci_JobsSubmitted = 0, ci_JobsCompleted = 0\<rparr>
            in (Inr (cl_next cm), cm\<lparr>cl_clients := (cl_clients cm)(clientID \<mapsto> cl_next cm),
                 cl_heap := (cl_heap cm)(cl_next cm := client), cl_next := cl_next cm + 1\<rparr>))"

definition Unregister :: "string \<Rightarrow> ClientManager \<Rightarrow> ClientManager" where
  "Unregister clientID cm = cm\<lparr>cl_clients := (cl_clients cm)(clientID := None)\<rparr>"

definition on_client :: "string \<Rightarrow> (ClientInfo \<Rightarrow> ClientInfo) \<Rightarrow> ClientManager \<Rightarrow> ClientManager" where
  "on_client clientID f cm = (case cl_clients cm clientID of Some a \<Rightarrow> upd_client a f cm | None \<Rightarrow> cm)"

definition Heartbeat :: "gotime \<Rightarrow> string \<Rightarrow> ClientManager \<Rightarrow> ClientManager" where
  "Heartbeat t clientID = on_client clientID (\<lambda>c. c\<lparr>ci_LastHeartbeat := now_seconds t\<rparr>)"

definition count_submitted :: "ClientInfo \<Rightarrow> ClientInfo" where
  "count_submitted c = c\<lparr>ci_JobsSubmitted := ci_JobsSubmitted c + 1\<rparr>"

definition IncrementSubmitted :: "string \<Rightarrow> ClientManager \<Rightarrow> ClientManager" where
  "IncrementSubmitted clientID = on_client clientID count_submitted"

definition IncrementCompleted :: "string \<Rightarrow> ClientManager \<Rightarrow> ClientManager" where
  "IncrementCompleted clientID = on_client clientID (\<lambda>c. c\<lparr>ci_JobsCompleted := ci_JobsCompleted c + 1\<rparr>)"

text \<open>\<open>ks\<close>: the order in which the table is visited.\<close>

definition GetAll :: "string list \<Rightarrow> ClientManager \<Rightarrow> ClientInfo list" where
  "GetAll ks cm = map (\<lambda>k. cl_heap cm (the (cl_clients cm k))) ks"

text \<open>One tick of \<^verbatim>\<open>heartbeatCheckLoop\<close>.\<close>

definition stale_client :: "ClientManager \<Rightarrow> gotime \<Rightarrow> client_addr \<Rightarrow> bool" where
  "stale_client cm t a \<longleftrightarrow> ci_LastHeartbeat (cl_heap cm a) < now_seconds t - 120"

definition heartbeatCheck :: "gotime \<Rightarrow> string list \<Rightarrow> ClientManager \<Rightarrow> ClientManager" where
  "heartbeatCheck t ks cm = cm\<lparr>cl_clients := sweep (stale_client cm t) ks (cl_clients cm)\<rparr>"

interpretation client_table: map_sweeper cl_clients heartbeatCheck stale_client
proof
  fix t t' :: gotime and ks and cm :: ClientManager and a
  show "cl_clients (heartbeatCheck t ks cm) = sweep (stale_client cm t) ks (cl_clients cm)" by (simp add: heartbeatCheck_def)
  show "stale_client (heartbeatCheck t ks cm) = stale_client cm" by (simp add: heartbeatCheck_def stale_client_def fun_eq_iff)
  show "stale_client cm t' a" if "stale_client cm t a" "t \<le> t'"
    using that now_seconds_mono [of t t'] by (simp add: stale_client_def)
qed

subsection \<open>The limit\<close>

inductive client_step :: "ClientManager \<Rightarrow> ClientManager \<Rightarrow> bool" where
  register: "Register t i name cm = (r, cm') \<Longrightarrow> client_step cm cm'"
| unregister: "client_step cm (Unregister i cm)"
| heartbeat: "client_step cm (Heartbeat t i cm)"
| submitted: "client_step cm (IncrementSubmitted i cm)"
| counted: "client_step cm (upd_client a count_submitted cm)"
| completed: "client_step cm (IncrementCompleted i cm)"
| sweep: "client_step cm (heartbeatCheck t ks cm)"

definition clients_ok :: "int \<Rightarrow> ClientManager \<Rightarrow> bool" where
  "clients_ok n cm \<longleftrightarrow> cl_maxClients cm = n \<and> finite (dom (cl_clients cm)) \<and> Count cm \<le> max 0 n \<and>
     (\<forall>i a. cl_clients cm i = Some a \<longrightarrow> a < cl_next cm \<and> ci_ClientID (cl_heap cm a) = i)"

lemma clients_ok_shrink:
  assumes "clients_ok n cm" "cl_clients cm' \<subseteq>\<^sub>m cl_clients cm" "cl_maxClients cm' = cl_maxClients cm" "cl_next cm' = cl_next cm"
    and "\<And>a. ci_ClientID (cl_heap cm' a) = ci_ClientID (cl_heap cm a)"
  shows "clients_ok n cm'"
proof -
  have d: "dom (cl_clients cm') \<subseteq> dom (cl_clients cm)" by (rule map_le_implies_dom_le [OF assms(2)])
  then have "finite (dom (cl_clients cm'))" "Count cm' \<le> Count cm"
    using assms(1) card_mono [OF _ d] by (auto simp: clients_ok_def Count_def intro: finite_subset)
  moreover have "cl_clients cm i = Some a" if "cl_clients cm' i = Some a" for i a
    using assms(2) that by (metis domI map_le_def)
  ultimately show ?thesis using assms(1,3-5) unfolding clients_ok_def by (metis order.trans)
qed

lemma on_client_ok:
  assumes "clients_ok n cm" "\<And>c. ci_ClientID (f c) = ci_ClientID c"
  shows "clients_ok n (on_client i f cm)" "clients_ok n (upd_client a f cm)"
  by (rule clients_ok_shrink [OF assms(1)]; simp add: on_client_def upd_client_def assms(2) split: option.splits)+

lemma Register_ok:
  assumes ok: "clients_ok n cm" and r: "Register t i name cm = (r, cm')"
  shows "clients_ok n cm'"
proof (cases "cl_clients cm i")
  case (Some a)
  then have "cm' = upd_client a (\<lambda>c. c\<lparr>ci_LastHeartbeat := now_seconds t, ci_Name := (if name \<noteq> [] then name else ci_Name c)\<rparr>) cm"
    using r by (simp add: Register_def)
  then show ?thesis using on_client_ok(2) [OF ok] by simp
next
  case None
  show ?thesis
  proof (cases "Count cm \<ge> cl_maxClients cm")
    case True
    then show ?thesis using r None ok by (simp add: Register_def)
  next
    case False
    then have cm': "cl_clients cm' = (cl_clients cm)(i \<mapsto> cl_next cm)" "cl_next cm' = cl_next cm + 1" "cl_maxClients cm' = cl_maxClients cm"
      "ci_ClientID (cl_heap cm' (cl_next cm)) = i" "\<And>a. a \<noteq> cl_next cm \<Longrightarrow> cl_heap cm' a = cl_heap cm a"
      using r None by (auto simp: Register_def Let_def)
    have fin: "finite (dom (cl_clients cm))" using ok by (simp add: clients_ok_def)
    have "Count cm' = Count cm + 1" using fin None by (simp add: Count_def cm'(1) domIff)
    moreover have "a < cl_next cm' \<and> ci_ClientID (cl_heap cm' a) = j" if "cl_clients cm' j = Some a" for j a
    proof (cases "j = i")
      case False
      then have "a < cl_next cm" "ci_ClientID (cl_heap cm a) = j" using that ok by (auto simp: clients_ok_def cm'(1))
      then show ?thesis using cm'(2,5) by simp
    qed (use that cm' in simp)
    ultimately show ?thesis using ok False fin cm'(1,3) by (simp add: clients_ok_def)
  qed
qed

lemma client_step_ok: "client_step cm cm' \<Longrightarrow> clients_ok n cm \<Longrightarrow> clients_ok n cm'"
proof (induction rule: client_step.induct)
  case (unregister cm i)
  then show ?case by (rule clients_ok_shrink) (auto simp: Unregister_def map_le_def)
next
  case (sweep cm t ks)
  then show ?case
    by (rule clients_ok_shrink) (auto simp: heartbeatCheck_def map_le_def sweep_apply split: option.splits if_splits)
qed (auto simp: Heartbeat_def IncrementSubmitted_def IncrementCompleted_def count_submitted_def
    intro: Register_ok on_client_ok)

interpretation client_limits: invariant_system client_step "clients_ok n" for n
  by unfold_locales (rule client_step_ok)

text \<open>
  C33. The table of clients, in every state the server reaches: it never holds more clients than configured. Registering is refused
  exactly to a client that is not in a full table, with the text that names the limit; a client in the table is never refused, and an
  accepted client is in the table, with the given name and the time of the call as its last sign of life.
\<close>

theorem client_limit:
  assumes "client_step\<^sup>*\<^sup>* (NewClientManager n h) cm"
  shows "Count cm \<le> max 0 n \<and>
    (\<forall>t i name. name \<noteq> [] \<longrightarrow> (case Register t i name cm of
       (Inl e, cm') \<Rightarrow> cm' = cm \<and> cl_clients cm i = None \<and> n \<le> Count cm \<and> e = ''max clients ('' @ dec_int n @ '') reached''
     | (Inr a, cm') \<Rightarrow> (cl_clients cm i \<noteq> None \<or> Count cm < n) \<and> cl_clients cm' i = Some a \<and> Count cm' \<le> max 0 n \<and>
         ci_ClientID (cl_heap cm' a) = i \<and> ci_Name (cl_heap cm' a) = name \<and> ci_LastHeartbeat (cl_heap cm' a) = now_seconds t))"
proof -
  have "clients_ok n (NewClientManager n h)" by (simp add: clients_ok_def NewClientManager_def Count_def)
  with assms have ok: "clients_ok n cm" by (rule client_limits.invar_reach)
  have "case Register t i name cm of
       (Inl e, cm') \<Rightarrow> cm' = cm \<and> cl_clients cm i = None \<and> n \<le> Count cm \<and> e = ''max clients ('' @ dec_int n @ '') reached''
     | (Inr a, cm') \<Rightarrow> (cl_clients cm i \<noteq> None \<or> Count cm < n) \<and> cl_clients cm' i = Some a \<and> Count cm' \<le> max 0 n \<and>
         ci_ClientID (cl_heap cm' a) = i \<and> ci_Name (cl_heap cm' a) = name \<and> ci_LastHeartbeat (cl_heap cm' a) = now_seconds t"
    if "name \<noteq> []" for t i name
  proof -
    obtain r cm' where R: "Register t i name cm = (r, cm')" by fastforce
    note ok' = Register_ok [OF ok R]
    show ?thesis
    proof (cases r)
      case (Inl e)
      then show ?thesis using R ok by (auto simp: Register_def clients_ok_def Let_def split: if_splits option.splits)
    next
      case (Inr a)
      then have a: "cl_clients cm' i = Some a" "cl_clients cm i \<noteq> None \<or> Count cm < n" "ci_Name (cl_heap cm' a) = name"
        "ci_LastHeartbeat (cl_heap cm' a) = now_seconds t"
        using R ok that by (auto simp: Register_def clients_ok_def Let_def upd_client_def split: if_splits option.splits)
      then show ?thesis using ok' by (simp add: R Inr clients_ok_def)
    qed
  qed
  then show ?thesis using ok by (simp add: clients_ok_def)
qed

definition sample_client :: ClientInfo where
  "sample_client = \<lparr>ci_ClientID = [], ci_Name = [], ci_ConnectedAt = 0, ci_LastHeartbeat = 0, ci_JobsSubmitted = 0, ci_JobsCompleted = 0\<rparr>"

theorem client_limit_witness:
  "fst (Register 0 ''b'' ''B'' (snd (Register 0 ''a'' ''A'' (NewClientManager 1 (\<lambda>a. sample_client)))))
     = Inl (''max clients ('' @ dec_int 1 @ '') reached'')"
proof -
  let ?cm = "snd (Register 0 ''a'' ''A'' (NewClientManager 1 (\<lambda>a. sample_client)))"
  have "client_step (NewClientManager 1 (\<lambda>a. sample_client)) ?cm" by (rule client_step.register [OF prod.collapse [symmetric]])
  then have "client_step\<^sup>*\<^sup>* (NewClientManager 1 (\<lambda>a. sample_client)) ?cm" ..
  note L = client_limit [OF this]
  have full: "Count ?cm = 1" "cl_clients ?cm ''b'' = None" by (simp_all add: Register_def NewClientManager_def Count_def Let_def)
  obtain r cm' where R: "Register 0 ''b'' ''B'' ?cm = (r, cm')" by fastforce
  then have "case r of Inl e \<Rightarrow> e = ''max clients ('' @ dec_int 1 @ '') reached'' | Inr a \<Rightarrow> False"
    using L [THEN conjunct2, THEN spec [of _ 0], THEN spec [of _ "''b''"], THEN spec [of _ "''B''"]] full by (auto split: sum.splits)
  then show ?thesis using R by (auto split: sum.splits)
qed

text \<open>A tick of the heartbeat check removes exactly the clients not heard of for more than two minutes.\<close>

lemma heartbeatCheck_exact:
  "ranges ks (cl_clients cm) \<Longrightarrow> cl_clients (heartbeatCheck t ks cm) i = Some a \<longleftrightarrow>
     cl_clients cm i = Some a \<and> now_seconds t - 120 \<le> ci_LastHeartbeat (cl_heap cm a)"
  by (simp add: client_table.tick_exact stale_client_def not_less)

section \<open>The server\<close>

record ServerConfig =
  sc_OllamaURL :: string
  sc_OllamaModel :: string
  sc_ServerPort :: int
  sc_MaxConcurrent :: int
  sc_MeshEnabled :: bool
  sc_MaxClients :: int
  sc_CustomProviderURLs :: "string list"

text \<open>The fields of the server the handlers use. The registry of models is shared with the provider manager.\<close>

record HiveServer =
  hs_queue :: OllamaQueue
  hs_mesh :: "MeshDiscovery option"
  hs_clients :: ClientManager
  hs_cfg :: ServerConfig
  hs_provider :: ProviderManager
  hs_codingAgent :: "CodingAgentManager option"
  hs_modelRegistry :: ModelRegistry

datatype 'a hive_reply = ReplyError int string | ReplyJSON 'a

text \<open>Environment variables are read by \<open>getenv\<close> (empty when unset); \<open>scan\<close> is \<^verbatim>\<open>Sscanf\<close> with \<^verbatim>\<open>%d\<close>, \<open>None\<close> when it fails.\<close>

definition getServerID :: "(string \<Rightarrow> string) \<Rightarrow> string \<Rightarrow> string" where
  "getServerID getenv hostname = (let i = getenv ''SERVER_ID'' in if i \<noteq> [] then i else ''hive-'' @ hostname)"

definition getEnvInt :: "(string \<Rightarrow> int option) \<Rightarrow> (string \<Rightarrow> string) \<Rightarrow> string \<Rightarrow> int \<Rightarrow> int" where
  "getEnvInt scan getenv key def =
     (let val = getenv key in if val = [] then def else case scan val of None \<Rightarrow> def | Some n \<Rightarrow> n)"

text \<open>The parts of \<^verbatim>\<open>NewHiveServer\<close> that make the mesh and the coding agent. The agent is given no queue, so with a database
  the server panics while it starts (\<open>None\<close>); without one it has no agent.\<close>

definition server_mesh ::
  "(string \<Rightarrow> string option) \<Rightarrow> (string \<Rightarrow> int option) \<Rightarrow> (string \<Rightarrow> string) \<Rightarrow> string \<Rightarrow> net_iface list option \<Rightarrow> ServerConfig
     \<Rightarrow> MeshDiscovery option" where
  "server_mesh host scan getenv hostname ifaces cfg =
     (if sc_MeshEnabled cfg
      then Some (NewMeshDiscovery host (getenv ''MESH_ANNOUNCE_ADDRESS'') (getenv ''MESH_MODEL_MAP'') ifaces (getServerID getenv hostname)
        (sc_ServerPort cfg) (getEnvInt scan getenv ''MESH_DISCOVERY_PORT'' 8082) (sc_MaxConcurrent cfg) (sc_OllamaModel cfg))
      else None)"

definition server_agent ::
  "AgentDB option \<Rightarrow> MeshDiscovery option \<Rightarrow> string \<Rightarrow> (session_addr \<Rightarrow> CodingAgentSession) \<Rightarrow> CodingAgentManager option option" where
  "server_agent defaultDB mesh serverID h = (case defaultDB of
     None \<Rightarrow> Some None
   | Some db \<Rightarrow> map_option Some (NewCodingAgentManager db None mesh serverID h))"

lemma server_agent_never: "server_agent db mesh i h = Some (Some cam) \<longleftrightarrow> False"
  by (simp add: server_agent_def NewCodingAgentManager_def split: option.splits)

text \<open>
  The server; \<open>q\<close> is its queue. The cache, the breakers and the metrics it also makes are kept by other parts (\<open>server_cache_config\<close>,
  \<open>server_breaker_config\<close> in \<open>Hive_Lifecycle\<close>) and no handler uses them.
\<close>

definition NewHiveServer ::
  "(string \<Rightarrow> string option) \<Rightarrow> (string \<Rightarrow> int option) \<Rightarrow> (string \<Rightarrow> string) \<Rightarrow> string \<Rightarrow> net_iface list option \<Rightarrow> AgentDB option
     \<Rightarrow> (session_addr \<Rightarrow> CodingAgentSession) \<Rightarrow> (client_addr \<Rightarrow> ClientInfo) \<Rightarrow> OllamaQueue \<Rightarrow> ServerConfig \<Rightarrow> HiveServer option" where
  "NewHiveServer host scan getenv hostname ifaces defaultDB hss hcl q cfg =
     (let serverID = getServerID getenv hostname;
          mesh = server_mesh host scan getenv hostname ifaces cfg
      in map_option (\<lambda>cam. \<lparr>hs_queue = q, hs_mesh = mesh, hs_clients = NewClientManager (sc_MaxClients cfg) hcl, hs_cfg = cfg,
           hs_provider = NewProviderManager serverID (sc_ServerPort cfg) (sc_OllamaURL cfg) (sc_CustomProviderURLs cfg),
           hs_codingAgent = cam, hs_modelRegistry = NewModelRegistry\<rparr>) (server_agent defaultDB mesh serverID hss))"

text \<open>With a database there is no server; without one it has no agent, and its mesh and its provider cache go by the same ID.\<close>

lemma NewHiveServer_None: "NewHiveServer host scan getenv hostname ifaces defaultDB hss hcl q cfg = None \<longleftrightarrow> defaultDB \<noteq> None"
  by (simp add: NewHiveServer_def server_agent_def NewCodingAgentManager_def Let_def split: option.split)

lemma NewHiveServer_Some:
  assumes "NewHiveServer host scan getenv hostname ifaces defaultDB hss hcl q cfg = Some hs"
  shows "hs_codingAgent hs = None \<and> Count (hs_clients hs) = 0 \<and> (hs_mesh hs \<noteq> None \<longleftrightarrow> sc_MeshEnabled cfg) \<and>
    (\<forall>m. hs_mesh hs = Some m \<longrightarrow> ms_serverID m = pm_selfID (hs_provider hs) \<and> ms_peers m = Map.empty)"
  using assms
  by (auto simp: NewHiveServer_def server_agent_def NewCodingAgentManager_def server_mesh_def NewMeshDiscovery_def NewProviderManager_def
      NewClientManager_def Count_def Let_def split: option.splits if_splits)

section \<open>Status and clients\<close>

definition handleRoot :: "string \<Rightarrow> string \<Rightarrow> string hive_reply" where
  "handleRoot path dashboardHTML = (if path \<noteq> ''/'' then ReplyError 404 ''404 page not found'' else ReplyJSON dashboardHTML)"

definition upd_mesh :: "(MeshDiscovery \<Rightarrow> 'a \<times> MeshDiscovery) \<Rightarrow> 'a \<Rightarrow> HiveServer \<Rightarrow> 'a \<times> HiveServer" where
  "upd_mesh f d hs = (case hs_mesh hs of None \<Rightarrow> (d, hs) | Some m \<Rightarrow> (case f m of (x, m') \<Rightarrow> (x, hs\<lparr>hs_mesh := Some m'\<rparr>)))"

definition getPeers :: "gotime \<Rightarrow> string list \<Rightarrow> HiveServer \<Rightarrow> PeerInfo list \<times> HiveServer" where
  "getPeers t ks = upd_mesh (GetAlivePeers t ks) []"

record StatusReply =
  st_server_id :: string
  st_version :: string
  st_uptime :: string
  st_ollama_url :: string
  st_ollama_model :: string
  st_queue :: QueueStatus
  st_clients :: int
  st_max_clients :: int
  st_mesh_enabled :: bool
  st_peers :: int
  st_hardware :: jobj

definition serverVersion :: string where "serverVersion = ''1.7.0''"

definition handleStatus ::
  "gotime \<Rightarrow> string list \<Rightarrow> string list \<Rightarrow> string \<Rightarrow> string \<Rightarrow> jobj \<Rightarrow> HiveServer \<Rightarrow> StatusReply hive_reply \<times> HiveServer" where
  "handleStatus t ks js serverID uptime hardware hs =
     (case getPeers t ks hs of (peers, hs') \<Rightarrow>
        (ReplyJSON \<lparr>st_server_id = serverID, st_version = serverVersion, st_uptime = uptime, st_ollama_url = sc_OllamaURL (hs_cfg hs'),
           st_ollama_model = sc_OllamaModel (hs_cfg hs'), st_queue = GetQueueStatus t js (hs_queue hs'), st_clients = Count (hs_clients hs'),
           st_max_clients = sc_MaxClients (hs_cfg hs'), st_mesh_enabled = sc_MeshEnabled (hs_cfg hs'), st_peers = int (length peers),
           st_hardware = hardware\<rparr>, hs'))"

definition handleClients :: "string list \<Rightarrow> HiveServer \<Rightarrow> ClientInfo list hive_reply" where
  "handleClients ks hs = ReplyJSON (GetAll ks (hs_clients hs))"

definition handleClientRegister ::
  "gotime \<Rightarrow> string \<Rightarrow> (string \<times> string) option \<Rightarrow> HiveServer \<Rightarrow> ClientInfo hive_reply \<times> HiveServer" where
  "handleClientRegister t mth body hs =
     (if mth \<noteq> ''POST'' then (ReplyError 405 ''POST required'', hs)
      else case body of
          None \<Rightarrow> (ReplyError 400 ''bad json'', hs)
        | Some (clientID, name) \<Rightarrow>
            if clientID = [] \<or> name = [] then (ReplyError 400 ''client_id and name required'', hs)
            else (case Register t clientID name (hs_clients hs) of
                (Inl e, cm) \<Rightarrow> (ReplyError 429 e, hs\<lparr>hs_clients := cm\<rparr>)
              | (Inr a, cm) \<Rightarrow> (ReplyJSON (cl_heap cm a), hs\<lparr>hs_clients := cm\<rparr>)))"

text \<open>\<open>query\<close>: the query parameter \<^verbatim>\<open>client_id\<close>; the ID in the path is not looked at.\<close>

definition handleClientHeartbeatPath ::
  "gotime \<Rightarrow> string \<Rightarrow> string option \<Rightarrow> HiveServer \<Rightarrow> string hive_reply \<times> HiveServer" where
  "handleClientHeartbeatPath t query body hs =
     (let beat = (\<lambda>i. (ReplyJSON ''ok'', hs\<lparr>hs_clients := Heartbeat t i (hs_clients hs)\<rparr>))
      in if query \<noteq> [] then beat query
         else case body of
             None \<Rightarrow> (ReplyError 400 ''client_id required'', hs)
           | Some i \<Rightarrow> if i = [] then (ReplyError 400 ''client_id required'', hs) else beat i)"

definition handleClientUnregister :: "string \<Rightarrow> string option \<Rightarrow> HiveServer \<Rightarrow> string hive_reply \<times> HiveServer" where
  "handleClientUnregister mth body hs =
     (if mth \<noteq> ''POST'' then (ReplyError 405 ''POST required'', hs)
      else case body of
          None \<Rightarrow> (ReplyError 400 ''bad json'', hs)
        | Some i \<Rightarrow> (ReplyJSON ''ok'', hs\<lparr>hs_clients := Unregister i (hs_clients hs)\<rparr>))"

section \<open>Jobs\<close>

record SubmitBody =
  sb_ClientID :: string
  sb_JobType :: string
  sb_Payload :: jobj

record ForwardBody =
  fb_JobID :: string
  fb_ClientID :: string
  fb_JobType :: string
  fb_Payload :: jobj
  fb_Origin :: string

datatype jobs_reply = JobsList "jobj list" | JobCreated Job | JobForwarded jobj

text \<open>Where submitting stands: answered, or waiting for this peer's answer to the job of this ID, for the client at this address.\<close>

datatype submit_state = Submitted "jobs_reply hive_reply" | SubmitForward PeerInfo string client_addr

definition submit_id :: "gotime \<Rightarrow> SubmitBody \<Rightarrow> string" where
  "submit_id t b = sb_ClientID b @ '':'' @ sb_JobType b @ '':'' @ millis t"

text \<open>Executing locally; \<open>ja\<close> is the address the job is allocated at. What \<^verbatim>\<open>Submit\<close> returns is not looked at.\<close>

definition submit_local ::
  "gotime \<Rightarrow> job_addr \<Rightarrow> client_addr \<Rightarrow> SubmitBody \<Rightarrow> HiveServer \<Rightarrow> submit_state \<times> HiveServer" where
  "submit_local t ja a b hs =
     (let job = NewJob t (submit_id t b) (sb_ClientID b) (sb_JobType b) (sb_Payload b);
          q = snd (oq_Submit ja ((hs_queue hs)\<lparr>oq_heap := (oq_heap (hs_queue hs))(ja := job)\<rparr>))
      in (Submitted (ReplyJSON (JobCreated job)),
          hs\<lparr>hs_queue := q, hs_clients := upd_client a count_submitted (hs_clients hs)\<rparr>))"

definition submitJob_start ::
  "gotime \<Rightarrow> string list \<Rightarrow> job_addr \<Rightarrow> SubmitBody option \<Rightarrow> HiveServer \<Rightarrow> submit_state \<times> HiveServer" where
  "submitJob_start t ks ja body hs = (case body of
     None \<Rightarrow> (Submitted (ReplyError 400 ''bad json''), hs)
   | Some b \<Rightarrow>
       if sb_ClientID b = [] \<or> sb_JobType b = [] then (Submitted (ReplyError 400 ''client_id and job_type required''), hs)
       else (case Register t (sb_ClientID b) (sb_ClientID b) (hs_clients hs) of
           (Inl e, cm) \<Rightarrow> (Submitted (ReplyError 429 e), hs\<lparr>hs_clients := cm\<rparr>)
         | (Inr a, cm) \<Rightarrow>
             let hs1 = hs\<lparr>hs_clients := cm\<rparr>
             in if sc_MeshEnabled (hs_cfg hs1) \<and> hs_mesh hs1 \<noteq> None \<and> GetAvailableCapacity (hs_queue hs1) \<le> 0
                then (case upd_mesh (GetBestPeer t ks) None hs1 of
                    (Some peer, hs2) \<Rightarrow> (SubmitForward peer (submit_id t b) a, hs2)
                  | (None, hs2) \<Rightarrow> submit_local t ja a b hs2)
                else submit_local t ja a b hs1))"

text \<open>When the peer has answered (\<open>None\<close>: not, or not with JSON). If it did not, the job gets a new ID.\<close>

definition submitJob_forwarded ::
  "gotime \<Rightarrow> job_addr \<Rightarrow> client_addr \<Rightarrow> SubmitBody \<Rightarrow> jobj option \<Rightarrow> HiveServer \<Rightarrow> submit_state \<times> HiveServer" where
  "submitJob_forwarded t ja a b answer hs = (case answer of
     Some m \<Rightarrow> (Submitted (ReplyJSON (JobForwarded m)), hs\<lparr>hs_clients := upd_client a count_submitted (hs_clients hs)\<rparr>)
   | None \<Rightarrow> submit_local t ja a b hs)"

definition forwardJobToPeer :: "string \<Rightarrow> string \<Rightarrow> SubmitBody \<Rightarrow> ForwardBody" where
  "forwardJobToPeer serverID jobID b = \<lparr>fb_JobID = jobID, fb_ClientID = sb_ClientID b, fb_JobType = sb_JobType b,
     fb_Payload = sb_Payload b, fb_Origin = serverID\<rparr>"

text \<open>\<open>rs\<close>, \<open>cs\<close>: the orders in which running and completed jobs are visited.\<close>

definition handleJobs ::
  "gotime \<Rightarrow> string list \<Rightarrow> string list \<Rightarrow> string list \<Rightarrow> job_addr \<Rightarrow> string \<Rightarrow> SubmitBody option \<Rightarrow> HiveServer
     \<Rightarrow> submit_state \<times> HiveServer" where
  "handleJobs t ks rs cs ja mth body hs =
     (if mth = ''GET'' then (Submitted (ReplyJSON (JobsList (GetAllJobs t rs cs (hs_queue hs)))), hs)
      else if mth = ''POST'' then submitJob_start t ks ja body hs
      else (Submitted (ReplyError 405 ''method not allowed''), hs))"

text \<open>\<open>query\<close>: the query parameter \<^verbatim>\<open>job_id\<close>; the ID in the path is not looked at.\<close>

definition handleJobGet :: "string \<Rightarrow> HiveServer \<Rightarrow> jobj hive_reply" where
  "handleJobGet query hs = (case Job_Queue.GetJob query (hs_queue hs) of
     None \<Rightarrow> ReplyError 404 ''{\"error\":\"job not found\"}''
   | Some j \<Rightarrow> ReplyJSON (jobToMap j))"

text \<open>A job another server sends: refused, or waiting for the job of this ID.\<close>

definition handleJobForward_start ::
  "gotime \<Rightarrow> job_addr \<Rightarrow> string \<Rightarrow> ForwardBody option \<Rightarrow> HiveServer \<Rightarrow> (int \<times> string + string) \<times> HiveServer" where
  "handleJobForward_start t ja mth body hs =
     (if mth \<noteq> ''POST'' then (Inl (405, ''POST required''), hs)
      else case body of
          None \<Rightarrow> (Inl (400, ''bad json''), hs)
        | Some b \<Rightarrow>
            if fb_JobID b = [] \<or> fb_ClientID b = [] \<or> fb_JobType b = []
            then (Inl (400, ''job_id, client_id, and job_type required''), hs)
            else
              let peerJobID = ''mesh:'' @ fb_Origin b @ '':'' @ fb_JobID b;
                  job = NewJob t peerJobID (fb_ClientID b) (fb_JobType b) (fb_Payload b)
              in (Inr peerJobID, hs\<lparr>hs_queue :=
                   snd (oq_Submit ja ((hs_queue hs)\<lparr>oq_heap := (oq_heap (hs_queue hs))(ja := job)\<rparr>))\<rparr>))"

record ForwardReply =
  fr_job_id :: string
  fr_status :: string
  fr_result :: "json option"
  fr_error :: string

definition forward_poll :: "string \<Rightarrow> Job option \<Rightarrow> ForwardReply option" where
  "forward_poll jobID current = (case current of
     None \<Rightarrow> None
   | Some j \<Rightarrow>
       if j_Status j = JobPending \<or> j_Status j = JobRunning then None
       else if j_Status j = JobFailed
         then Some \<lparr>fr_job_id = jobID, fr_status = ''failed'', fr_result = None, fr_error = j_Error j\<rparr>
       else Some \<lparr>fr_job_id = jobID, fr_status = ''completed'', fr_result = j_Result j, fr_error = []\<rparr>)"

text \<open>The loop over the looks at the queue, one at each tick until the deadline.\<close>

fun forward_wait :: "string \<Rightarrow> Job option list \<Rightarrow> ForwardReply" where
  "forward_wait jobID [] = \<lparr>fr_job_id = jobID, fr_status = ''failed'', fr_result = None, fr_error = ''forward timeout''\<rparr>"
| "forward_wait jobID (c # cs) = (case forward_poll jobID c of Some r \<Rightarrow> r | None \<Rightarrow> forward_wait jobID cs)"

definition handleQueue :: "gotime \<Rightarrow> string list \<Rightarrow> HiveServer \<Rightarrow> QueueStatus hive_reply" where
  "handleQueue t js hs = ReplyJSON (GetQueueStatus t js (hs_queue hs))"

section \<open>Peers\<close>

record PeerBody =
  pb_ServerID :: string
  pb_Endpoint :: string
  pb_MaxConcurrent :: int
  pb_OllamaModel :: string

definition handlePeers :: "gotime \<Rightarrow> string list \<Rightarrow> HiveServer \<Rightarrow> (PeerInfo list \<times> bool) hive_reply \<times> HiveServer" where
  "handlePeers t ks hs = (if hs_mesh hs = None then (ReplyJSON ([], False), hs)
     else (case upd_mesh (GetPeersList t ks) [] hs of (ps, hs') \<Rightarrow> (ReplyJSON (ps, True), hs')))"

definition server_RegisterPeer :: "gotime \<Rightarrow> PeerBody \<Rightarrow> HiveServer \<Rightarrow> HiveServer" where
  "server_RegisterPeer t b hs = hs\<lparr>hs_mesh := map_option
     (RegisterPeer t (pb_ServerID b) (pb_Endpoint b) (pb_MaxConcurrent b) (pb_OllamaModel b)) (hs_mesh hs)\<rparr>"

definition handlePeerRegister :: "gotime \<Rightarrow> string \<Rightarrow> PeerBody option \<Rightarrow> HiveServer \<Rightarrow> string hive_reply \<times> HiveServer" where
  "handlePeerRegister t mth body hs =
     (if mth \<noteq> ''POST'' then (ReplyError 405 ''POST required'', hs)
      else if hs_mesh hs = None then (ReplyError 400 ''mesh not enabled'', hs)
      else case body of
          None \<Rightarrow> (ReplyError 400 ''bad json'', hs)
        | Some b \<Rightarrow>
            if pb_ServerID b = [] \<or> pb_Endpoint b = [] then (ReplyError 400 ''server_id and endpoint required'', hs)
            else (ReplyJSON ''ok'', server_RegisterPeer t (b\<lparr>pb_MaxConcurrent := (if pb_MaxConcurrent b = 0 then 2 else pb_MaxConcurrent b)\<rparr>) hs))"

definition handlePeerIntroduce :: "gotime \<Rightarrow> string \<Rightarrow> PeerBody option \<Rightarrow> HiveServer \<Rightarrow> string hive_reply \<times> HiveServer" where
  "handlePeerIntroduce t serverID body hs =
     (if hs_mesh hs = None then (ReplyError 400 ''mesh not enabled'', hs)
      else case body of
          None \<Rightarrow> (ReplyError 400 ''bad json'', hs)
        | Some b \<Rightarrow>
            if pb_ServerID b = [] \<or> pb_Endpoint b = [] then (ReplyError 400 ''server_id and endpoint required'', hs)
            else if pb_ServerID b = serverID then (ReplyJSON ''skipped'', hs)
            else (ReplyJSON ''registered'', server_RegisterPeer t b hs))"

text \<open>\<open>probe\<close>: what the seeds answer, in the order they are asked.\<close>

definition handlePeerScan ::
  "(string \<Rightarrow> string option) \<Rightarrow> string \<Rightarrow> (string \<Rightarrow> gotime \<times> gotime \<times> jobj option \<times> PeerInfo list option) \<Rightarrow> HiveServer
     \<Rightarrow> string list hive_reply \<times> HiveServer" where
  "handlePeerScan host env probe hs = (case hs_mesh hs of
     None \<Rightarrow> (ReplyError 400 ''mesh not enabled'', hs)
   | Some m \<Rightarrow>
       let seeds = getSeedPeers host env
       in (ReplyJSON seeds, hs\<lparr>hs_mesh := Some (Rescan (map (\<lambda>s. case probe s of (t, t', st, ps) \<Rightarrow> (t, t', s, st, ps)) seeds) m)\<rparr>))"

definition handleMeshDiagnostics ::
  "gotime \<Rightarrow> string list \<Rightarrow> string list \<Rightarrow> string \<Rightarrow> HiveServer \<Rightarrow> MeshDiag option hive_reply \<times> HiveServer" where
  "handleMeshDiagnostics t ks seeds serverID hs = (case hs_mesh hs of
     None \<Rightarrow> (ReplyJSON None, hs)
   | Some m \<Rightarrow> (case GetDiagnostics t ks seeds m of
       (d, m') \<Rightarrow> (ReplyJSON (Some (d\<lparr>di_server_id := serverID\<rparr>)), hs\<lparr>hs_mesh := Some m'\<rparr>)))"

text \<open>\<open>tags\<close>: what the request for Ollama's models gives, an error or their names.\<close>

definition handleOllamaHealth :: "string + string list \<Rightarrow> (string \<times> string + string list) hive_reply" where
  "handleOllamaHealth tags = ReplyJSON (case tags of Inl e \<Rightarrow> Inl (''unhealthy'', e) | Inr models \<Rightarrow> Inr models)"

section \<open>Providers\<close>

definition upd_provider :: "(ProviderManager \<times> registry \<Rightarrow> 'a \<times> (ProviderManager \<times> registry)) \<Rightarrow> HiveServer \<Rightarrow> 'a \<times> HiveServer" where
  "upd_provider f hs = (case f (hs_provider hs, Some (hs_modelRegistry hs)) of (x, (pm, reg)) \<Rightarrow>
     (x, hs\<lparr>hs_provider := pm, hs_modelRegistry := (case reg of Some mr \<Rightarrow> mr | None \<Rightarrow> hs_modelRegistry hs)\<rparr>))"

definition handleNodes :: "provider_env \<Rightarrow> string list \<Rightarrow> HiveServer \<Rightarrow> NodeInfo list hive_reply \<times> HiveServer" where
  "handleNodes env ks hs = (case getPeers (pp_time env) ks hs of (peers, hs1) \<Rightarrow>
     (case upd_provider (GetNodes env peers) hs1 of (nodes, hs2) \<Rightarrow> (ReplyJSON nodes, hs2)))"

definition handleProviders ::
  "provider_env \<Rightarrow> (ProviderType set \<Rightarrow> ProviderType list) \<Rightarrow> HiveServer \<Rightarrow> ProviderType list hive_reply \<times> HiveServer" where
  "handleProviders env ts hs = (case upd_provider (GetProviderTypes env ts) hs of (x, hs') \<Rightarrow> (ReplyJSON x, hs'))"

definition handleModels :: "provider_env \<Rightarrow> HiveServer \<Rightarrow> ModelInfo list hive_reply \<times> HiveServer" where
  "handleModels env hs = (case upd_provider (GetAggregatedModels env) hs of (x, hs') \<Rightarrow> (ReplyJSON x, hs'))"

section \<open>Logs and usage\<close>

text \<open>\<open>scanf\<close>: \<^verbatim>\<open>Sscanf\<close> with \<^verbatim>\<open>%f\<close>; when it fails the variable keeps its value.\<close>

definition handleLogs :: "(string \<Rightarrow> real option) \<Rightarrow> string \<Rightarrow> RingBuffer \<Rightarrow> LogEntry list hive_reply" where
  "handleLogs scanf sinceStr rb =
     ReplyJSON (getLogs (if sinceStr \<noteq> [] then (case scanf sinceStr of Some x \<Rightarrow> x | None \<Rightarrow> 0) else 0) rb)"

definition handleLogsClear :: "string \<Rightarrow> RingBuffer \<Rightarrow> string hive_reply \<times> RingBuffer" where
  "handleLogsClear mth rb = (if mth \<noteq> ''POST'' then (ReplyError 405 ''POST required'', rb) else (ReplyJSON ''ok'', ring_Clear rb))"

definition usage_since :: "(string \<Rightarrow> real option) \<Rightarrow> gotime \<Rightarrow> string \<Rightarrow> real" where
  "usage_since scanf t sinceStr =
     (if sinceStr = [] then now_seconds t - 3600
      else let s = (case scanf sinceStr of Some x \<Rightarrow> x | None \<Rightarrow> 0) in if s > 0 then s else now_seconds t - 3600)"

text \<open>The answers of the usage handlers: an error text within the JSON, or the values. \<open>db\<close> is \<open>None\<close> when there is no database.\<close>

definition handleUsageTimeSeries ::
  "(string \<Rightarrow> real option) \<Rightarrow> gotime \<Rightarrow> string option \<Rightarrow> string option \<Rightarrow> TokenRecord sql_order \<Rightarrow> string \<Rightarrow> string \<Rightarrow> usage_table option
     \<Rightarrow> (string + TimeSeriesPoint list \<times> string list) hive_reply" where
  "handleUsageTimeSeries scanf t err1 err2 ord model sinceStr db = (case db of
     None \<Rightarrow> ReplyJSON (Inr ([], []))
   | Some u \<Rightarrow> (case GetTimeSeries err1 ord model (usage_since scanf t sinceStr) u of
       Inl e \<Rightarrow> ReplyJSON (Inl e)
     | Inr points \<Rightarrow> ReplyJSON (Inr (points, case usage_GetModels err2 u of Inr ms \<Rightarrow> ms | Inl e \<Rightarrow> []))))"

definition usage_bins :: "(string \<Rightarrow> int option) \<Rightarrow> string \<Rightarrow> int" where
  "usage_bins scand binsStr =
     (if binsStr = [] then 20
      else let b = (case scand binsStr of Some n \<Rightarrow> n | None \<Rightarrow> 0) in if b > 0 \<and> b \<le> 200 then b else 20)"

definition handleUsageHistogram ::
  "(string \<Rightarrow> real option) \<Rightarrow> (string \<Rightarrow> int option) \<Rightarrow> gotime \<Rightarrow> string option \<Rightarrow> string \<Rightarrow> string \<Rightarrow> string \<Rightarrow> usage_table option
     \<Rightarrow> (string + HistogramResult) hive_reply option" where
  "handleUsageHistogram scanf scand t err model sinceStr binsStr db = (case db of
     None \<Rightarrow> Some (ReplyJSON (Inl ''no database''))
   | Some u \<Rightarrow> map_option ReplyJSON (GetHistogram err model (usage_since scanf t sinceStr) (usage_bins scand binsStr) u))"

definition handleUsageReport :: "string option \<Rightarrow> UsageReport sql_order \<Rightarrow> usage_table option \<Rightarrow> (string + UsageSummary) hive_reply" where
  "handleUsageReport err ord db = ReplyJSON (case db of None \<Rightarrow> Inl ''database not available'' | Some u \<Rightarrow> GetSummary err ord u)"

definition handleUsageRecent :: "string option \<Rightarrow> usage_table option \<Rightarrow> (string + TokenRecord list) hive_reply" where
  "handleUsageRecent err db = ReplyJSON (case db of None \<Rightarrow> Inr [] | Some u \<Rightarrow> GetRecent err 100 u)"

section \<open>The coding agent\<close>

text \<open>
  The handlers of the coding agent use only that field of the server, which they take and return. \<open>query\<close> is the query parameter \<^verbatim>\<open>session_id\<close>; the ID in the path
  is not looked at. An error text is put into JSON as it is.
\<close>

definition json_error :: "string \<Rightarrow> string" where
  "json_error e = ''{\"error\":\"'' @ e @ ''\"}''"

definition no_agent :: "'a hive_reply" where
  "no_agent = ReplyError 503 (json_error ''coding agent not available'')"

definition agent_reply :: "int \<Rightarrow> string + 'a \<Rightarrow> 'a hive_reply" where
  "agent_reply status r = (case r of Inl e \<Rightarrow> ReplyError status (json_error e) | Inr x \<Rightarrow> ReplyJSON x)"

definition with_session :: "string \<Rightarrow> 'c option \<Rightarrow> ('c \<Rightarrow> 'a hive_reply) \<Rightarrow> 'a hive_reply" where
  "with_session query cam f = (if query = [] then ReplyError 400 ''session_id required''
     else case cam of None \<Rightarrow> no_agent | Some c \<Rightarrow> f c)"

definition upd_agent ::
  "string \<Rightarrow> CodingAgentManager option \<Rightarrow> (CodingAgentManager \<Rightarrow> 'a hive_reply \<times> CodingAgentManager)
     \<Rightarrow> 'a hive_reply \<times> CodingAgentManager option" where
  "upd_agent query cam f = (if query = [] then (ReplyError 400 ''session_id required'', cam)
     else case cam of None \<Rightarrow> (no_agent, None) | Some c \<Rightarrow> (case f c of (r, c') \<Rightarrow> (r, Some c')))"

record SessionBody =
  nb_AgentType :: string
  nb_Model :: string
  nb_SystemPrompt :: string
  nb_TokenBudget :: int
  nb_Metadata :: "jobj option"

definition handleAgentSessionCreate ::
  "agent_env \<Rightarrow> string \<Rightarrow> SessionBody option \<Rightarrow> CodingAgentManager option
     \<Rightarrow> (CodingAgentSession \<times> ModelContextWindow) hive_reply \<times> CodingAgentManager option" where
  "handleAgentSessionCreate env mth body cam =
     (if mth \<noteq> ''POST'' then (ReplyError 405 ''POST required'', cam)
      else case cam of
          None \<Rightarrow> (ReplyError 503 (json_error ''coding agent not available (no database)''), cam)
        | Some c \<Rightarrow>
            (case body of
               None \<Rightarrow> (ReplyError 400 ''bad json'', cam)
             | Some b \<Rightarrow>
                 (case CreateSession env (if nb_AgentType b = [] then AgentTypeCustom else nb_AgentType b) (nb_Model b) (nb_SystemPrompt b)
                     (nb_TokenBudget b) (nb_Metadata b) c of
                    (Inl e, c') \<Rightarrow> (ReplyError 500 (json_error e), Some c')
                  | (Inr (a, w), c') \<Rightarrow> (ReplyJSON (cam_heap c' a, w), Some c'))))"

definition handleAgentSessionList ::
  "agent_env \<Rightarrow> session_row sql_order \<Rightarrow> string \<Rightarrow> CodingAgentManager option \<Rightarrow> (CodingAgentSession list \<times> int) hive_reply" where
  "handleAgentSessionList env ord agentType cam = (case cam of
     None \<Rightarrow> no_agent
   | Some c \<Rightarrow> agent_reply 500 (case ListSessions env ord agentType c of Inl e \<Rightarrow> Inl e | Inr ss \<Rightarrow> Inr (ss, int (length ss))))"

definition handleAgentSessionGet ::
  "agent_env \<Rightarrow> string \<Rightarrow> CodingAgentManager option \<Rightarrow> CodingAgentSession hive_reply \<times> CodingAgentManager option" where
  "handleAgentSessionGet env query cam = upd_agent query cam (\<lambda>c. case GetSession env query c of
     (Inr (Some a), c') \<Rightarrow> (ReplyJSON (cam_heap c' a), c')
   | (_, c') \<Rightarrow> (ReplyError 404 (json_error ''session not found''), c'))"

definition handleAgentSessionDelete ::
  "agent_env \<Rightarrow> string \<Rightarrow> CodingAgentManager option \<Rightarrow> (string \<times> string) hive_reply \<times> CodingAgentManager option" where
  "handleAgentSessionDelete env query cam = upd_agent query cam (\<lambda>c. case DeleteSession env query c of
     (Some e, c') \<Rightarrow> (ReplyError 500 (json_error e), c')
   | (None, c') \<Rightarrow> (ReplyJSON (''deleted'', query), c'))"

definition handleAgentSessionArchive ::
  "agent_env \<Rightarrow> string \<Rightarrow> string \<Rightarrow> CodingAgentManager option \<Rightarrow> (string \<times> string) hive_reply \<times> CodingAgentManager option" where
  "handleAgentSessionArchive env mth query cam =
     (if mth \<noteq> ''POST'' then (ReplyError 405 ''POST required'', cam)
      else upd_agent query cam (\<lambda>c. case ArchiveSession env query c of
          (Some e, c') \<Rightarrow> (ReplyError 500 (json_error e), c')
        | (None, c') \<Rightarrow> (ReplyJSON (''archived'', query), c')))"

record MessageBody =
  mb_Role :: string
  mb_Content :: string
  mb_Metadata :: "jobj option"

record MessageReply =
  mr_session_id :: string
  mr_response :: string
  mr_agent_type :: string
  mr_model :: string
  mr_total_tokens :: int
  mr_token_budget :: int
  mr_compressions :: int

text \<open>Sending a message up to the point where it waits (\<open>Inr\<close>), and what is answered when the model has (\<open>answer\<close>: its error or its text).\<close>

definition handleAgentMessageSend_start ::
  "agent_env \<Rightarrow> job_addr \<Rightarrow> string \<Rightarrow> string \<Rightarrow> MessageBody option \<Rightarrow> CodingAgentManager option
     \<Rightarrow> (MessageReply hive_reply + send_state) \<times> CodingAgentManager option" where
  "handleAgentMessageSend_start env ja mth query body cam =
     (if mth \<noteq> ''POST'' then (Inl (ReplyError 405 ''POST required''), cam)
      else if query = [] then (Inl (ReplyError 400 ''session_id required''), cam)
      else case cam of
          None \<Rightarrow> (Inl no_agent, cam)
        | Some c \<Rightarrow>
            (case body of
               None \<Rightarrow> (Inl (ReplyError 400 ''bad json''), cam)
             | Some b \<Rightarrow>
                 if mb_Content b = [] then (Inl (ReplyError 400 ''content required''), cam)
                 else (case SendMessage_start env ja query (if mb_Role b = [] then ''user'' else mb_Role b) (mb_Content b) (mb_Metadata b) c of
                     (SendError e, c') \<Rightarrow> (Inl (ReplyError 500 (json_error e)), Some c')
                   | (st, c') \<Rightarrow> (Inr st, Some c'))))"

definition handleAgentMessageSend_end ::
  "agent_env \<Rightarrow> string \<Rightarrow> session_addr \<Rightarrow> bool \<Rightarrow> string + string \<Rightarrow> CodingAgentManager \<Rightarrow> MessageReply hive_reply \<times> CodingAgentManager" where
  "handleAgentMessageSend_end env query a compressed answer c = (case answer of
     Inl e \<Rightarrow> (ReplyError 500 (json_error e), c)
   | Inr response \<Rightarrow>
       let c' = finishMessage env a response compressed c; s = cam_heap c' a
       in (ReplyJSON \<lparr>mr_session_id = query, mr_response = response, mr_agent_type = cs_AgentType s, mr_model = cs_Model s,
             mr_total_tokens = cs_TotalTokens s, mr_token_budget = cs_TokenBudget s, mr_compressions = cs_Compressions s\<rparr>, c'))"

definition scan_limit :: "(string \<Rightarrow> int option) \<Rightarrow> int \<Rightarrow> string \<Rightarrow> int" where
  "scan_limit scand d l = (if l = [] then d else case scand l of Some n \<Rightarrow> n | None \<Rightarrow> d)"

definition handleAgentMessagesGet ::
  "agent_env \<Rightarrow> (string \<Rightarrow> int option) \<Rightarrow> string \<Rightarrow> string \<Rightarrow> CodingAgentManager option
     \<Rightarrow> (string \<times> CodingAgentMessage list \<times> int) hive_reply" where
  "handleAgentMessagesGet env scand query limitStr cam = with_session query cam (\<lambda>c. agent_reply 500
     (case GetMessages env query (scan_limit scand 0 limitStr) c of Inl e \<Rightarrow> Inl e | Inr ms \<Rightarrow> Inr (query, ms, int (length ms))))"

definition handleAgentContextStats ::
  "agent_env \<Rightarrow> string \<Rightarrow> CodingAgentManager option \<Rightarrow> ContextStats hive_reply \<times> CodingAgentManager option" where
  "handleAgentContextStats env query cam = upd_agent query cam (\<lambda>c. case GetContextStats env query c of
     (r, c') \<Rightarrow> (agent_reply 404 r, c'))"

definition handleAgentAuditLogs ::
  "agent_env \<Rightarrow> (string \<Rightarrow> int option) \<Rightarrow> string \<Rightarrow> string \<Rightarrow> CodingAgentManager option
     \<Rightarrow> (string \<times> CodingAgentAuditEntry list \<times> int) hive_reply" where
  "handleAgentAuditLogs env scand query limitStr cam = with_session query cam (\<lambda>c. agent_reply 500
     (case GetAuditLogs env query (scan_limit scand 500 limitStr) c of Inl e \<Rightarrow> Inl e | Inr ls \<Rightarrow> Inr (query, ls, int (length ls))))"

definition handleAgentSearch ::
  "agent_env \<Rightarrow> (string \<Rightarrow> int option) \<Rightarrow> string \<Rightarrow> string \<Rightarrow> CodingAgentManager option
     \<Rightarrow> (string \<times> CodingAgentMessage list \<times> int) hive_reply" where
  "handleAgentSearch env scand q limitStr cam = (case cam of
     None \<Rightarrow> no_agent
   | Some c \<Rightarrow>
       if q = [] then ReplyError 400 ''q parameter required''
       else agent_reply 500 (case SearchMessages env q (scan_limit scand 50 limitStr) c of
           Inl e \<Rightarrow> Inl e | Inr ms \<Rightarrow> Inr (q, ms, int (length ms))))"

record LiveModel =
  lm_name :: string
  lm_context_length :: int
  lm_recommended_budget :: int
  lm_detection_source :: string
  lm_size_gb :: string

fun live_models :: "show_api \<Rightarrow> (real \<Rightarrow> string) \<Rightarrow> (string \<times> int) list \<Rightarrow> ModelContextDetector \<Rightarrow> LiveModel list \<times> ModelContextDetector" where
  "live_models api f1 [] d = ([], d)"
| "live_models api f1 ((name, bytes) # ms) d =
     (let (w, d1) = DetectContextWindow api name d;
          (budget, d2) = GetContextBudgetForModel api name 0 d1;
          (rest, d3) = live_models api f1 ms d2
      in (\<lparr>lm_name = name, lm_context_length = cw_ContextLength w, lm_recommended_budget = budget, lm_detection_source = cw_Source w,
            lm_size_gb = f1 (of_int bytes / 1000000000)\<rparr> # rest, d3))"

text \<open>\<open>tags\<close>: names and sizes of Ollama's models, if it answers; \<open>ks\<close>: the order of the registry; \<open>f1\<close>: the text of \<^verbatim>\<open>%.1f\<close>.\<close>

definition handleAgentModels ::
  "show_api \<Rightarrow> (real \<Rightarrow> string) \<Rightarrow> (string \<times> int) list option \<Rightarrow> string list \<Rightarrow> string \<Rightarrow> CodingAgentManager option
     \<Rightarrow> (LiveModel list \<times> ModelContextWindow list) hive_reply \<times> CodingAgentManager option" where
  "handleAgentModels api f1 tags ks ollamaURL cam = (case cam of
     None \<Rightarrow> (no_agent, None)
   | Some c \<Rightarrow>
       (case (if ollamaURL \<noteq> [] then tags else None) of
          None \<Rightarrow> (ReplyJSON ([], GetAllKnownModels ks), Some c)
        | Some ms \<Rightarrow> (case live_models api f1 ms (cam_detector c) of
            (live, d) \<Rightarrow> (ReplyJSON (live, GetAllKnownModels ks), Some (c\<lparr>cam_detector := d\<rparr>)))))"

section \<open>Submitting a job\<close>


text \<open>So with 1000 jobs waiting the job is answered as created, and is nowhere: no worker will see it, and asking for it finds nothing.\<close>

lemma full_queue_loses_job:
  assumes "sb_ClientID b \<noteq> []" "sb_JobType b \<noteq> []" "Register t (sb_ClientID b) (sb_ClientID b) (hs_clients hs) = (Inr a, cm)"
    and "hs_mesh hs = None" "1000 \<le> length (oq_jobCh (hs_queue hs))" "Job_Queue.GetJob (submit_id t b) (hs_queue hs) = None"
  shows "\<exists>j hs'. submitJob_start t ks ja (Some b) hs = (Submitted (ReplyJSON (JobCreated j)), hs') \<and> j_Status j = JobPending \<and>
    oq_jobCh (hs_queue hs') = oq_jobCh (hs_queue hs) \<and> handleJobGet (j_ID j) hs' = ReplyError 404 ''{\"error\":\"job not found\"}''"
  using assms
  by (auto simp: submitJob_start_def submit_local_def Let_def oq_Submit_def NewJob_def handleJobGet_def Job_Queue.GetJob_def split: option.splits)

text \<open>Two jobs of one type that a client submits within one millisecond have one ID.\<close>

lemma submit_id_collides:
  "t div 1000000 = t' div 1000000 \<Longrightarrow> sb_ClientID b = sb_ClientID b' \<Longrightarrow> sb_JobType b = sb_JobType b' \<Longrightarrow> submit_id t b = submit_id t' b'"
  by (simp add: submit_id_def millis_def)

section \<open>Forwarding\<close>

lemma forward_wait_none: "\<forall>c \<in> set cs. forward_poll i c = None \<Longrightarrow> forward_wait i (cs @ ds) = forward_wait i ds"
  by (induction cs) auto

lemma forward_poll_final:
  "j_Status j = JobCompleted \<Longrightarrow> forward_poll i (Some j) = Some \<lparr>fr_job_id = i, fr_status = ''completed'', fr_result = j_Result j, fr_error = []\<rparr>"
  "j_Status j = JobFailed \<Longrightarrow> forward_poll i (Some j) = Some \<lparr>fr_job_id = i, fr_status = ''failed'', fr_result = None, fr_error = j_Error j\<rparr>"
  by (simp_all add: forward_poll_def)


section \<open>Histogram and peers\<close>

text \<open>
  The histogram endpoint never panics, whatever the query parameters, the contents of the table and the errors of the engine: it
  always answers, and the number of bins it asks the database for is between 1 and 200.
\<close>

theorem usage_histogram_total:
  "(\<exists>r. handleUsageHistogram scanf scand t err model sinceStr binsStr db = Some (ReplyJSON r)) \<and>
   1 \<le> usage_bins scand binsStr \<and> usage_bins scand binsStr \<le> 200"
proof -
  have b: "1 \<le> usage_bins scand binsStr" "usage_bins scand binsStr \<le> 200" by (auto simp: usage_bins_def Let_def)
  then show ?thesis
    using GetHistogram_total [OF b(1), of err model "usage_since scanf t sinceStr"] by (auto simp: handleUsageHistogram_def split: option.splits)
qed

text \<open>A server that introduces itself without its number of workers is registered with none, so it is never sent a job; one that is registered
  without it is given two.\<close>

lemma introduced_peer_idle:
  assumes "hs_mesh hs = Some m" "pb_ServerID b \<noteq> []" "pb_Endpoint b \<noteq> []" "pb_ServerID b \<noteq> serverID" "pb_MaxConcurrent b = 0"
  shows "\<exists>m' p. hs_mesh (snd (handlePeerIntroduce t serverID (Some b) hs)) = Some m' \<and> ms_peers m' (pb_ServerID b) = Some p \<and>
      pe_MaxConcurrent p = 0 \<and> better_peer best (refresh_peer t' p) = best"
    "\<exists>m' p. hs_mesh (snd (handlePeerRegister t ''POST'' (Some b) hs)) = Some m' \<and> ms_peers m' (pb_ServerID b) = Some p \<and> pe_MaxConcurrent p = 2"
  using assms
  by (auto simp: handlePeerIntroduce_def handlePeerRegister_def server_RegisterPeer_def RegisterPeer_def put_peer_def new_peer_def
      better_peer_def refresh_peer_def maxInt_def)

text \<open>A job is looked up by the query parameter only: a request with the ID in the path, as the route has it, is answered 404 unless
  there is a job with no ID.\<close>

lemma job_get_by_path:
  assumes "oq_running (hs_queue hs) [] = None" "oq_completed (hs_queue hs) [] = None"
  shows "handleJobGet [] hs = ReplyError 404 ''{\"error\":\"job not found\"}''"
  using assms by (simp add: handleJobGet_def Job_Queue.GetJob_def)

section \<open>Witnesses\<close>

definition sample_server :: "int \<Rightarrow> HiveServer" where
  "sample_server n = \<lparr>hs_queue = NewOllamaQueue n ''http://localhost:11434'' ''llama3'' (\<lambda>a. NewJob 0 [] [] [] []),
     hs_mesh = Some (sample_mesh ''s'' [sample_peer ''p'' 1]), hs_clients = NewClientManager 5 (\<lambda>a. sample_client),
     hs_cfg = \<lparr>sc_OllamaURL = ''http://localhost:11434'', sc_OllamaModel = ''llama3'', sc_ServerPort = 8081, sc_MaxConcurrent = n,
       sc_MeshEnabled = True, sc_MaxClients = 5, sc_CustomProviderURLs = []\<rparr>,
     hs_provider = sample_pm, hs_codingAgent = None, hs_modelRegistry = NewModelRegistry\<rparr>"

definition sample_body :: SubmitBody where
  "sample_body = \<lparr>sb_ClientID = ''c'', sb_JobType = ''chat'', sb_Payload = [(''k'', JNull)]\<rparr>"

lemma sample_register: "Register 0 (sb_ClientID sample_body) (sb_ClientID sample_body) (hs_clients (sample_server n))
   = (Inr 0, snd (Register 0 ''c'' ''c'' (NewClientManager 5 (\<lambda>a. sample_client))))"
  by (simp add: sample_server_def sample_body_def Register_def NewClientManager_def Count_def)


lemma sample_forwards:
  "submitJob_start 0 [''p''] 7 (Some sample_body) (sample_server 0)
     = (SubmitForward (the (fst (GetBestPeer 0 [''p''] (sample_mesh ''s'' [sample_peer ''p'' 1])))) (submit_id 0 sample_body) 0,
        snd (submitJob_start 0 [''p''] 7 (Some sample_body) (sample_server 0)))"
  by (simp add: submitJob_start_def sample_register sample_server_def sample_body_def GetAvailableCapacity_def NewOllamaQueue_def
      maxInt_def upd_mesh_def GetBestPeer_def GetAlivePeers_def sample_mesh_def sample_peer_def new_peer_def NewMeshDiscovery_def
      refresh_peer_def is_alive_def better_peer_def Register_def NewClientManager_def Count_def)


end
