(* ===== verification/OpenAI_Compat.thy ===== *)
theory OpenAI_Compat
  imports Hive_Server
begin

text \<open>
  The OpenAI-compatible API (\<^verbatim>\<open>hive-server-go/openai_compat.go\<close>): which model and server a chat request goes to, the conversation that is
  sent, the stream of chunks, the way through the queue, to a peer or through the coding agent, and the list of models.
  The theory shows what is selected and that a model only a peer has can be selected for the local Ollama, that a
  streamed answer is relayed complete and closed once, that the peer asked is the least loaded one with the model, that
  the system prompt of a request never reaches the model when the answer is streamed, and which of the agent's
  answers is returned.
\<close>

section \<open>Data\<close>

record OpenAIMessage =
  om_Role :: string
  om_Content :: string
  om_ToolCalls :: "json option"
  om_ToolCallID :: string

record OpenAIChatRequest =
  oreq_Model :: string
  oreq_Messages :: "OpenAIMessage list"
  oreq_Stream :: bool
  oreq_Temperature :: "real option"
  oreq_MaxTokens :: "int option"
  oreq_TopP :: "real option"
  oreq_Tools :: "json list"
  oreq_ToolChoice :: "json option"

record OpenAIUsage =
  ou_PromptTokens :: int
  ou_CompletionTokens :: int
  ou_TotalTokens :: int

record OpenAIChoice =
  och_Index :: int
  och_Message :: OpenAIMessage
  och_FinishReason :: string

record OpenAIChatResponse =
  ors_ID :: string
  ors_Object :: string
  ors_Created :: int
  ors_Model :: string
  ors_Choices :: "OpenAIChoice list"
  ors_Usage :: "OpenAIUsage option"
  ors_SystemFingerprint :: string

record OpenAIModel =
  oml_ID :: string
  oml_Object :: string
  oml_Created :: int
  oml_OwnedBy :: string

text \<open>A message for Ollama: role and content.\<close>

type_synonym chat_msg = "string \<times> string"

definition chat_json :: "chat_msg list \<Rightarrow> json" where
  "chat_json msgs = JArr (map (\<lambda>(r, c). JObj [(''role'', JStr r), (''content'', JStr c)]) msgs)"

definition unix_seconds :: "gotime \<Rightarrow> int" where
  "unix_seconds t = t div second"

definition completion_id :: "gotime \<Rightarrow> string" where
  "completion_id t = ''chatcmpl-hive-'' @ millis t"

definition chat_response :: "gotime \<Rightarrow> string \<Rightarrow> string \<Rightarrow> OpenAIUsage option \<Rightarrow> OpenAIChatResponse" where
  "chat_response t model content usage = \<lparr>ors_ID = completion_id t, ors_Object = ''chat.completion'', ors_Created = unix_seconds t,
     ors_Model = model, ors_Choices = [\<lparr>och_Index = 0, och_Message = \<lparr>om_Role = ''assistant'', om_Content = content, om_ToolCalls = None,
       om_ToolCallID = []\<rparr>, och_FinishReason = ''stop''\<rparr>], ors_Usage = usage, ors_SystemFingerprint = []\<rparr>"

section \<open>Choosing the model\<close>

text \<open>\<open>ks\<close>, \<open>ns\<close>, \<open>ms\<close>: the orders in which the tables of the registry are visited; \<open>url\<close> is the configured Ollama.\<close>

definition select_peer_compatible ::
  "gotime \<Rightarrow> string list \<Rightarrow> (string \<Rightarrow> string list) \<Rightarrow> string \<Rightarrow> string \<Rightarrow> ModelRegistry \<Rightarrow> (string \<times> string \<times> bool) \<times> ModelRegistry" where
  "select_peer_compatible t ns ms url requested mr = (case FindPeerWithCompatibleModel ns ms requested mr of
     Some (n, info) \<Rightarrow> if n \<noteq> [] then ((lm_Name info, lm_Endpoint info, True), MarkModelUsed t (lm_Name info) False n mr)
       else ((requested, url, False), mr)
   | None \<Rightarrow> ((requested, url, False), mr))"

definition selectBestModel ::
  "gotime \<Rightarrow> string list \<Rightarrow> string list \<Rightarrow> (string \<Rightarrow> string list) \<Rightarrow> string \<Rightarrow> string \<Rightarrow> ModelRegistry
     \<Rightarrow> (string \<times> string \<times> bool) \<times> ModelRegistry" where
  "selectBestModel t ks ns ms url requested mr =
     (if IsLoadedLocally requested mr then ((requested, url, False), MarkModelUsed t requested True [] mr)
      else case FindCompatibleLocalModel ks requested mr of
          Some info \<Rightarrow> ((lm_Name info, lm_Endpoint info, True), MarkModelUsed t (lm_Name info) True [] mr)
        | None \<Rightarrow>
            (case FindPeerWithLoadedModel ns requested mr of
               Some (n, info) \<Rightarrow>
                 if n \<noteq> [] then ((requested, lm_Endpoint info, False), MarkModelUsed t requested False n mr)
                 else select_peer_compatible t ns ms url requested mr
             | None \<Rightarrow> select_peer_compatible t ns ms url requested mr))"

section \<open>The conversation\<close>

text \<open>The loop over the messages; \<open>sp\<close> is the system prompt found so far.\<close>

fun split_messages :: "string \<Rightarrow> OpenAIMessage list \<Rightarrow> string \<times> chat_msg list" where
  "split_messages sp [] = (sp, [])"
| "split_messages sp (m # ms) =
     (let role = to_lower (om_Role m)
      in if role = ''system'' \<and> sp = [] then split_messages (om_Content m) ms
         else let role' = (if role = ''developer'' then ''system'' else role);
                  (sp', rest) = split_messages sp ms
              in (sp', if om_Content m \<noteq> [] then (role', om_Content m) # rest else rest))"

definition default_prompt :: string where
  "default_prompt = ''You are a helpful coding assistant. Write clean, production-ready code.''"

record chat_plan =
  cp_model :: string
  cp_endpoint :: string
  cp_system :: string
  cp_msgs :: "chat_msg list"
  cp_stream :: bool

text \<open>Up to the choice between streaming and not. \<open>body\<close>: \<open>None\<close> when it cannot be read, \<open>Some None\<close> when it is not such a request.\<close>

definition prepare_chat ::
  "gotime \<Rightarrow> string list \<Rightarrow> string list \<Rightarrow> (string \<Rightarrow> string list) \<Rightarrow> string \<Rightarrow> OpenAIChatRequest option option \<Rightarrow> HiveServer
     \<Rightarrow> chat_plan hive_reply \<times> HiveServer" where
  "prepare_chat t ks ns ms mth body hs =
     (if mth \<noteq> ''POST'' then (ReplyError 405 ''POST required'', hs)
      else case body of
          None \<Rightarrow> (ReplyError 400 ''failed to read body'', hs)
        | Some None \<Rightarrow> (ReplyError 400 ''invalid JSON'', hs)
        | Some (Some req) \<Rightarrow>
            if oreq_Messages req = [] then (ReplyError 400 ''messages required'', hs)
            else
              let requested = (if oreq_Model req = [] then sc_OllamaModel (hs_cfg hs) else oreq_Model req);
                  ((model, ep, compatible), mr) = selectBestModel t ks ns ms (sc_OllamaURL (hs_cfg hs)) requested (hs_modelRegistry hs);
                  endpoint = (if ep = [] then sc_OllamaURL (hs_cfg hs) else ep);
                  (sp, msgs) = split_messages [] (oreq_Messages req)
              in (ReplyJSON \<lparr>cp_model = model, cp_endpoint = endpoint, cp_system = (if sp = [] then default_prompt else sp),
                    cp_msgs = msgs, cp_stream = oreq_Stream req\<rparr>, hs\<lparr>hs_modelRegistry := mr\<rparr>))"

section \<open>Peers with a model\<close>

text \<open>\<open>ask p\<close>: the times of the request for the peer's models and what it answers, if it is made.\<close>

type_synonym peer_ask = "PeerInfo \<Rightarrow> gotime \<times> gotime \<times> string list option"

fun find_peer :: "peer_ask \<Rightarrow> string \<Rightarrow> PeerInfo list \<Rightarrow> PeerInfo option \<Rightarrow> MeshDiscovery \<Rightarrow> PeerInfo option \<times> MeshDiscovery" where
  "find_peer ask model [] best m = (best, m)"
| "find_peer ask model (p # ps) best m =
     (case ask p of (t, t', fetched) \<Rightarrow>
        (case GetCachedPeerModels t t' fetched p m of (models, m') \<Rightarrow>
           find_peer ask model ps
             (if model \<in> set models \<and> (case best of None \<Rightarrow> True | Some b \<Rightarrow> pe_Load p < pe_Load b) then Some p else best) m'))"

definition mesh_peer_with_model :: "gotime \<Rightarrow> string list \<Rightarrow> peer_ask \<Rightarrow> string \<Rightarrow> MeshDiscovery \<Rightarrow> PeerInfo option \<times> MeshDiscovery" where
  "mesh_peer_with_model t ks ask model m = (case GetAlivePeers t ks m of (peers, m') \<Rightarrow> find_peer ask model peers None m')"

definition findPeerWithModel :: "gotime \<Rightarrow> string list \<Rightarrow> peer_ask \<Rightarrow> string \<Rightarrow> HiveServer \<Rightarrow> PeerInfo option \<times> HiveServer" where
  "findPeerWithModel t ks ask model = upd_mesh (mesh_peer_with_model t ks ask model) None"

definition mapped_model :: "string \<Rightarrow> HiveServer \<Rightarrow> string" where
  "mapped_model model hs = (case hs_mesh hs of Some m \<Rightarrow> MapModel model m | None \<Rightarrow> model)"

section \<open>Streaming\<close>

text \<open>
  The frames written to the client: a chunk with content, the chunk that says the answer is complete, the end mark, an error, or a line of
  a peer. A chunk carries the ID, the time and the model of the completion.
\<close>

type_synonym chunk_head = "string \<times> int \<times> string"

datatype sse_frame = ContentChunk chunk_head string | FinalChunk chunk_head | DoneFrame | ErrorFrame string | RelayLine string

record ollama_chunk =
  ok_Content :: string
  ok_Done :: bool

text \<open>What a streaming request gives: an error, an error status with the text of its body, or the lines of the answer. A line of Ollama is
  \<open>None\<close> when it is empty or no chunk.\<close>

datatype 'l stream_answer = StreamFails string | StreamStatus int string | StreamLines "'l list"

definition writeSSEError :: "string \<Rightarrow> sse_frame list" where
  "writeSSEError msg = [ErrorFrame msg, DoneFrame]"

fun relay_chunks :: "chunk_head \<Rightarrow> ollama_chunk option list \<Rightarrow> sse_frame list" where
  "relay_chunks h [] = [DoneFrame]"
| "relay_chunks h (None # ls) = relay_chunks h ls"
| "relay_chunks h (Some c # ls) =
     (if ok_Done c then [FinalChunk h, DoneFrame]
      else (if ok_Content c \<noteq> [] then [ContentChunk h (ok_Content c)] else []) @ relay_chunks h ls)"

definition stream_body :: "string \<Rightarrow> chat_msg list \<Rightarrow> bool \<Rightarrow> jobj" where
  "stream_body model msgs streaming = [(''model'', JStr model), (''messages'', chat_json msgs), (''stream'', JBool streaming)]"

definition forwardOpenAIToPeerStreaming ::
  "(string \<Rightarrow> jobj \<Rightarrow> string stream_answer) \<Rightarrow> PeerInfo \<Rightarrow> string \<Rightarrow> chat_msg list \<Rightarrow> HiveServer \<Rightarrow> sse_frame list" where
  "forwardOpenAIToPeerStreaming post peer model msgs hs =
     (case post (pe_Endpoint peer @ ''/v1/chat/completions'') (stream_body (mapped_model model hs) msgs True) of
        StreamFails e \<Rightarrow> writeSSEError (''peer forward failed: '' @ e)
      | StreamStatus st body \<Rightarrow> writeSSEError (''peer error (status '' @ dec_int st @ ''): '' @ body)
      | StreamLines ls \<Rightarrow> map RelayLine (filter (\<lambda>l. l \<noteq> []) ls))"

text \<open>\<open>flush\<close>: whether the connection can be flushed. The answer is an error reply or the frames.\<close>

definition handleOpenAIStreamWithEndpoint ::
  "gotime \<Rightarrow> string list \<Rightarrow> peer_ask \<Rightarrow> (string \<Rightarrow> jobj \<Rightarrow> ollama_chunk option stream_answer) \<Rightarrow> (string \<Rightarrow> jobj \<Rightarrow> string stream_answer)
     \<Rightarrow> bool \<Rightarrow> string \<Rightarrow> string \<Rightarrow> chat_msg list \<Rightarrow> HiveServer \<Rightarrow> sse_frame list hive_reply \<times> HiveServer" where
  "handleOpenAIStreamWithEndpoint t ks ask ollama peer_post flush model endpoint msgs hs =
     (if \<not> flush then (ReplyError 500 ''streaming not supported'', hs)
      else case ollama (endpoint @ ''/api/chat'') (stream_body model msgs True) of
          StreamFails e \<Rightarrow> (ReplyJSON (writeSSEError (''ollama request failed: '' @ e)), hs)
        | StreamStatus st body \<Rightarrow>
            let err = ReplyJSON (writeSSEError (''ollama error (status '' @ dec_int st @ ''): '' @ body))
            in if st = 404
               then (case findPeerWithModel t ks ask model hs of
                   (Some peer, hs') \<Rightarrow> (ReplyJSON (forwardOpenAIToPeerStreaming peer_post peer model msgs hs'), hs')
                 | (None, hs') \<Rightarrow> (err, hs'))
               else (err, hs)
        | StreamLines ls \<Rightarrow> (ReplyJSON (relay_chunks (completion_id t, unix_seconds t, model) ls), hs))"

definition handleOpenAIStream ::
  "gotime \<Rightarrow> string list \<Rightarrow> peer_ask \<Rightarrow> (string \<Rightarrow> jobj \<Rightarrow> ollama_chunk option stream_answer) \<Rightarrow> (string \<Rightarrow> jobj \<Rightarrow> string stream_answer)
     \<Rightarrow> bool \<Rightarrow> string \<Rightarrow> chat_msg list \<Rightarrow> HiveServer \<Rightarrow> sse_frame list hive_reply \<times> HiveServer" where
  "handleOpenAIStream t ks ask ollama peer_post flush model msgs hs =
     handleOpenAIStreamWithEndpoint t ks ask ollama peer_post flush model (sc_OllamaURL (hs_cfg hs)) msgs hs"

section \<open>Through the queue\<close>

definition no_usage :: OpenAIUsage where
  "no_usage = \<lparr>ou_PromptTokens = 0, ou_CompletionTokens = 0, ou_TotalTokens = 0\<rparr>"

definition openai_forward_body :: "gotime \<Rightarrow> string \<Rightarrow> string \<Rightarrow> chat_msg list \<Rightarrow> HiveServer \<Rightarrow> jobj" where
  "openai_forward_body t serverID model msgs hs =
     [(''job_id'', JStr (''mesh-openai:'' @ millis t)), (''client_id'', JStr ''mesh-openai''), (''job_type'', JStr ''chat''),
      (''payload'', JObj (stream_body (mapped_model model hs) msgs False)), (''origin'', JStr serverID)]"

text \<open>\<open>post\<close>: what the peer answers, an error or its status, result and error text.\<close>

definition forwardOpenAIToPeer ::
  "(json \<Rightarrow> string) \<Rightarrow> (PeerInfo \<Rightarrow> jobj \<Rightarrow> string + string \<times> json option \<times> string) \<Rightarrow> gotime \<Rightarrow> string \<Rightarrow> PeerInfo \<Rightarrow> string \<Rightarrow> chat_msg list
     \<Rightarrow> HiveServer \<Rightarrow> string + string \<times> OpenAIUsage" where
  "forwardOpenAIToPeer fmt post t serverID peer model msgs hs = (case post peer (openai_forward_body t serverID model msgs hs) of
     Inl e \<Rightarrow> Inl e
   | Inr (status, result, err) \<Rightarrow>
       if status = ''failed'' then Inl (''peer execution failed: '' @ err) else Inr (extractChatResponse fmt result, no_usage))"

text \<open>\<open>reply\<close>: an error, or the content and the numbers of prompt and answer tokens.\<close>

definition callOllamaDirect :: "string + string \<times> real \<times> real \<Rightarrow> string + string \<times> OpenAIUsage" where
  "callOllamaDirect reply = (case reply of
     Inl e \<Rightarrow> Inl e
   | Inr (content, prompt_eval, eval) \<Rightarrow> Inr (content, \<lparr>ou_PromptTokens = trunc_float prompt_eval,
       ou_CompletionTokens = trunc_float eval, ou_TotalTokens = trunc_float (prompt_eval + eval)\<rparr>))"

definition openai_job :: "gotime \<Rightarrow> string \<Rightarrow> chat_msg list \<Rightarrow> Job" where
  "openai_job t model msgs = (NewJob t (''openai:'' @ millis t) ''chat'' ''chat'' (stream_body model msgs False))
     \<lparr>j_Priority := PriorityHigh_job, j_Deadline := t + 600 * second, j_MaxRetries := 3\<rparr>"

text \<open>\<open>Inr\<close> the ID of the job to wait for; \<open>Inl\<close> when the queue is full.\<close>

definition handleOpenAIDirect_start :: "gotime \<Rightarrow> job_addr \<Rightarrow> string \<Rightarrow> chat_msg list \<Rightarrow> HiveServer \<Rightarrow> string option \<times> HiveServer" where
  "handleOpenAIDirect_start t ja model msgs hs =
     (let job = openai_job t model msgs
      in case oq_Submit ja ((hs_queue hs)\<lparr>oq_heap := (oq_heap (hs_queue hs))(ja := job)\<rparr>) of
           (ok, q) \<Rightarrow> (if ok then Some (j_ID job) else None, hs\<lparr>hs_queue := q\<rparr>))"

record openai_net =
  on_ks :: "string list"
  on_ask :: peer_ask
  on_fmt :: "json \<Rightarrow> string"
  on_peer :: "PeerInfo \<Rightarrow> jobj \<Rightarrow> string + string \<times> json option \<times> string"
  on_ollama :: "jobj \<Rightarrow> string + string \<times> real \<times> real"
  on_server :: string

definition try_peer :: "openai_net \<Rightarrow> gotime \<Rightarrow> string \<Rightarrow> chat_msg list \<Rightarrow> HiveServer \<Rightarrow> (string \<times> OpenAIUsage) option \<times> HiveServer" where
  "try_peer net t model msgs hs = (case findPeerWithModel t (on_ks net) (on_ask net) model hs of
     (None, hs') \<Rightarrow> (None, hs')
   | (Some peer, hs') \<Rightarrow> (case forwardOpenAIToPeer (on_fmt net) (on_peer net) t (on_server net) peer model msgs hs' of
       Inr r \<Rightarrow> (Some r, hs') | Inl e \<Rightarrow> (None, hs')))"

definition direct_full :: "openai_net \<Rightarrow> gotime \<Rightarrow> string \<Rightarrow> chat_msg list \<Rightarrow> HiveServer \<Rightarrow> (string + string \<times> OpenAIUsage) \<times> HiveServer" where
  "direct_full net t model msgs hs = (case try_peer net t model msgs hs of
     (Some r, hs') \<Rightarrow> (Inr r, hs')
   | (None, hs') \<Rightarrow> (callOllamaDirect (on_ollama net (stream_body model msgs False)), hs'))"

text \<open>A look at the queue at a tick (\<open>None\<close>: go on waiting), and the loop until the deadline. A job that failed because the model is missing is
  tried on a peer.\<close>

definition direct_poll ::
  "openai_net \<Rightarrow> gotime \<Rightarrow> string \<Rightarrow> chat_msg list \<Rightarrow> Job option \<Rightarrow> HiveServer \<Rightarrow> ((string + string \<times> OpenAIUsage) \<times> HiveServer) option" where
  "direct_poll net t model msgs j hs = (case j of
     None \<Rightarrow> None
   | Some j \<Rightarrow>
       if j_Status j = JobFailed then
         (let err = Inl (''ollama error: '' @ j_Error j)
          in if str_contains (j_Error j) ''not found'' \<or> str_contains (j_Error j) ''404''
             then (case try_peer net t model msgs hs of (Some r, hs') \<Rightarrow> Some (Inr r, hs') | (None, hs') \<Rightarrow> Some (err, hs'))
             else Some (err, hs))
       else if j_Status j = JobCompleted then
         Some (Inr (extractChatResponse (on_fmt net) (j_Result j), \<lparr>ou_PromptTokens = j_PromptTokens j,
           ou_CompletionTokens = j_EvalTokens j, ou_TotalTokens = j_TotalTokens j\<rparr>), hs)
       else None)"

fun direct_wait ::
  "openai_net \<Rightarrow> gotime \<Rightarrow> string \<Rightarrow> chat_msg list \<Rightarrow> (Job option \<times> HiveServer) list \<Rightarrow> HiveServer \<Rightarrow> (string + string \<times> OpenAIUsage) \<times> HiveServer" where
  "direct_wait net t model msgs [] hs = (Inl ''job timeout'', hs)"
| "direct_wait net t model msgs ((j, hs1) # looks) hs =
     (case direct_poll net t model msgs j hs1 of Some r \<Rightarrow> r | None \<Rightarrow> direct_wait net t model msgs looks hs1)"

definition openai_error :: "string \<Rightarrow> string" where
  "openai_error e = ''{\"error\":{\"message\":\"'' @ e @ ''\",\"type\":\"server_error\"}}''"

definition direct_reply :: "gotime \<Rightarrow> string \<Rightarrow> string + string \<times> OpenAIUsage \<Rightarrow> OpenAIChatResponse hive_reply" where
  "direct_reply t model r = (case r of
     Inl e \<Rightarrow> ReplyError 500 (openai_error e)
   | Inr (response, usage) \<Rightarrow> ReplyJSON (chat_response t model response (Some usage)))"

section \<open>Through the coding agent\<close>

text \<open>A message sent and answered with nothing else going on: the environments of its two parts, the job's address, and the model's answer.\<close>

type_synonym send_call = "agent_env \<times> job_addr \<times> agent_env \<times> (string + string)"

definition SendMessage ::
  "send_call \<Rightarrow> string \<Rightarrow> string \<Rightarrow> string \<Rightarrow> jobj option \<Rightarrow> CodingAgentManager \<Rightarrow> (string + string) \<times> CodingAgentManager" where
  "SendMessage call sid role content md cam = (case call of (env, ja, env', answer) \<Rightarrow>
     (case SendMessage_start env ja sid role content md cam of
        (SendError e, cam') \<Rightarrow> (Inl e, cam')
      | (SendQueued a m c j, cam') \<Rightarrow> (case answer of Inl e \<Rightarrow> (Inl e, cam') | Inr r \<Rightarrow> (Inr r, finishMessage env' a r c cam'))
      | (SendElsewhere a m c ms, cam') \<Rightarrow> (case answer of Inl e \<Rightarrow> (Inl e, cam') | Inr r \<Rightarrow> (Inr r, finishMessage env' a r c cam'))))"

definition agent_type :: "string \<Rightarrow> string" where
  "agent_type model = (if str_contains model ''hermes'' \<or> str_contains model ''Hermes'' then ''hermes''
     else if str_contains model ''codex'' \<or> str_contains model ''Codex'' then ''codex''
     else if str_contains model ''opencode'' \<or> str_contains model ''OpenCode'' then ''opencode'' else ''custom'')"

fun replay :: "string \<Rightarrow> (chat_msg \<times> send_call) list \<Rightarrow> CodingAgentManager \<Rightarrow> CodingAgentManager" where
  "replay sid [] cam = cam"
| "replay sid (((role, content), call) # ms) cam =
     (let role' = (if role = [] then ''user'' else role)
      in replay sid ms (if role' = ''system'' then cam else snd (SendMessage call sid role' content None cam)))"

text \<open>The audit log comes newest first; the loop runs over it from its end.\<close>

definition last_response :: "CodingAgentAuditEntry list \<Rightarrow> string" where
  "last_response logs = (case find (\<lambda>e. ca_Role e = ''assistant'') (rev logs) of Some e \<Rightarrow> ca_Content e | None \<Rightarrow> [])"

text \<open>\<open>calls\<close>: the messages with how each is sent; \<open>env\<close>, \<open>env'\<close>: for creating the session and for what follows the replay.\<close>

definition handleOpenAIViaAgent ::
  "agent_env \<Rightarrow> agent_env \<Rightarrow> string \<Rightarrow> string \<Rightarrow> (chat_msg \<times> send_call) list \<Rightarrow> CodingAgentManager
     \<Rightarrow> (string + OpenAIChatResponse) \<times> CodingAgentManager" where
  "handleOpenAIViaAgent env env' model systemPrompt calls cam =
     (case CreateSession env (agent_type model) model systemPrompt 0 None cam of
        (Inl e, cam1) \<Rightarrow> (Inl (''create session: '' @ e), cam1)
      | (Inr (a, w), cam1) \<Rightarrow>
          let sid = cs_ID (cam_heap cam1 a); cam2 = replay sid calls cam1
          in (case GetAuditLogs env' sid 5 cam2 of
                Inl e \<Rightarrow> (Inl ''no response in session'', cam2)
              | Inr logs \<Rightarrow>
                  if logs = [] then (Inl ''no response in session'', cam2)
                  else
                    let lastResponse = last_response logs
                    in if lastResponse = [] then (Inl ''no assistant response found'', cam2)
                       else (case GetContextStats env' sid cam2 of (stats, cam3) \<Rightarrow>
                         let completion = estimateTokens lastResponse;
                             total = (case stats of Inr st \<Rightarrow> cx_total_tokens st | Inl e \<Rightarrow> cs_TotalTokens (cam_heap cam2 a))
                         in (Inr (chat_response (ae_time env') model lastResponse
                               (Some \<lparr>ou_PromptTokens = total - completion, ou_CompletionTokens = completion, ou_TotalTokens = total\<rparr>)), cam3))))"

section \<open>Models\<close>

definition openai_model :: "gotime \<Rightarrow> string \<Rightarrow> string \<Rightarrow> OpenAIModel" where
  "openai_model t i owner = \<lparr>oml_ID = i, oml_Object = ''model'', oml_Created = unix_seconds t, oml_OwnedBy = owner\<rparr>"

text \<open>The table of models with the order of insertion. A model of Ollama is added in any case, one of a peer if it is not there yet.\<close>

type_synonym model_table = "(string \<rightharpoonup> OpenAIModel) \<times> string list"

definition put_model :: "gotime \<Rightarrow> string \<Rightarrow> string \<Rightarrow> model_table \<Rightarrow> model_table" where
  "put_model t owner i = (\<lambda>(tab, ord). (tab(i \<mapsto> openai_model t i owner), ord @ [i]))"

definition add_model :: "gotime \<Rightarrow> string \<Rightarrow> string \<Rightarrow> model_table \<Rightarrow> model_table" where
  "add_model t owner i = (\<lambda>(tab, ord). if tab i = None then put_model t owner i (tab, ord) else (tab, ord))"

fun peer_models :: "gotime \<Rightarrow> peer_ask \<Rightarrow> PeerInfo list \<Rightarrow> model_table \<Rightarrow> MeshDiscovery \<Rightarrow> model_table \<times> MeshDiscovery" where
  "peer_models t ask [] tab m = (tab, m)"
| "peer_models t ask (p # ps) tab m = (case ask p of (t1, t2, fetched) \<Rightarrow>
     (case GetCachedPeerModels t1 t2 fetched p m of (models, m') \<Rightarrow>
        peer_models t ask ps (foldl (\<lambda>tab i. add_model t (pe_ServerID p) i tab) tab models) m'))"

definition handleOpenAIListModels ::
  "gotime \<Rightarrow> string list \<Rightarrow> peer_ask \<Rightarrow> string list option \<Rightarrow> HiveServer \<Rightarrow> OpenAIModel list hive_reply \<times> HiveServer" where
  "handleOpenAIListModels t ks ask tags hs =
     (let tab1 = foldl (\<lambda>tab i. put_model t ''local'' i tab) (Map.empty, []) (case tags of Some ms \<Rightarrow> ms | None \<Rightarrow> []);
          (tab2, hs') = upd_mesh (\<lambda>m. case GetAlivePeers t ks m of (peers, m') \<Rightarrow> peer_models t ask peers tab1 m') tab1 hs;
          (tab, ord) = add_model t ''local'' (sc_OllamaModel (hs_cfg hs)) tab2
      in (ReplyJSON (concat (map (\<lambda>i. case tab i of Some x \<Rightarrow> [x] | None \<Rightarrow> []) ord)), hs'))"

definition handleOpenAIHealth :: "(string \<times> string \<times> string) hive_reply" where
  "handleOpenAIHealth = ReplyJSON (''ok'', ''hive-server-go'', serverVersion)"

section \<open>A chat request\<close>

record chat_env =
  ce_t :: gotime
  ce_ks :: "string list"
  ce_ns :: "string list"
  ce_ms :: "string \<Rightarrow> string list"
  ce_net :: openai_net
  ce_ollama :: "string \<Rightarrow> jobj \<Rightarrow> ollama_chunk option stream_answer"
  ce_peer :: "string \<Rightarrow> jobj \<Rightarrow> string stream_answer"
  ce_flush :: bool
  ce_create :: agent_env
  ce_after :: agent_env
  ce_calls :: "chat_msg list \<Rightarrow> (chat_msg \<times> send_call) list"
  ce_ja :: job_addr

text \<open>Where a request stands: answered, streamed, or waiting for the job of this ID.\<close>

datatype chat_state = ChatReply "OpenAIChatResponse hive_reply" | ChatFrames "sse_frame list hive_reply" | ChatWaiting string chat_plan

definition try_agent :: "chat_env \<Rightarrow> chat_plan \<Rightarrow> HiveServer \<Rightarrow> OpenAIChatResponse option \<times> HiveServer" where
  "try_agent ce p hs = (case hs_codingAgent hs of
     None \<Rightarrow> (None, hs)
   | Some cam \<Rightarrow>
       (case handleOpenAIViaAgent (ce_create ce) (ce_after ce) (cp_model p) (cp_system p) (ce_calls ce (cp_msgs p)) cam of
          (r, cam') \<Rightarrow> (case r of Inr resp \<Rightarrow> Some resp | Inl e \<Rightarrow> None, hs\<lparr>hs_codingAgent := Some cam'\<rparr>)))"

definition handleOpenAIChatCompletions ::
  "chat_env \<Rightarrow> string \<Rightarrow> OpenAIChatRequest option option \<Rightarrow> HiveServer \<Rightarrow> chat_state \<times> HiveServer" where
  "handleOpenAIChatCompletions ce mth body hs =
     (case prepare_chat (ce_t ce) (ce_ks ce) (ce_ns ce) (ce_ms ce) mth body hs of
        (ReplyError c e, hs1) \<Rightarrow> (ChatReply (ReplyError c e), hs1)
      | (ReplyJSON p, hs1) \<Rightarrow>
          if cp_stream p then
            (case handleOpenAIStreamWithEndpoint (ce_t ce) (on_ks (ce_net ce)) (on_ask (ce_net ce)) (ce_ollama ce) (ce_peer ce) (ce_flush ce)
                (cp_model p) (cp_endpoint p) (cp_msgs p) hs1 of (r, hs2) \<Rightarrow> (ChatFrames r, hs2))
          else
            (case try_agent ce p hs1 of
               (Some resp, hs2) \<Rightarrow> (ChatReply (ReplyJSON resp), hs2)
             | (None, hs2) \<Rightarrow>
                 (case handleOpenAIDirect_start (ce_t ce) (ce_ja ce) (cp_model p) (cp_msgs p) hs2 of
                    (Some jobID, hs3) \<Rightarrow> (ChatWaiting jobID p, hs3)
                  | (None, hs3) \<Rightarrow>
                      (case direct_full (ce_net ce) (ce_t ce) (cp_model p) (cp_msgs p) hs3 of
                         (r, hs4) \<Rightarrow> (ChatReply (direct_reply (ce_t ce) (cp_model p) r), hs4)))))"

section \<open>What is selected\<close>

lemma FindCompatible_sound:
  assumes "ranges ks (mr_localModels mr)"
  shows "FindCompatibleLocalModel ks requested mr = Some i \<Longrightarrow>
      i \<in> ran (mr_localModels mr) \<and> compatible (extractModelFamily requested) i \<and> extractModelFamily requested \<noteq> []"
    "FindCompatibleLocalModel ks requested mr = None \<Longrightarrow> extractModelFamily requested \<noteq> [] \<Longrightarrow>
      i \<in> ran (mr_localModels mr) \<Longrightarrow> \<not> compatible (extractModelFamily requested) i"
proof -
  let ?fam = "extractModelFamily requested" let ?is = "map (the \<circ> mr_localModels mr) ks"
  have set: "set ?is = ran (mr_localModels mr)" by (rule ranges_values [OF assms])
  note fold = better_match_fold [of ?fam None ?is, unfolded set]
  show "i \<in> ran (mr_localModels mr) \<and> compatible ?fam i \<and> ?fam \<noteq> []" if "FindCompatibleLocalModel ks requested mr = Some i"
    using that fold by (auto simp: FindCompatibleLocalModel_def Let_def split: if_splits)
  show "\<not> compatible ?fam i" if "FindCompatibleLocalModel ks requested mr = None" "?fam \<noteq> []" "i \<in> ran (mr_localModels mr)"
    using that fold by (auto simp: FindCompatibleLocalModel_def Let_def)
qed

lemma find_some_SomeD: "find_some f xs = Some (x, y) \<Longrightarrow> x \<in> set xs \<and> f x = Some y"
  by (induction xs) (auto split: option.splits)

lemma FindPeerWithLoadedModel_sound:
  "ranges ns (mr_peerModels mr) \<Longrightarrow> FindPeerWithLoadedModel ns name mr = Some (n, info) \<Longrightarrow>
     \<exists>pm. mr_peerModels mr n = Some pm \<and> pm name = Some info \<and> lm_State info = ModelLoaded"
  by (auto simp: FindPeerWithLoadedModel_def ranges_def dest!: find_some_SomeD split: option.splits if_splits)

lemma FindPeerWithCompatibleModel_sound:
  assumes "ranges ns (mr_peerModels mr)" "\<And>n pm. mr_peerModels mr n = Some pm \<Longrightarrow> ranges (ms n) pm"
    "FindPeerWithCompatibleModel ns ms requested mr = Some (n, info)"
  shows "\<exists>pm. mr_peerModels mr n = Some pm \<and> info \<in> ran pm \<and> compatible (extractModelFamily requested) info \<and> extractModelFamily requested \<noteq> []"
proof -
  let ?P = "\<lambda>info. lm_State info = ModelLoaded \<and> lm_Family info = extractModelFamily requested"
  have f: "extractModelFamily requested \<noteq> []" "n \<in> set ns"
      "find ?P (map (the \<circ> the (mr_peerModels mr n)) (ms n)) = Some info"
    using assms(3) by (auto simp: FindPeerWithCompatibleModel_def Let_def split: if_splits dest!: find_some_SomeD)
  then obtain pm where pm: "mr_peerModels mr n = Some pm" using assms(1) by (auto simp: ranges_def)
  have "info \<in> set (map (the \<circ> pm) (ms n))" "?P info" using f(3) pm by (auto simp: find_Some_iff)
  then show ?thesis using ranges_values [OF assms(2) [OF pm]] pm f(1) by (auto simp: compatible_def)
qed


text \<open>
  A model that only a peer has. When the nodes are looked at, the models of a peer's Ollama are entered into the registry as loaded on
  this node; so a chat request for one of them is sent to this node's own Ollama, whatever that one has.
\<close>

theorem peer_model_sent_home:
  assumes "expired_nodes (pp_time env) (hs_provider hs)" "getPeers (pp_time env) ks hs = (peers, hs1)" "p \<in> set peers"
    and "pp_host env (pe_Endpoint p) = Some host" "pp_tags env (''http://'' @ host @ '':11434'') = Some found_models"
    and "name \<in> fst ` set found_models" "handleNodes env ks hs = (r, hs2)"
  shows "fst (selectBestModel t ks' ns ms (sc_OllamaURL (hs_cfg hs2)) name (hs_modelRegistry hs2)) = (name, sc_OllamaURL (hs_cfg hs), False)"
proof -
  have hs1: "hs_provider hs1 = hs_provider hs" "hs_modelRegistry hs1 = hs_modelRegistry hs" "hs_cfg hs1 = hs_cfg hs"
    using assms(2) by (auto simp: getPeers_def upd_mesh_def split: option.splits prod.splits)
  let ?st = "provider_refresh env peers (hs_provider hs, Some (hs_modelRegistry hs))"
  have "has_loaded name (snd ?st)" using refresh_loads_peer_models [OF assms(3) _ assms(4-6)] by simp
  then obtain mr where mr: "snd ?st = Some mr" "IsLoadedLocally name mr" by (auto simp: has_loaded_def split: option.splits)
  have "hs_modelRegistry hs2 = mr" "hs_cfg hs2 = hs_cfg hs"
    using assms(1,2,7) mr(1) hs1 by (auto simp: handleNodes_def upd_provider_def GetNodes_def Let_def split: prod.splits option.splits)
  then show ?thesis using mr(2) by (simp add: selectBestModel_def)
qed

section \<open>What is streamed\<close>

definition until_done :: "ollama_chunk option list \<Rightarrow> ollama_chunk list" where
  "until_done ls = takeWhile (\<lambda>c. \<not> ok_Done c) (concat (map (\<lambda>l. case l of Some c \<Rightarrow> [c] | None \<Rightarrow> []) ls))"

lemma relay_chunks_eq:
  "relay_chunks h ls = map (ContentChunk h) (filter (\<lambda>x. x \<noteq> []) (map ok_Content (until_done ls)))
     @ (if \<exists>c. Some c \<in> set ls \<and> ok_Done c then [FinalChunk h] else []) @ [DoneFrame]"
  by (induction h ls rule: relay_chunks.induct) (auto simp: until_done_def)

lemma concat_nonempty: "concat (filter (\<lambda>x. x \<noteq> []) xs) = concat xs"
  by (induction xs) auto

text \<open>
  C37. A streamed answer of Ollama is relayed without loss: the contents of the chunks, put together, are the contents of Ollama's chunks up to
  the one that says it is done; each chunk carries the completion's ID and the model; the frame that says the answer is
  complete is sent exactly if Ollama said so; and the stream is closed by one end mark, which is its last frame.
\<close>

theorem stream_relayed:
  assumes "flush" "ollama (endpoint @ ''/api/chat'') (stream_body model msgs True) = StreamLines ls"
  shows "\<exists>frames h. handleOpenAIStreamWithEndpoint t ks ask ollama peer_post flush model endpoint msgs hs = (ReplyJSON frames, hs) \<and>
    h = (completion_id t, unix_seconds t, model) \<and>
    concat (map (\<lambda>f. case f of ContentChunk h' c \<Rightarrow> c | _ \<Rightarrow> []) frames) = concat (map ok_Content (until_done ls)) \<and>
    (\<forall>f \<in> set frames. f = DoneFrame \<or> f = FinalChunk h \<or> (\<exists>c. f = ContentChunk h c \<and> c \<noteq> [])) \<and>
    (FinalChunk h \<in> set frames \<longleftrightarrow> (\<exists>c. Some c \<in> set ls \<and> ok_Done c)) \<and> count_list frames DoneFrame = 1 \<and> last frames = DoneFrame"
proof -
  let ?h = "(completion_id t, unix_seconds t, model)"
  have "concat (map ((\<lambda>f. case f of ContentChunk h' c \<Rightarrow> c | _ \<Rightarrow> []) \<circ> ContentChunk ?h) xs) = concat xs" for xs
    by (induction xs) auto
  moreover have "count_list (map (ContentChunk ?h) xs) DoneFrame = 0" for xs by (induction xs) auto
  ultimately show ?thesis using assms
    by (intro exI [of _ "relay_chunks ?h ls"] exI [of _ ?h]) (auto simp: handleOpenAIStreamWithEndpoint_def relay_chunks_eq concat_nonempty)
qed

section \<open>The system prompt\<close>

lemma split_messages_prompt:
  assumes "\<forall>m \<in> set ms1. to_lower (om_Role m) \<noteq> ''system''" "to_lower (om_Role m) = ''system''" "om_Content m \<noteq> []"
  shows "split_messages [] (ms1 @ m # ms2)
    = (om_Content m, snd (split_messages [] ms1) @ snd (split_messages (om_Content m) ms2))"
proof -
  have fst_keep: "fst (split_messages sp ms) = sp" if "sp \<noteq> []" for sp ms
    using that by (induction sp ms rule: split_messages.induct) (auto simp: Let_def split: prod.splits)
  show ?thesis
    using assms(1)
  proof (induction ms1)
    case Nil
    then show ?case using assms(2,3) fst_keep [of "om_Content m" ms2] by (cases "split_messages (om_Content m) ms2") simp
  qed (auto simp: Let_def split: prod.splits)
qed

lemma split_messages_cong: "sp \<noteq> [] \<Longrightarrow> sp' \<noteq> [] \<Longrightarrow> snd (split_messages sp ms) = snd (split_messages sp' ms)"
  by (induction ms) (auto simp: Let_def split: prod.splits)

text \<open>
  The system prompt of a request does not reach the model when the answer is streamed, or when there is no coding agent: two requests
  that differ only in the text of their system prompt are sent to Ollama, or submitted to the queue, as the same
  conversation, without a prompt.
\<close>

theorem system_prompt_ignored:
  assumes "\<forall>m \<in> set ms1. to_lower (om_Role m) \<noteq> ''system''" "to_lower (om_Role m) = ''system''" "om_Content m \<noteq> []" "prompt' \<noteq> []"
    and "oreq_Messages req = ms1 @ m # ms2" "oreq_Stream req \<or> hs_codingAgent hs = None"
    and "req' = req\<lparr>oreq_Messages := ms1 @ m\<lparr>om_Content := prompt'\<rparr> # ms2\<rparr>"
  shows "case (handleOpenAIChatCompletions ce ''POST'' (Some (Some req)) hs, handleOpenAIChatCompletions ce ''POST'' (Some (Some req')) hs) of
      ((ChatWaiting i p, hs1), (ChatWaiting i' p', hs2)) \<Rightarrow> i = i' \<and> p' = p\<lparr>cp_system := cp_system p'\<rparr> \<and> hs1 = hs2
    | (r, r') \<Rightarrow> r = r'"
proof -
  let ?m' = "m\<lparr>om_Content := prompt'\<rparr>"
  have s: "snd (split_messages [] (ms1 @ ?m' # ms2)) = snd (split_messages [] (ms1 @ m # ms2))"
    using split_messages_prompt [OF assms(1-3)] split_messages_prompt [OF assms(1), of ?m'] assms(2,4)
      split_messages_cong [OF assms(3,4)] by simp
  let ?prep = "prepare_chat (ce_t ce) (ce_ks ce) (ce_ns ce) (ce_ms ce) ''POST''"
  have "\<exists>p sp. ?prep (Some (Some req)) hs = (ReplyJSON p, snd (?prep (Some (Some req)) hs)) \<and> cp_stream p = oreq_Stream req \<and>
      hs_codingAgent (snd (?prep (Some (Some req)) hs)) = hs_codingAgent hs \<and>
      ?prep (Some (Some req')) hs = (ReplyJSON (p\<lparr>cp_system := sp\<rparr>), snd (?prep (Some (Some req)) hs))"
    using assms(5,7) s by (simp add: prepare_chat_def Let_def case_prod_unfold)
  then obtain p sp hs1 where p: "?prep (Some (Some req)) hs = (ReplyJSON p, hs1)" "cp_stream p = oreq_Stream req"
      "hs_codingAgent hs1 = hs_codingAgent hs" and p': "?prep (Some (Some req')) hs = (ReplyJSON (p\<lparr>cp_system := sp\<rparr>), hs1)"
    by blast
  show ?thesis
    using assms(6) p(2,3)
    by (auto simp: handleOpenAIChatCompletions_def p(1) p' try_agent_def split: prod.splits option.splits chat_state.splits)
qed

section \<open>The peer that is asked\<close>

definition shown_models :: "peer_ask \<Rightarrow> MeshDiscovery \<Rightarrow> PeerInfo \<Rightarrow> string set" where
  "shown_models ask m p = (case ask p of (t, t', fetched) \<Rightarrow> set (fst (GetCachedPeerModels t t' fetched p m)))"

lemma shown_models_other:
  "pe_ServerID p \<noteq> pe_ServerID q \<Longrightarrow> shown_models ask (snd (GetCachedPeerModels t t' f q m)) p = shown_models ask m p"
  by (auto simp: shown_models_def GetCachedPeerModels_def Let_def split: prod.splits option.splits if_splits)

lemma find_peer_best:
  assumes "distinct (map pe_ServerID ps)"
  shows "case fst (find_peer ask model ps best m) of
      None \<Rightarrow> best = None \<and> (\<forall>p \<in> set ps. model \<notin> shown_models ask m p)
    | Some b \<Rightarrow> (best = Some b \<or> b \<in> set ps \<and> model \<in> shown_models ask m b) \<and>
        (\<forall>p \<in> set ps. model \<in> shown_models ask m p \<longrightarrow> pe_Load b \<le> pe_Load p) \<and> (\<forall>b'. best = Some b' \<longrightarrow> pe_Load b \<le> pe_Load b')"
  using assms
proof (induction ps arbitrary: best m)
  case (Cons q ps)
  obtain t t' f where a: "ask q = (t, t', f)" by (metis prod.exhaust)
  obtain models m' where g: "GetCachedPeerModels t t' f q m = (models, m')" by fastforce
  have q: "shown_models ask m q = set models" by (simp add: shown_models_def a g)
  have others: "shown_models ask m' p = shown_models ask m p" if "p \<in> set ps" for p
  proof -
    have "pe_ServerID p \<noteq> pe_ServerID q" using that Cons.prems by (metis distinct.simps(2) imageI list.set_map list.simps(9))
    then show ?thesis using shown_models_other [of p q ask t t' f m] g by simp
  qed
  let ?best = "if model \<in> set models \<and> (case best of None \<Rightarrow> True | Some b \<Rightarrow> pe_Load q < pe_Load b) then Some q else best"
  have step: "find_peer ask model (q # ps) best m = find_peer ask model ps ?best m'" by (simp add: a g)
  have "distinct (map pe_ServerID ps)" using Cons.prems by simp
  note IH = Cons.IH [OF this, of ?best m']
  show ?case
  proof (cases "fst (find_peer ask model ps ?best m')")
    case None
    with IH show ?thesis unfolding step by (auto simp: q others split: if_splits option.splits)
  next
    case (Some b)
    with IH have I: "?best = Some b \<or> b \<in> set ps \<and> model \<in> shown_models ask m' b"
      "\<And>p. p \<in> set ps \<Longrightarrow> model \<in> shown_models ask m' p \<Longrightarrow> pe_Load b \<le> pe_Load p" "\<And>b'. ?best = Some b' \<Longrightarrow> pe_Load b \<le> pe_Load b'"
      by auto
    have "pe_Load b \<le> pe_Load q" if "model \<in> set models"
    proof (cases "best = None \<or> pe_Load q < pe_Load (the best)")
      case False
      then show ?thesis using I(3) [of "the best"] by auto
    qed (use I(3) [of q] that in \<open>cases best; auto\<close>)
    moreover have "pe_Load b \<le> pe_Load b'" if "best = Some b'" for b'
    proof (cases "model \<in> set models \<and> pe_Load q < pe_Load b'")
      case True
      then show ?thesis using I(3) [of q] that by simp
    qed (use I(3) [of b'] that in auto)
    moreover have "best = Some b \<or> b \<in> set (q # ps) \<and> model \<in> shown_models ask m b"
      using I(1) others [of b] q by (cases "?best = Some b") (auto split: if_splits)
    ultimately show ?thesis unfolding step using Some I(2) by (auto simp: q others)
  qed
qed (auto split: option.splits)

lemma alive_peers_distinct:
  assumes "ranges ks (ms_peers m)" "\<And>k p. ms_peers m k = Some p \<Longrightarrow> pe_ServerID p = k"
  shows "distinct (map pe_ServerID (fst (GetAlivePeers t ks m)))"
proof -
  have "map pe_ServerID (map (the \<circ> visit (refresh_peer t) ks (ms_peers m)) ks) = ks"
    using assms by (intro nth_equalityI) (auto simp: visit_ranges ranges_def refresh_peer_def dest!: nth_mem)
  then have "distinct (map pe_ServerID (map (the \<circ> visit (refresh_peer t) ks (ms_peers m)) ks))" using assms(1) by (simp add: ranges_def)
  then show ?thesis by (simp add: GetAlivePeers_def Let_def distinct_map_filter del: map_map)
qed

text \<open>
  The peer a request is passed on to when this node cannot serve the model: no peer exactly if no peer heard of in the last 30 seconds
  shows the model; otherwise a peer that shows it, of least load among those. What a peer shows is the list kept for 30
  seconds, or the one it answers with.
\<close>

theorem peer_with_model_least_loaded:
  assumes "hs_mesh hs = Some m" "ranges ks (ms_peers m)" "\<forall>k p. ms_peers m k = Some p \<longrightarrow> pe_ServerID p = k"
  shows "case fst (findPeerWithModel t ks ask model hs) of
      None \<Rightarrow> \<forall>p \<in> ran (ms_peers m). is_alive t p \<longrightarrow> model \<notin> shown_models ask m (refresh_peer t p)
    | Some b \<Rightarrow> (\<exists>p \<in> ran (ms_peers m). is_alive t p \<and> b = refresh_peer t p) \<and> model \<in> shown_models ask m b \<and>
        (\<forall>p \<in> ran (ms_peers m). is_alive t p \<and> model \<in> shown_models ask m (refresh_peer t p) \<longrightarrow> pe_Load b \<le> pe_Load (refresh_peer t p))"
proof -
  obtain ps m' where g: "GetAlivePeers t ks m = (ps, m')" by fastforce
  have set: "set ps = {refresh_peer t p | p. p \<in> ran (ms_peers m) \<and> is_alive t p}" using GetAlivePeers_set [OF assms(2), of t] g by simp
  have "distinct (map pe_ServerID ps)" using alive_peers_distinct [OF assms(2), of t] assms(3) g by simp
  note B = find_peer_best [OF this, where ask = ask and model = model and best = None and m = m']
  have shown: "shown_models ask m' = shown_models ask m"
    using g by (auto simp: shown_models_def GetAlivePeers_def GetCachedPeerModels_def Let_def fun_eq_iff split: prod.splits option.splits if_splits)
  have "fst (findPeerWithModel t ks ask model hs) = fst (find_peer ask model ps None m')"
    using assms(1) g by (simp add: findPeerWithModel_def upd_mesh_def mesh_peer_with_model_def case_prod_unfold)
  with B show ?thesis unfolding shown set by (auto split: option.splits)
qed

section \<open>The agent's answer\<close>

text \<open>The answer returned is not the last one: of the last five entries of the session's audit log it is the first that the assistant wrote.\<close>

lemma agent_answer_first:
  assumes "ae_db env 0 = None" "es = filter (\<lambda>e. ca_SessionID e = sid) (ad_audit (cam_db cam))"
  shows "\<exists>logs. GetAuditLogs env sid 5 cam = Inr logs \<and>
    last_response logs = (case find (\<lambda>e. ca_Role e = ''assistant'') (drop (length es - 5) es) of Some e \<Rightarrow> ca_Content e | None \<Rightarrow> [])"
  using assms by (simp add: GetAuditLogs_def GetCodingAgentAuditLogs_def sql_result_def sql_limit_def last_response_def take_rev rev_take)

text \<open>So with two questions answered in a session, the client gets the answer to the first.\<close>

lemma agent_answer_two_turns:
  assumes "ae_db env 0 = None" "filter (\<lambda>e. ca_SessionID e = sid) (ad_audit (cam_db cam)) = [q1, a1, q2, a2]"
    and "ca_Role q1 = ''user''" "ca_Role a1 = ''assistant''"
  shows "\<exists>logs. GetAuditLogs env sid 5 cam = Inr logs \<and> last_response logs = ca_Content a1"
  using agent_answer_first [OF assms(1) refl, of sid cam] assms(2-4) by simp

section \<open>The list of models\<close>

definition table_ok :: "model_table \<Rightarrow> bool" where
  "table_ok = (\<lambda>(tab, ord). set ord = dom tab \<and> (\<forall>i x. tab i = Some x \<longrightarrow> oml_ID x = i))"

lemma put_model_ok: "table_ok tab \<Longrightarrow> table_ok (put_model t owner i tab)" "table_ok tab \<Longrightarrow> table_ok (add_model t owner i tab)"
  by (auto simp: table_ok_def add_model_def put_model_def openai_model_def split: prod.splits if_splits)

lemma foldl_models_ok:
  "table_ok tab \<Longrightarrow> table_ok (foldl (\<lambda>tab i. put_model t owner i tab) tab is)"
  "table_ok tab \<Longrightarrow> table_ok (foldl (\<lambda>tab i. add_model t owner i tab) tab is)"
  by (induction "is" arbitrary: tab) (simp_all add: put_model_ok)

lemma put_models_ord: "snd (foldl (\<lambda>tab i. put_model t owner i tab) tab is) = snd tab @ is"
  by (induction "is" arbitrary: tab) (auto simp: put_model_def split: prod.splits)

lemma add_model_ord:
  "table_ok tab \<Longrightarrow> distinct (snd tab) \<Longrightarrow> distinct (snd (add_model t owner i tab))" "set (snd tab) \<subseteq> set (snd (add_model t owner i tab))"
  "table_ok tab \<Longrightarrow> i \<in> set (snd (add_model t owner i tab))"
  by (auto simp: add_model_def put_model_def table_ok_def split: prod.splits)

lemma foldl_add_ord:
  "table_ok tab \<Longrightarrow> distinct (snd tab) \<Longrightarrow> distinct (snd (foldl (\<lambda>tab i. add_model t owner i tab) tab is)) \<and>
     set (snd tab) \<union> set is \<subseteq> set (snd (foldl (\<lambda>tab i. add_model t owner i tab) tab is))"
proof (induction "is" arbitrary: tab)
  case (Cons i "is")
  from Cons.IH [OF put_model_ok(2) [OF Cons.prems(1)] add_model_ord(1) [OF Cons.prems], of t owner i] show ?case
    using add_model_ord(2) [of tab t owner i] add_model_ord(3) [OF Cons.prems(1), of i t owner] by auto
qed simp

lemma add_model_prefix: "\<exists>r. snd (add_model t owner i tab) = snd tab @ r"
  by (auto simp: add_model_def put_model_def split: prod.splits)

lemma foldl_add_prefix: "\<exists>r. snd (foldl (\<lambda>tab i. add_model t owner i tab) tab is) = snd tab @ r"
proof (induction "is" arbitrary: tab)
  case (Cons i "is")
  show ?case using Cons.IH [of "add_model t owner i tab"] add_model_prefix [of t owner i tab] by auto
qed simp

lemma peer_models_prefix: "\<exists>r. snd (fst (peer_models t ask ps tab m)) = snd tab @ r"
proof (induction ps arbitrary: tab m)
  case (Cons p ps)
  obtain t1 t2 f where a: "ask p = (t1, t2, f)" by (metis prod.exhaust)
  obtain models m' where g: "GetCachedPeerModels t1 t2 f p m = (models, m')" by fastforce
  let ?tab = "foldl (\<lambda>tab i. add_model t (pe_ServerID p) i tab) tab models"
  show ?case using Cons.IH [of ?tab m'] foldl_add_prefix [of t "pe_ServerID p" tab models] by (auto simp: a g)
qed simp

lemma peer_models_ok:
  assumes "table_ok tab" "distinct (snd tab)"
  shows "table_ok (fst (peer_models t ask ps tab m)) \<and> distinct (snd (fst (peer_models t ask ps tab m))) \<and>
    set (snd tab) \<subseteq> set (snd (fst (peer_models t ask ps tab m)))"
  using assms
proof (induction ps arbitrary: tab m)
  case (Cons p ps)
  obtain t1 t2 f where a: "ask p = (t1, t2, f)" by (metis prod.exhaust)
  obtain models m' where g: "GetCachedPeerModels t1 t2 f p m = (models, m')" by fastforce
  let ?tab = "foldl (\<lambda>tab i. add_model t (pe_ServerID p) i tab) tab models"
  have "table_ok ?tab" "distinct (snd ?tab)" "set (snd tab) \<subseteq> set (snd ?tab)"
    using foldl_models_ok(2) [OF Cons.prems(1)] foldl_add_ord [OF Cons.prems] by auto
  then show ?case using Cons.IH [of ?tab m'] by (auto simp: a g)
qed simp

text \<open>
  The list of models names every model of the local Ollama, in its order and first, and the configured default model; no model twice,
  provided Ollama names none twice.
\<close>

theorem models_listed:
  assumes "distinct (case tags of Some ms \<Rightarrow> ms | None \<Rightarrow> [])"
  shows "\<exists>ms rest. fst (handleOpenAIListModels t ks ask tags hs) = ReplyJSON ms \<and> distinct (map oml_ID ms) \<and>
    map oml_ID ms = (case tags of Some names \<Rightarrow> names | None \<Rightarrow> []) @ rest \<and> sc_OllamaModel (hs_cfg hs) \<in> set (map oml_ID ms)"
proof -
  let ?names = "case tags of Some ms \<Rightarrow> ms | None \<Rightarrow> []"
  define tab1 where "tab1 = foldl (\<lambda>tab i. put_model t ''local'' i tab) (Map.empty, []) ?names"
  have ok1: "table_ok tab1" "snd tab1 = ?names"
    using foldl_models_ok(1) [of "(Map.empty, [])"] put_models_ord [of t "''local''" "(Map.empty, [])"] by (simp_all add: tab1_def table_ok_def)
  obtain tab2 hs' where u: "upd_mesh (\<lambda>m. case GetAlivePeers t ks m of (peers, m') \<Rightarrow> peer_models t ask peers tab1 m') tab1 hs = (tab2, hs')" by fastforce
  have d1: "distinct (snd tab1)" using assms ok1(2) by simp
  have "table_ok tab2 \<and> distinct (snd tab2) \<and> (\<exists>r. snd tab2 = snd tab1 @ r)"
    using u ok1(1) d1 peer_models_ok [OF ok1(1) d1] peer_models_prefix [of t ask _ tab1]
    by (auto simp: upd_mesh_def case_prod_unfold split: option.splits)
  then obtain r where ok2: "table_ok tab2" "distinct (snd tab2)" "snd tab2 = snd tab1 @ r" by blast
  let ?def = "sc_OllamaModel (hs_cfg hs)"
  obtain tab ord where a: "add_model t ''local'' ?def tab2 = (tab, ord)" by fastforce
  have ok: "table_ok (tab, ord)" "distinct ord" "?def \<in> set ord" "\<exists>r'. ord = snd tab2 @ r'"
    using put_model_ok(2) [OF ok2(1), of t "''local''" ?def] add_model_ord(1) [OF ok2(1,2), of t "''local''" ?def]
      add_model_ord(3) [OF ok2(1), of ?def t "''local''"] a by (auto simp: add_model_def put_model_def split: prod.splits if_splits)
  let ?ms = "concat (map (\<lambda>i. case tab i of Some x \<Rightarrow> [x] | None \<Rightarrow> []) ord)"
  have "map oml_ID (concat (map (\<lambda>i. case tab i of Some x \<Rightarrow> [x] | None \<Rightarrow> []) is)) = is" if "set is \<subseteq> dom tab" for "is"
    using that ok(1) by (induction "is") (auto simp: table_ok_def)
  then have ids: "map oml_ID ?ms = ord" using ok(1) by (simp add: table_ok_def)
  have "fst (handleOpenAIListModels t ks ask tags hs) = ReplyJSON ?ms"
    by (simp add: handleOpenAIListModels_def tab1_def [symmetric] u a)
  then show ?thesis using ids ok(2-4) ok1(2) ok2(3) by (intro exI [of _ ?ms]) (auto simp del: map_concat)
qed

section \<open>Witnesses\<close>

theorem models_listed_witness:
  "\<exists>ms rest. fst (handleOpenAIListModels 0 [''p''] (\<lambda>p. (0, 0, Some [''phi3''])) (Some [''qwen'']) (sample_server 2)) = ReplyJSON ms \<and>
     map oml_ID ms = [''qwen''] @ rest \<and> ''llama3'' \<in> set (map oml_ID ms)"
  using models_listed [of "Some [''qwen'']" 0 "[''p'']" "\<lambda>p. (0, 0, Some [''phi3''])" "sample_server 2"]
  by (auto simp: sample_server_def)

theorem stream_relayed_witness:
  "\<exists>frames. handleOpenAIStreamWithEndpoint 0 [] (\<lambda>p. (0, 0, None))
       (\<lambda>u b. StreamLines [Some \<lparr>ok_Content = ''he'', ok_Done = False\<rparr>, None, Some \<lparr>ok_Content = ''y'', ok_Done = False\<rparr>, Some \<lparr>ok_Content = [], ok_Done = True\<rparr>])
       (\<lambda>u b. StreamFails []) True ''m'' ''http://x'' [] (sample_server 2) = (ReplyJSON frames, sample_server 2) \<and>
     concat (map (\<lambda>f. case f of ContentChunk h' c \<Rightarrow> c | _ \<Rightarrow> []) frames) = ''hey'' \<and> last frames = DoneFrame"
  using stream_relayed [of True "\<lambda>u b. StreamLines [Some \<lparr>ok_Content = ''he'', ok_Done = False\<rparr>, None, Some \<lparr>ok_Content = ''y'', ok_Done = False\<rparr>,
      Some \<lparr>ok_Content = [], ok_Done = True\<rparr>]" "''http://x''" "''m''" "[]" _ 0 "[]" "\<lambda>p. (0, 0, None)" "\<lambda>u b. StreamFails []" "sample_server 2"]
  by (auto simp: until_done_def)


theorem peer_with_model_least_loaded_witness:
  "fst (findPeerWithModel 0 [''p''] (\<lambda>p. (0, 0, Some [''phi3''])) ''phi3'' (sample_server 2)) = Some (refresh_peer 0 (sample_peer ''p'' 1))"
proof -
  let ?m = "sample_mesh ''s'' [sample_peer ''p'' 1]"
  have m: "hs_mesh (sample_server 2) = Some ?m" "ms_peers ?m = [''p'' \<mapsto> sample_peer ''p'' 1]" "ms_peerModels ?m = Map.empty"
    by (simp_all add: sample_server_def sample_mesh_def sample_peer_def new_peer_def NewMeshDiscovery_def)
  have p: "pe_ServerID (sample_peer ''p'' 1) = ''p''" "is_alive 0 (sample_peer ''p'' 1)"
    by (simp_all add: sample_peer_def new_peer_def is_alive_def)
  have s: "''phi3'' \<in> shown_models (\<lambda>p. (0, 0, Some [''phi3''])) ?m q" for q
    using m(3) by (simp add: shown_models_def GetCachedPeerModels_def fetchPeerModelNames_def Let_def)
  have r: "ranges [''p''] (ms_peers ?m)" "\<forall>k p. ms_peers ?m k = Some p \<longrightarrow> pe_ServerID p = k" using m(2) p(1) by (auto simp: ranges_def)
  from peer_with_model_least_loaded [OF m(1) r, where t = 0 and ask = "\<lambda>p. (0, 0, Some [''phi3''])" and model = "''phi3''"] m(2) p s show ?thesis
    by (auto split: option.splits)
qed

definition sample_chat :: OpenAIChatRequest where
  "sample_chat = \<lparr>oreq_Model = ''m'', oreq_Messages = [\<lparr>om_Role = ''system'', om_Content = ''be brief'', om_ToolCalls = None, om_ToolCallID = []\<rparr>,
     \<lparr>om_Role = ''user'', om_Content = ''hi'', om_ToolCalls = None, om_ToolCallID = []\<rparr>], oreq_Stream = True, oreq_Temperature = None,
     oreq_MaxTokens = None, oreq_TopP = None, oreq_Tools = [], oreq_ToolChoice = None\<rparr>"

definition sample_chat_env :: chat_env where
  "sample_chat_env = \<lparr>ce_t = 0, ce_ks = [], ce_ns = [], ce_ms = \<lambda>n. [],
     ce_net = \<lparr>on_ks = [], on_ask = \<lambda>p. (0, 0, None), on_fmt = \<lambda>j. [], on_peer = \<lambda>p b. Inl [], on_ollama = \<lambda>b. Inl [], on_server = ''s''\<rparr>,
     ce_ollama = \<lambda>u b. StreamLines [], ce_peer = \<lambda>u b. StreamFails [], ce_flush = True, ce_create = sample_agent_env, ce_after = sample_agent_env,
     ce_calls = \<lambda>ms. [], ce_ja = 0\<rparr>"

theorem system_prompt_ignored_witness:
  "handleOpenAIChatCompletions sample_chat_env ''POST'' (Some (Some sample_chat)) (sample_server 2)
   = handleOpenAIChatCompletions sample_chat_env ''POST'' (Some (Some (sample_chat\<lparr>oreq_Messages :=
       [\<lparr>om_Role = ''system'', om_Content = ''be verbose'', om_ToolCalls = None, om_ToolCallID = []\<rparr>,
        \<lparr>om_Role = ''user'', om_Content = ''hi'', om_ToolCalls = None, om_ToolCallID = []\<rparr>]\<rparr>))) (sample_server 2)"
proof -
  let ?m = "\<lparr>om_Role = ''system'', om_Content = ''be brief'', om_ToolCalls = None, om_ToolCallID = []\<rparr>"
  let ?u = "\<lparr>om_Role = ''user'', om_Content = ''hi'', om_ToolCalls = None, om_ToolCallID = []\<rparr>"
  have l: "to_lower ''system'' = ''system''" by code_simp
  have fr: "\<exists>f. fst (handleOpenAIChatCompletions sample_chat_env ''POST'' (Some (Some (sample_chat\<lparr>oreq_Messages := [?m\<lparr>om_Content := c\<rparr>, ?u]\<rparr>)))
      (sample_server 2)) = ChatFrames f" for c
    by (simp add: handleOpenAIChatCompletions_def prepare_chat_def sample_chat_def case_prod_unfold Let_def)
  have c0: "sample_chat = sample_chat\<lparr>oreq_Messages := [?m\<lparr>om_Content := ''be brief''\<rparr>, ?u]\<rparr>" by (simp add: sample_chat_def)
  from system_prompt_ignored [of "[]" ?m "''be verbose''" sample_chat "[?u]" "sample_server 2" _ sample_chat_env, OF _ _ _ _ _ _ refl]
    fr [of "''be brief''", folded c0] fr [of "''be verbose''"]
  show ?thesis by (auto simp: l sample_chat_def split: prod.splits)
qed

definition peer_penv :: provider_env where
  "peer_penv = (sample_penv 0)\<lparr>pp_tags := (\<lambda>u. if u = ''http://peer:11434'' then Some [(''qwen'', 1)] else None)\<rparr>"

theorem peer_model_sent_home_witness:
  "fst (selectBestModel 5 [] [] (\<lambda>n. []) ''http://localhost:11434'' ''qwen'' (hs_modelRegistry (snd (handleNodes peer_penv [''p''] (sample_server 2)))))
     = (''qwen'', ''http://localhost:11434'', False)"
proof -
  let ?hs = "sample_server 2" let ?m = "sample_mesh ''s'' [sample_peer ''p'' 1]"
  have m: "hs_mesh ?hs = Some ?m" "ms_peers ?m = [''p'' \<mapsto> sample_peer ''p'' 1]" "sc_OllamaURL (hs_cfg ?hs) = ''http://localhost:11434''"
    by (simp_all add: sample_server_def sample_mesh_def sample_peer_def new_peer_def NewMeshDiscovery_def)
  have e: "expired_nodes (pp_time peer_penv) (hs_provider ?hs)" "pp_time peer_penv = 0"
    by (simp_all add: expired_nodes_def sample_server_def sample_pm_def NewProviderManager_def peer_penv_def sample_penv_def)
  have al: "is_alive 0 (sample_peer ''p'' 1)" by (simp add: sample_peer_def new_peer_def is_alive_def)
  obtain peers hs1 where g: "getPeers (pp_time peer_penv) [''p''] ?hs = (peers, hs1)" by fastforce
  then have p: "refresh_peer 0 (sample_peer ''p'' 1) \<in> set peers"
    using m al by (auto simp: getPeers_def upd_mesh_def GetAlivePeers_def e(2) split: prod.splits)
  have cfg: "hs_cfg (snd (handleNodes peer_penv [''p''] ?hs)) = hs_cfg ?hs"
    using g by (auto simp: handleNodes_def upd_provider_def getPeers_def upd_mesh_def split: prod.splits option.splits)
  show ?thesis
    using peer_model_sent_home [OF e(1) g p, where host = "''peer''" and found_models = "[(''qwen'', 1)]" and name = "''qwen''"
        and t = 5 and ks' = "[]" and ns = "[]" and ms = "\<lambda>n. []", OF _ _ _ prod.collapse [symmetric]] m(3) cfg
    by (simp add: peer_penv_def sample_penv_def)
qed

end
