(* ===== verification/Audit_Trail.thy ===== *)
theory Audit_Trail
  imports Agent_DB
begin

text \<open>
  The audit trail of requests (\<^verbatim>\<open>hive-server-go/audit.go\<close>): events are appended to a buffer by the request handlers and written to
  the table \<^verbatim>\<open>request_audit_trail\<close> by one background loop. The model keeps the points at which the two interleave: an append and
  the wake-up that follows it are two steps, and so are the loop's receiving, taking the buffer and each insertion. The theory
  shows that no event is lost or written twice or out of order, that the loop is woken for every event and ends its work,
  what is read back of an event, and that the detail of a request shows the first request and the first responses.

  \<open>json_codec\<close> is the JSON text of a map and its reading, as in \<open>Agent_DB\<close>; the request body arrives decoded.
\<close>

section \<open>Events\<close>

record AuditEvent =
  ev_ID :: int
  ev_RequestID :: string
  ev_ParentID :: string
  ev_EventType :: string
  ev_Category :: string
  ev_Method :: string
  ev_Path :: string
  ev_StatusCode :: int
  ev_ClientID :: string
  ev_AgentType :: string
  ev_Model :: string
  ev_JobType :: string
  ev_JobID :: string
  ev_Content :: string
  ev_Query :: string
  ev_Prompt :: string
  ev_Overrides :: "jobj option"
  ev_DurationMs :: real
  ev_TokenCount :: int
  ev_ServedBy :: string
  ev_Metadata :: "jobj option"
  ev_ErrorMessage :: string
  ev_CreatedAt :: gotime

text \<open>The zero value of the structure, from which each literal below sets some fields.\<close>

definition no_event :: AuditEvent where
  "no_event = \<lparr>ev_ID = 0, ev_RequestID = [], ev_ParentID = [], ev_EventType = [], ev_Category = [], ev_Method = [],
     ev_Path = [], ev_StatusCode = 0, ev_ClientID = [], ev_AgentType = [], ev_Model = [], ev_JobType = [], ev_JobID = [],
     ev_Content = [], ev_Query = [], ev_Prompt = [], ev_Overrides = None, ev_DurationMs = 0, ev_TokenCount = 0,
     ev_ServedBy = [], ev_Metadata = None, ev_ErrorMessage = [], ev_CreatedAt = 0\<rparr>"

text \<open>
  \<^verbatim>\<open>randomHex\<close> reads the clock once per digit. \<open>nanos\<close> are these readings.
\<close>

definition randomHex :: "gotime list \<Rightarrow> string" where
  "randomHex nanos = map (\<lambda>t. ''0123456789abcdef'' ! nat (t mod 16)) nanos"

definition generateRequestID :: "gotime \<Rightarrow> gotime list \<Rightarrow> string" where
  "generateRequestID now nanos = ''req_'' @ millis now @ ''_'' @ randomHex nanos"

section \<open>The manager\<close>

record audit_row =
  aw_event :: AuditEvent
  aw_overrides :: string
  aw_metadata :: string
  aw_created :: real

text \<open>
  \<open>at_senders\<close> counts the calls of \<^verbatim>\<open>LogEvent\<close> that have appended and not yet sent to \<^verbatim>\<open>flushCh\<close>; \<open>at_flushCh\<close> says that its one
  slot is full, \<open>at_stopCh\<close> that the channel is closed. The loop waits in its \<^verbatim>\<open>select\<close>, has been woken, is writing the events
  it took, or has returned; the flag says that it was woken by \<^verbatim>\<open>stopCh\<close>.
\<close>

datatype loop_state = LoopWaiting | LoopWoken bool | LoopWriting "AuditEvent list" bool | LoopDone

record AuditTrailManager =
  at_table :: "audit_row list"
  at_buffer :: "AuditEvent list"
  at_flushCh :: bool
  at_stopCh :: bool
  at_loop :: loop_state
  at_senders :: nat
  at_serverID :: string

definition NewAuditTrailManager :: "audit_row list \<Rightarrow> string \<Rightarrow> AuditTrailManager" where
  "NewAuditTrailManager table sid = \<lparr>at_table = table, at_buffer = [], at_flushCh = False, at_stopCh = False,
     at_loop = LoopWaiting, at_senders = 0, at_serverID = sid\<rparr>"

definition stamp :: "gotime \<Rightarrow> string \<Rightarrow> AuditEvent \<Rightarrow> AuditEvent" where
  "stamp now rid e =
     (let e1 = (if ev_CreatedAt e = 0 then e\<lparr>ev_CreatedAt := now\<rparr> else e)
      in if ev_RequestID e1 = [] then e1\<lparr>ev_RequestID := rid\<rparr> else e1)"

definition log_append :: "gotime \<Rightarrow> string \<Rightarrow> AuditEvent \<Rightarrow> AuditTrailManager \<Rightarrow> AuditTrailManager" where
  "log_append now rid e s = s\<lparr>at_buffer := at_buffer s @ [stamp now rid e], at_senders := Suc (at_senders s)\<rparr>"

definition log_signal :: "AuditTrailManager \<Rightarrow> AuditTrailManager" where
  "log_signal s = s\<lparr>at_flushCh := True, at_senders := at_senders s - 1\<rparr>"

definition LogEvent :: "gotime \<Rightarrow> string \<Rightarrow> AuditEvent \<Rightarrow> AuditTrailManager \<Rightarrow> AuditTrailManager" where
  "LogEvent now rid e s = log_signal (log_append now rid e s)"

section \<open>What is logged\<close>

text \<open>
  A request body, decoded: \<open>None\<close> when there is none or it is no JSON object, \<open>Some None\<close> for the JSON value \<^verbatim>\<open>null\<close>, which leaves a
  nil map.
\<close>

type_synonym decoded = "jobj option option"

definition body_of :: "decoded \<Rightarrow> jobj" where
  "body_of d = (case d of Some (Some m) \<Rightarrow> m | _ \<Rightarrow> [])"

definition last_content :: "jobj \<Rightarrow> string option" where
  "last_content m = (case get_arr m ''messages'' of
     None \<Rightarrow> None
   | Some msgs \<Rightarrow> if msgs = [] then None else case last msgs of JObj o' \<Rightarrow> get_str o' ''content'' | _ \<Rightarrow> None)"

text \<open>A later source is used only while nothing was found.\<close>

definition or_else :: "string \<Rightarrow> string option \<Rightarrow> string" where
  "or_else s alt = (if s = [] then (case alt of Some t \<Rightarrow> t | None \<Rightarrow> s) else s)"

definition payload_of :: "jobj \<Rightarrow> jobj" where
  "payload_of b = (case get_obj b ''payload'' of None \<Rightarrow> [] | Some p \<Rightarrow> p)"

definition request_prompt :: "jobj \<Rightarrow> string" where
  "request_prompt b =
     (let p0 = str_or_empty (get_str b ''prompt'');
          p1 = or_else p0 (get_str (payload_of b) ''prompt'');
          p2 = or_else p1 (last_content (payload_of b))
      in or_else p2 (last_content b))"

definition request_model :: "jobj \<Rightarrow> string" where
  "request_model b = or_else (str_or_empty (get_str b ''model'')) (get_str (payload_of b) ''model'')"

definition audit_category :: "string \<Rightarrow> string" where
  "audit_category path =
     (if has_prefix path ''/api/agent'' then ''coding_agent''
      else if has_prefix path ''/v1/'' then ''openai_compat''
      else if has_prefix path ''/api/jobs'' then ''job_queue''
      else if has_prefix path ''/api/peers'' then ''mesh''
      else ''system'')"

record audit_request =
  au_Method :: string
  au_Path :: string
  au_RemoteAddr :: string
  au_UserAgent :: string
  au_body :: decoded

definition request_event :: "string \<Rightarrow> audit_request \<Rightarrow> string \<Rightarrow> AuditEvent" where
  "request_event requestID r clientID =
     (let b = body_of (au_body r)
      in no_event\<lparr>ev_RequestID := requestID, ev_EventType := ''request'', ev_Category := audit_category (au_Path r),
          ev_Method := au_Method r, ev_Path := au_Path r, ev_ClientID := clientID, ev_Model := request_model b,
          ev_JobType := str_or_empty (get_str b ''job_type''), ev_Query := str_or_empty (get_str b ''query''),
          ev_Prompt := request_prompt b,
          ev_Overrides := (case au_body r of None \<Rightarrow> Some [] | Some m \<Rightarrow> m),
          ev_Metadata := Some [(''remote_addr'', JStr (au_RemoteAddr r)), (''user_agent'', JStr (au_UserAgent r))]\<rparr>)"

definition LogRequest ::
  "gotime \<Rightarrow> string \<Rightarrow> audit_request \<Rightarrow> string \<Rightarrow> AuditTrailManager \<Rightarrow> string \<times> AuditTrailManager" where
  "LogRequest now requestID r clientID s = (requestID, LogEvent now [] (request_event requestID r clientID) s)"

definition choice_content :: "jobj \<Rightarrow> string option" where
  "choice_content b = (case get_arr b ''choices'' of
     Some (JObj c # _) \<Rightarrow> (case get_obj c ''message'' of Some m \<Rightarrow> get_str m ''content'' | None \<Rightarrow> None)
   | _ \<Rightarrow> None)"

definition response_content :: "jobj \<Rightarrow> string" where
  "response_content b = (case choice_content b of Some c \<Rightarrow> c | None \<Rightarrow> str_or_empty (get_str b ''content''))"

definition response_tokens :: "jobj \<Rightarrow> int" where
  "response_tokens b = (case get_obj b ''usage'' of
     None \<Rightarrow> 0
   | Some u \<Rightarrow> (case get_num u ''total_tokens'' of Some x \<Rightarrow> trunc_float x | None \<Rightarrow> 0))"

definition response_event :: "string \<Rightarrow> int \<Rightarrow> decoded \<Rightarrow> real \<Rightarrow> string \<Rightarrow> AuditEvent" where
  "response_event requestID statusCode d durationMs sid =
     no_event\<lparr>ev_RequestID := requestID, ev_EventType := ''response'', ev_StatusCode := statusCode,
       ev_Content := response_content (body_of d), ev_TokenCount := response_tokens (body_of d),
       ev_DurationMs := durationMs, ev_ServedBy := sid\<rparr>"

definition LogResponse ::
  "gotime \<Rightarrow> string \<Rightarrow> string \<Rightarrow> int \<Rightarrow> decoded \<Rightarrow> real \<Rightarrow> AuditTrailManager \<Rightarrow> AuditTrailManager" where
  "LogResponse now rid requestID statusCode d durationMs s =
     LogEvent now rid (response_event requestID statusCode d durationMs (at_serverID s)) s"

definition LogJobEvent ::
  "gotime \<Rightarrow> string \<Rightarrow> string \<Rightarrow> string \<Rightarrow> string \<Rightarrow> string \<Rightarrow> string \<Rightarrow> jobj option \<Rightarrow> AuditTrailManager \<Rightarrow> AuditTrailManager" where
  "LogJobEvent now rid requestID jobID jobType model eventType metadata s =
     LogEvent now rid (no_event\<lparr>ev_RequestID := requestID, ev_EventType := eventType, ev_Category := ''job_queue'',
       ev_JobID := jobID, ev_JobType := jobType, ev_Model := model, ev_Metadata := metadata\<rparr>) s"

definition LogForwardEvent ::
  "gotime \<Rightarrow> string \<Rightarrow> string \<Rightarrow> string \<Rightarrow> string \<Rightarrow> string \<Rightarrow> AuditTrailManager \<Rightarrow> AuditTrailManager" where
  "LogForwardEvent now rid requestID peerID model eventType s =
     LogEvent now rid (no_event\<lparr>ev_RequestID := requestID, ev_EventType := eventType, ev_Category := ''mesh'',
       ev_Model := model, ev_Metadata := Some [(''peer_id'', JStr peerID)]\<rparr>) s"

definition LogError :: "gotime \<Rightarrow> string \<Rightarrow> string \<Rightarrow> string \<Rightarrow> jobj option \<Rightarrow> AuditTrailManager \<Rightarrow> AuditTrailManager" where
  "LogError now rid requestID errorMsg metadata s =
     LogEvent now rid (no_event\<lparr>ev_RequestID := requestID, ev_EventType := ''error'', ev_ErrorMessage := errorMsg,
       ev_Metadata := metadata\<rparr>) s"

section \<open>Writing to the table\<close>

text \<open>
  A nil map is written as \<^verbatim>\<open>null\<close> and read back as nil; a text that does not decode leaves the empty map.
\<close>

definition map_text :: "json_codec \<Rightarrow> jobj option \<Rightarrow> string" where
  "map_text jc m = (case m of None \<Rightarrow> ''null'' | Some o' \<Rightarrow> jc_enc jc o')"

definition text_map :: "json_codec \<Rightarrow> string \<Rightarrow> jobj option" where
  "text_map jc t = (if t = ''null'' then None else Some (case jc_dec jc t of None \<Rightarrow> [] | Some o' \<Rightarrow> o'))"

definition store :: "json_codec \<Rightarrow> int \<Rightarrow> AuditEvent \<Rightarrow> audit_row" where
  "store jc i e = \<lparr>aw_event = e\<lparr>ev_ID := i, ev_Overrides := None, ev_Metadata := None, ev_CreatedAt := 0\<rparr>,
     aw_overrides = map_text jc (ev_Overrides e), aw_metadata = map_text jc (ev_Metadata e),
     aw_created = of_int (ev_CreatedAt e div second)\<rparr>"

text \<open>The next automatic key, in a table from which nothing is ever deleted.\<close>

definition next_id :: "audit_row list \<Rightarrow> int" where
  "next_id table = int (length table) + 1"

definition insert_event :: "json_codec \<Rightarrow> string option \<Rightarrow> AuditEvent \<Rightarrow> AuditTrailManager \<Rightarrow> AuditTrailManager" where
  "insert_event jc err e s = (case err of
     Some _ \<Rightarrow> s
   | None \<Rightarrow> s\<lparr>at_table := at_table s @ [store jc (next_id (at_table s)) e]\<rparr>)"

text \<open>What the loop does after a flush.\<close>

definition loop_next :: "bool \<Rightarrow> loop_state" where
  "loop_next stopping = (if stopping then LoopDone else LoopWaiting)"

definition flush_take :: "bool \<Rightarrow> AuditTrailManager \<Rightarrow> AuditTrailManager" where
  "flush_take stopping s =
     (if at_buffer s = [] then s\<lparr>at_loop := loop_next stopping\<rparr>
      else s\<lparr>at_buffer := [], at_loop := LoopWriting (at_buffer s) stopping\<rparr>)"

definition flush_insert ::
  "json_codec \<Rightarrow> string option \<Rightarrow> AuditEvent \<Rightarrow> AuditEvent list \<Rightarrow> bool \<Rightarrow> AuditTrailManager \<Rightarrow> AuditTrailManager" where
  "flush_insert jc err e es stopping s =
     (insert_event jc err e s)\<lparr>at_loop := (if es = [] then loop_next stopping else LoopWriting es stopping)\<rparr>"

text \<open>\<^verbatim>\<open>close\<close> of a closed channel panics: \<open>None\<close>.\<close>

definition audit_Stop :: "AuditTrailManager \<Rightarrow> AuditTrailManager option" where
  "audit_Stop s = (if at_stopCh s then None else Some (s\<lparr>at_stopCh := True\<rparr>))"

text \<open>A whole flush with nothing in between, \<open>errs\<close> the engine's answers.\<close>

fun insert_all :: "json_codec \<Rightarrow> string option list \<Rightarrow> AuditEvent list \<Rightarrow> AuditTrailManager \<Rightarrow> AuditTrailManager" where
  "insert_all jc errs [] s = s"
| "insert_all jc errs (e # es) s =
     insert_all jc (tl errs) es (insert_event jc (if errs = [] then None else hd errs) e s)"

definition flush :: "json_codec \<Rightarrow> string option list \<Rightarrow> AuditTrailManager \<Rightarrow> AuditTrailManager" where
  "flush jc errs s = (if at_buffer s = [] then s else insert_all jc errs (at_buffer s) (s\<lparr>at_buffer := []\<rparr>))"

datatype audit_label =
    AuAppend gotime string AuditEvent
  | AuSignal
  | AuWake
  | AuTick
  | AuStopped
  | AuTake
  | AuInsert "string option" AuditEvent
  | AuClose

inductive audit_step :: "json_codec \<Rightarrow> AuditTrailManager \<Rightarrow> audit_label \<Rightarrow> AuditTrailManager \<Rightarrow> bool" for jc where
  au_append: "audit_step jc s (AuAppend now rid e) (log_append now rid e s)"
| au_signal: "0 < at_senders s \<Longrightarrow> audit_step jc s AuSignal (log_signal s)"
| au_wake: "at_loop s = LoopWaiting \<Longrightarrow> at_flushCh s \<Longrightarrow>
    audit_step jc s AuWake (s\<lparr>at_flushCh := False, at_loop := LoopWoken False\<rparr>)"
| au_tick: "at_loop s = LoopWaiting \<Longrightarrow> audit_step jc s AuTick (s\<lparr>at_loop := LoopWoken False\<rparr>)"
| au_stopped: "at_loop s = LoopWaiting \<Longrightarrow> at_stopCh s \<Longrightarrow> audit_step jc s AuStopped (s\<lparr>at_loop := LoopWoken True\<rparr>)"
| au_take: "at_loop s = LoopWoken b \<Longrightarrow> audit_step jc s AuTake (flush_take b s)"
| au_insert: "at_loop s = LoopWriting (e # es) b \<Longrightarrow> audit_step jc s (AuInsert err e) (flush_insert jc err e es b s)"
| au_close: "audit_Stop s = Some s' \<Longrightarrow> audit_step jc s AuClose s'"

inductive audit_run :: "json_codec \<Rightarrow> AuditTrailManager \<Rightarrow> audit_label list \<Rightarrow> AuditTrailManager \<Rightarrow> bool" for jc where
  audit_nil: "audit_run jc s [] s"
| audit_snoc: "audit_run jc s ls s1 \<Longrightarrow> audit_step jc s1 l s2 \<Longrightarrow> audit_run jc s (ls @ [l]) s2"

section \<open>Nothing is lost\<close>

fun logged_by :: "audit_label \<Rightarrow> AuditEvent list" where
  "logged_by (AuAppend now rid e) = [stamp now rid e]"
| "logged_by _ = []"

fun tried_by :: "audit_label \<Rightarrow> AuditEvent list" where
  "tried_by (AuInsert _ e) = [e]"
| "tried_by _ = []"

fun stored_by :: "audit_label \<Rightarrow> AuditEvent list" where
  "stored_by (AuInsert None e) = [e]"
| "stored_by _ = []"

definition in_hand :: "AuditTrailManager \<Rightarrow> AuditEvent list" where
  "in_hand s = (case at_loop s of LoopWriting es _ \<Rightarrow> es | _ \<Rightarrow> [])"

lemmas audit_op_defs = log_append_def log_signal_def flush_take_def flush_insert_def insert_event_def loop_next_def
  audit_Stop_def in_hand_def

lemma audit_step_conserves:
  "audit_step jc s l s' \<Longrightarrow> in_hand s @ at_buffer s @ logged_by l = tried_by l @ in_hand s' @ at_buffer s'"
  by (induction rule: audit_step.induct)
    (auto simp: audit_op_defs split: option.splits loop_state.splits if_splits)

text \<open>The rows that a list of events becomes in a table that has \<open>n\<close> rows.\<close>

fun stored_rows :: "json_codec \<Rightarrow> int \<Rightarrow> AuditEvent list \<Rightarrow> audit_row list" where
  "stored_rows jc n [] = []"
| "stored_rows jc n (e # es) = store jc (n + 1) e # stored_rows jc (n + 1) es"

lemma stored_rows_append:
  "stored_rows jc n (es @ fs) = stored_rows jc n es @ stored_rows jc (n + int (length es)) fs"
  by (induction es arbitrary: n) (simp_all add: algebra_simps)

lemma length_stored_rows [simp]: "length (stored_rows jc n es) = length es"
  by (induction es arbitrary: n) auto

lemma audit_step_table:
  "audit_step jc s l s' \<Longrightarrow> at_table s' = at_table s @ stored_rows jc (int (length (at_table s))) (stored_by l)"
  by (induction rule: audit_step.induct)
    (auto simp: audit_op_defs next_id_def split: option.splits if_splits)

lemma audit_run_conserves:
  "audit_run jc s ls s' \<Longrightarrow>
     in_hand s @ at_buffer s @ concat (map logged_by ls) = concat (map tried_by ls) @ in_hand s' @ at_buffer s'"
proof (induction rule: audit_run.induct)
  case (audit_snoc s ls s1 l s2)
  then show ?case using audit_step_conserves [OF audit_snoc.hyps(2)] by simp (metis append.assoc)
qed simp

lemma audit_run_table:
  "audit_run jc s ls s' \<Longrightarrow>
     at_table s' = at_table s @ stored_rows jc (int (length (at_table s))) (concat (map stored_by ls))"
proof (induction rule: audit_run.induct)
  case (audit_snoc s ls s1 l s2)
  then show ?case using audit_step_table [OF audit_snoc.hyps(2)] by (simp add: stored_rows_append)
qed simp

text \<open>
  C5. No audit event is lost, duplicated or reordered, whatever the interleaving of the handlers that log, the loop that
  writes, its ticker and the shutdown: the events logged so far are, in their order, those whose insertion was tried, those
  the loop holds and those in the buffer; and the table has gained exactly the tried events the engine accepted, in
  the same order, with consecutive keys.
\<close>

theorem audit_nothing_lost:
  assumes "audit_run jc (NewAuditTrailManager table sid) ls s"
  shows "concat (map logged_by ls) = concat (map tried_by ls) @ in_hand s @ at_buffer s \<and>
    at_table s = table @ stored_rows jc (int (length table)) (concat (map stored_by ls))"
  using audit_run_conserves [OF assms] audit_run_table [OF assms]
  by (simp add: NewAuditTrailManager_def in_hand_def)

section \<open>The loop is woken and ends its work\<close>

definition woken :: "AuditTrailManager \<Rightarrow> bool" where
  "woken s \<longleftrightarrow> at_flushCh s \<or> 0 < at_senders s \<or> at_loop s \<in> {LoopWoken True, LoopWoken False, LoopDone}"

definition audit_ok :: "AuditTrailManager \<Rightarrow> bool" where
  "audit_ok s \<longleftrightarrow> (at_buffer s \<noteq> [] \<longrightarrow> woken s) \<and> (\<forall>b. at_loop s \<noteq> LoopWriting [] b)"

definition audit_moves :: "json_codec \<Rightarrow> AuditTrailManager \<Rightarrow> AuditTrailManager \<Rightarrow> bool" where
  "audit_moves jc s t \<longleftrightarrow> (\<exists>l. audit_step jc s l t)"

lemma audit_ok_step: "audit_step jc s l s' \<Longrightarrow> audit_ok s \<Longrightarrow> audit_ok s'"
  by (induction rule: audit_step.induct)
    (auto simp: audit_ok_def woken_def audit_op_defs split: option.splits if_splits)

interpretation audit_loop: invariant_system "audit_moves jc" audit_ok
  by unfold_locales (auto simp: audit_moves_def intro: audit_ok_step)

lemma audit_run_moves: "audit_run jc s ls s' \<Longrightarrow> (audit_moves jc)\<^sup>*\<^sup>* s s'"
  by (induction rule: audit_run.induct) (auto simp: audit_moves_def intro: rtranclp.rtrancl_into_rtrancl)

lemma audit_reach_ok: "audit_run jc (NewAuditTrailManager table sid) ls s \<Longrightarrow> audit_ok s"
  using audit_loop.invar_reach [OF audit_run_moves]
  by (auto simp: audit_ok_def NewAuditTrailManager_def)

text \<open>The loop's own steps, its ticker apart, and how many of them can be left.\<close>

fun loop_label :: "audit_label \<Rightarrow> bool" where
  "loop_label AuWake = True"
| "loop_label AuStopped = True"
| "loop_label AuTake = True"
| "loop_label (AuInsert _ _) = True"
| "loop_label _ = False"

definition loop_weight :: "loop_state \<Rightarrow> nat" where
  "loop_weight l = (case l of
     LoopWaiting \<Rightarrow> 3 | LoopWoken b \<Rightarrow> if b then 2 else 5 | LoopWriting es b \<Rightarrow> (if b then 1 else 4) + length es | LoopDone \<Rightarrow> 0)"

definition audit_work :: "AuditTrailManager \<Rightarrow> nat" where
  "audit_work s = 2 * length (at_buffer s) + loop_weight (at_loop s) + (if at_flushCh s then 3 else 0)"

lemma loop_step_work: "audit_step jc s l s' \<Longrightarrow> loop_label l \<Longrightarrow> audit_work s' < audit_work s"
  by (induction rule: audit_step.induct)
    (auto simp: audit_work_def loop_weight_def audit_op_defs neq_Nil_conv split: option.splits if_splits)

lemma loop_step_senders: "audit_step jc s l s' \<Longrightarrow> loop_label l \<Longrightarrow> at_senders s' = at_senders s"
  by (induction rule: audit_step.induct) (auto simp: audit_op_defs split: option.splits)

lemma loop_run_work:
  "audit_run jc s ls s' \<Longrightarrow> list_all loop_label ls \<Longrightarrow>
     length ls + audit_work s' \<le> audit_work s \<and> at_senders s' = at_senders s"
proof (induction rule: audit_run.induct)
  case (audit_snoc s ls s1 l s2)
  then show ?case
    using loop_step_work [OF audit_snoc.hyps(2)] loop_step_senders [OF audit_snoc.hyps(2)] by simp
qed simp

lemma loop_stuck:
  assumes "audit_ok s" "at_senders s = 0" "\<And>l s'. loop_label l \<Longrightarrow> \<not> audit_step jc s l s'"
  shows "at_loop s = LoopDone \<or> in_hand s = [] \<and> at_buffer s = []"
proof (cases "at_loop s")
  case LoopWaiting
  then have "\<not> at_flushCh s" using au_wake [of s jc] assms(3) [of AuWake] by auto
  with LoopWaiting assms(1,2) show ?thesis by (auto simp: audit_ok_def woken_def in_hand_def)
next
  case (LoopWoken b)
  then show ?thesis using au_take [of s b jc] assms(3) [of AuTake] by auto
next
  case (LoopWriting es b)
  with assms(1) obtain e es' where "es = e # es'" by (cases es) (auto simp: audit_ok_def)
  with LoopWriting show ?thesis using au_insert [of s e es' b jc None] assms(3) [of "AuInsert None e"] by auto
qed simp

lemma audit_run_append: "audit_run jc s1 ls' s2 \<Longrightarrow> audit_run jc s ls s1 \<Longrightarrow> audit_run jc s (ls @ ls') s2"
proof (induction arbitrary: rule: audit_run.induct)
  case (audit_snoc s1 ls' s2 l s3)
  then show ?case using audit_run.audit_snoc [of jc s "ls @ ls'"] by simp
qed simp

text \<open>
  C18. The background loop ends its work without waiting for its ticker: once the handlers are done logging, its own steps
  are bounded in number, and when none is left to take every event has been offered to the table, unless the loop has
  returned after a shutdown.
\<close>

theorem audit_loop_drains:
  assumes "audit_run jc (NewAuditTrailManager table sid) ls s" "at_senders s = 0"
    and "audit_run jc s ls' s'" "list_all loop_label ls'"
  shows "length ls' \<le> audit_work s \<and>
    ((\<exists>l s''. loop_label l \<and> audit_step jc s' l s'') \<or> at_loop s' = LoopDone \<or>
     concat (map tried_by (ls @ ls')) = concat (map logged_by ls))"
proof -
  have work: "length ls' + audit_work s' \<le> audit_work s" "at_senders s' = 0"
    using loop_run_work [OF assms(3,4)] assms(2) by auto
  have run: "audit_run jc (NewAuditTrailManager table sid) (ls @ ls') s'"
    by (rule audit_run_append [OF assms(3,1)])
  have "logged_by l = []" if "l \<in> set ls'" for l
    using assms(4) that by (cases l) (auto simp: list_all_iff)
  then have "concat (map logged_by ls') = []" by simp
  then have "concat (map logged_by ls) = concat (map tried_by (ls @ ls')) @ in_hand s' @ at_buffer s'"
    using audit_run_conserves [OF run] by (simp add: NewAuditTrailManager_def in_hand_def del: concat_eq_Nil_conv)
  then show ?thesis using loop_stuck [OF audit_reach_ok [OF run] work(2), of jc] work(1) by (metis add_leD1 append_Nil2)
qed

text \<open>After the loop has returned nothing is written any more: what is logged then stays in the buffer.\<close>

lemma late_events_unwritten:
  assumes "audit_run jc s ls s'" "at_loop s = LoopDone"
  shows "at_table s' = at_table s \<and> at_loop s' = LoopDone"
  using assms
proof (induction rule: audit_run.induct)
  case (audit_snoc s ls s1 l s2)
  from audit_snoc.hyps(2) audit_snoc.IH [OF audit_snoc.prems] show ?case
    by (cases rule: audit_step.cases) (auto simp: audit_op_defs split: if_splits)
qed simp

section \<open>Reading the table\<close>

definition read_event :: "json_codec \<Rightarrow> audit_row \<Rightarrow> AuditEvent" where
  "read_event jc r = (aw_event r)\<lparr>ev_Overrides := text_map jc (aw_overrides r), ev_Metadata := text_map jc (aw_metadata r),
     ev_CreatedAt := trunc_float (aw_created r) * second\<rparr>"

definition scanEvents :: "json_codec \<Rightarrow> audit_row list \<Rightarrow> AuditEvent list" where
  "scanEvents jc rows = map (read_event jc) rows"

definition GetRequestTimeline ::
  "json_codec \<Rightarrow> string option \<Rightarrow> audit_row sql_order \<Rightarrow> string \<Rightarrow> AuditTrailManager \<Rightarrow> string + AuditEvent list" where
  "GetRequestTimeline jc err ord requestID s =
     sql_result err (scanEvents jc (ord aw_created (filter (\<lambda>r. ev_RequestID (aw_event r) = requestID) (at_table s))))"

definition GetRecentEvents ::
  "json_codec \<Rightarrow> string option \<Rightarrow> audit_row sql_order \<Rightarrow> int \<Rightarrow> string \<Rightarrow> AuditTrailManager \<Rightarrow> string + AuditEvent list" where
  "GetRecentEvents jc err ord limit category s =
     sql_result err (scanEvents jc (sql_limit limit (ord (\<lambda>r. - aw_created r)
       (if category \<noteq> [] then filter (\<lambda>r. ev_Category (aw_event r) = category) (at_table s) else at_table s))))"

definition searched_columns :: "AuditEvent \<Rightarrow> string list" where
  "searched_columns e = [ev_Content e, ev_Query e, ev_Prompt e, ev_Model e, ev_Path e, ev_Method e, ev_JobType e, ev_ErrorMessage e]"

definition SearchEvents ::
  "json_codec \<Rightarrow> string option \<Rightarrow> audit_row sql_order \<Rightarrow> string \<Rightarrow> int \<Rightarrow> AuditTrailManager \<Rightarrow> string + AuditEvent list" where
  "SearchEvents jc err ord searchQuery limit s =
     sql_result err (scanEvents jc (sql_limit limit (ord (\<lambda>r. - aw_created r)
       (filter (\<lambda>r. list_ex (sql_like (''%'' @ searchQuery @ ''%'')) (searched_columns (aw_event r))) (at_table s)))))"

text \<open>\<^verbatim>\<open>Seconds() * 1000\<close> of the time between the first and the last event.\<close>

definition span_ms :: "AuditEvent list \<Rightarrow> real" where
  "span_ms evs = (if 1 < length evs then of_int (ev_CreatedAt (last evs) - ev_CreatedAt (hd evs)) / of_int second * 1000 else 0)"

fun count_types :: "(string \<rightharpoonup> int) \<Rightarrow> AuditEvent list \<Rightarrow> (string \<rightharpoonup> int)" where
  "count_types m [] = m"
| "count_types m (e # es) =
     count_types (m(ev_EventType e \<mapsto> (case m (ev_EventType e) of None \<Rightarrow> 0 | Some n \<Rightarrow> n) + 1)) es"

record RequestSummary =
  sm_request_id :: string
  sm_first_event :: gotime
  sm_last_event :: gotime
  sm_event_count :: nat
  sm_events :: "AuditEvent list"
  sm_total_duration_ms :: "real option"
  sm_event_counts :: "string \<rightharpoonup> int"

definition GetRequestSummary ::
  "json_codec \<Rightarrow> string option \<Rightarrow> audit_row sql_order \<Rightarrow> string \<Rightarrow> AuditTrailManager \<Rightarrow> string + RequestSummary option" where
  "GetRequestSummary jc err ord requestID s = (case GetRequestTimeline jc err ord requestID s of
     Inl e \<Rightarrow> Inl e
   | Inr evs \<Rightarrow> if evs = [] then Inr None
       else Inr (Some \<lparr>sm_request_id = requestID, sm_first_event = ev_CreatedAt (hd evs), sm_last_event = ev_CreatedAt (last evs),
         sm_event_count = length evs, sm_events = evs,
         sm_total_duration_ms = (if 1 < length evs then Some (span_ms evs) else None),
         sm_event_counts = count_types Map.empty evs\<rparr>))"

text \<open>The keys of the detail that may be missing are options; \<open>dt_request\<close> is the event whose columns are copied.\<close>

record RequestDetail =
  dt_request_id :: string
  dt_events :: "AuditEvent list"
  dt_total_events :: nat
  dt_request :: "AuditEvent option"
  dt_response_content :: "string option"
  dt_status_code :: "int option"
  dt_token_count :: "int option"
  dt_served_by :: "string option"
  dt_total_duration_ms :: real
  dt_event_counts :: "string \<rightharpoonup> int"

definition first_set :: "'a option \<Rightarrow> bool \<Rightarrow> 'a \<Rightarrow> 'a option" where
  "first_set old ok v = (if ok \<and> old = None then Some v else old)"

definition add_response :: "RequestDetail \<Rightarrow> AuditEvent \<Rightarrow> RequestDetail" where
  "add_response d e =
     (if ev_EventType e = ''response'' then
        d\<lparr>dt_response_content := first_set (dt_response_content d) (ev_Content e \<noteq> []) (ev_Content e),
          dt_status_code := first_set (dt_status_code d) True (ev_StatusCode e),
          dt_token_count := first_set (dt_token_count d) (0 < ev_TokenCount e) (ev_TokenCount e),
          dt_served_by := first_set (dt_served_by d) (ev_ServedBy e \<noteq> []) (ev_ServedBy e)\<rparr>
      else d)"

definition request_detail :: "string \<Rightarrow> AuditEvent list \<Rightarrow> RequestDetail" where
  "request_detail requestID evs =
     (let d0 = \<lparr>dt_request_id = requestID, dt_events = evs, dt_total_events = length evs,
            dt_request = find (\<lambda>e. ev_EventType e = ''request'') evs, dt_response_content = None, dt_status_code = None,
            dt_token_count = None, dt_served_by = None, dt_total_duration_ms = 0, dt_event_counts = Map.empty\<rparr>;
          d1 = foldl add_response d0 evs
      in d1\<lparr>dt_total_duration_ms := span_ms evs, dt_event_counts := count_types Map.empty evs\<rparr>)"

definition GetRequestDetail ::
  "json_codec \<Rightarrow> string option \<Rightarrow> audit_row sql_order \<Rightarrow> string \<Rightarrow> AuditTrailManager \<Rightarrow> string + RequestDetail option" where
  "GetRequestDetail jc err ord requestID s = (case GetRequestTimeline jc err ord requestID s of
     Inl e \<Rightarrow> Inl e
   | Inr evs \<Rightarrow> if evs = [] then Inr None else Inr (Some (request_detail requestID evs)))"

section \<open>What is read back\<close>

definition event_codec_ok :: "json_codec \<Rightarrow> AuditEvent \<Rightarrow> bool" where
  "event_codec_ok jc e \<longleftrightarrow> (\<forall>m \<in> set_option (ev_Overrides e) \<union> set_option (ev_Metadata e).
     jc_enc jc m \<noteq> ''null'' \<and> jc_dec jc (jc_enc jc m) = Some m)"

definition whole_seconds :: "AuditEvent \<Rightarrow> AuditEvent" where
  "whole_seconds e = e\<lparr>ev_CreatedAt := ev_CreatedAt e div second * second\<rparr>"

lemma text_map_roundtrip:
  "(\<And>o'. m = Some o' \<Longrightarrow> jc_enc jc o' \<noteq> ''null'' \<and> jc_dec jc (jc_enc jc o') = Some o') \<Longrightarrow> text_map jc (map_text jc m) = m"
  by (cases m) (auto simp: text_map_def map_text_def)

lemma read_store:
  "event_codec_ok jc e \<Longrightarrow> read_event jc (store jc i e) = (whole_seconds e)\<lparr>ev_ID := i\<rparr>"
  by (simp add: read_event_def store_def whole_seconds_def text_map_roundtrip event_codec_ok_def)

definition forget_ID :: "AuditEvent \<Rightarrow> AuditEvent" where
  "forget_ID e = e\<lparr>ev_ID := 0\<rparr>"

lemma read_rows:
  "list_all (event_codec_ok jc) es \<Longrightarrow>
     map (forget_ID \<circ> read_event jc) (filter (\<lambda>r. ev_RequestID (aw_event r) = rid) (stored_rows jc n es))
       = map (forget_ID \<circ> whole_seconds) (filter (\<lambda>e. ev_RequestID e = rid) es)"
  by (induction es arbitrary: n)
    (auto simp: read_store forget_ID_def store_def [of jc _ _, THEN arg_cong [where f = aw_event]])

lemma read_created: "ev_CreatedAt (read_event jc r) = trunc_float (aw_created r) * second"
  by (simp add: read_event_def)

lemma trunc_float_mono: "x \<le> y \<Longrightarrow> trunc_float x \<le> trunc_float y"
  by (auto simp: trunc_float_def floor_mono ceiling_mono) (meson ceiling_le_zero floor_mono le_floor_iff not_le order.trans zero_le_floor less_imp_le)

text \<open>
  C19. The timeline of a request is the request's history: after any run from an empty table it holds exactly the events of that
  request the engine accepted, as they were logged, in the order of time; only the fraction of a second of each time is lost,
  and with it the order of events of one second.
\<close>

theorem timeline_roundtrip:
  assumes "audit_run jc (NewAuditTrailManager [] sid) ls s" "sql_order_ok ord"
    and "list_all (event_codec_ok jc) (concat (map stored_by ls))"
  shows "\<exists>evs. GetRequestTimeline jc None ord rid s = Inr evs \<and> sorted (map ev_CreatedAt evs) \<and>
    mset (map forget_ID evs) =
      mset (map (forget_ID \<circ> whole_seconds) (filter (\<lambda>e. ev_RequestID e = rid) (concat (map stored_by ls))))"
proof -
  define rows where "rows = filter (\<lambda>r. ev_RequestID (aw_event r) = rid) (at_table s)"
  have table: "at_table s = stored_rows jc 0 (concat (map stored_by ls))"
    using audit_run_table [OF assms(1)] by (simp add: NewAuditTrailManager_def)
  have ord: "mset (ord aw_created rows) = mset rows" "sorted (map aw_created (ord aw_created rows))"
    using assms(2) by (auto simp: sql_order_ok_def)
  have "sorted (map (\<lambda>r. trunc_float (aw_created r) * second) (ord aw_created rows))"
    using ord(2) unfolding sorted_map by (rule sorted_wrt_mono_rel [rotated]) (simp add: trunc_float_mono)
  then have "sorted (map ev_CreatedAt (scanEvents jc (ord aw_created rows)))"
    by (simp add: scanEvents_def read_created comp_def)
  moreover have "mset (map (forget_ID \<circ> read_event jc) (ord aw_created rows)) = mset (map (forget_ID \<circ> read_event jc) rows)"
    using ord(1) by (metis mset_map)
  then have "mset (map forget_ID (scanEvents jc (ord aw_created rows))) =
      mset (map (forget_ID \<circ> whole_seconds) (filter (\<lambda>e. ev_RequestID e = rid) (concat (map stored_by ls))))"
    unfolding rows_def table read_rows [OF assms(3)] by (simp only: scanEvents_def map_map)
  moreover have "GetRequestTimeline jc None ord rid s = Inr (scanEvents jc (ord aw_created rows))"
    by (simp add: GetRequestTimeline_def sql_result_def rows_def)
  ultimately show ?thesis by blast
qed

lemma first_set_find:
  "first_set (case old of Some v \<Rightarrow> Some v | None \<Rightarrow> map_option f (find P es)) (P e) (f e)
     = (case old of Some v \<Rightarrow> Some v | None \<Rightarrow> map_option f (find P (es @ [e])))"
  by (induction es) (auto simp: first_set_def split: option.splits)

lemma find_snoc: "find P (es @ [e]) = (case find P es of Some x \<Rightarrow> Some x | None \<Rightarrow> if P e then Some e else None)"
  by (induction es) auto

text \<open>The first response with a property, and what the response loop has collected after some events.\<close>

definition first_response :: "(AuditEvent \<Rightarrow> bool) \<Rightarrow> AuditEvent list \<Rightarrow> AuditEvent option" where
  "first_response P es = find (\<lambda>e. ev_EventType e = ''response'' \<and> P e) es"

definition responses_of :: "AuditEvent list \<Rightarrow> RequestDetail \<Rightarrow> bool" where
  "responses_of es d \<longleftrightarrow>
     dt_response_content d = map_option ev_Content (first_response (\<lambda>e. ev_Content e \<noteq> []) es) \<and>
     dt_status_code d = map_option ev_StatusCode (first_response (\<lambda>_. True) es) \<and>
     dt_token_count d = map_option ev_TokenCount (first_response (\<lambda>e. 0 < ev_TokenCount e) es) \<and>
     dt_served_by d = map_option ev_ServedBy (first_response (\<lambda>e. ev_ServedBy e \<noteq> []) es)"

lemma add_response_step: "responses_of es d \<Longrightarrow> responses_of (es @ [e]) (add_response d e)"
  by (auto simp: responses_of_def add_response_def first_response_def find_snoc first_set_def split: option.splits)

lemma foldl_responses: "responses_of es d \<Longrightarrow> responses_of (es @ fs) (foldl add_response d fs)"
proof (induction fs arbitrary: es d)
  case (Cons e fs)
  then show ?case using Cons.IH [OF add_response_step, of es d e] by simp
qed simp

lemma foldl_response_frame:
  "dt_request (foldl add_response d fs) = dt_request d" "dt_total_events (foldl add_response d fs) = dt_total_events d"
  "dt_events (foldl add_response d fs) = dt_events d" "dt_request_id (foldl add_response d fs) = dt_request_id d"
  by (induction fs arbitrary: d) (simp_all add: add_response_def)

lemma count_types_eq:
  "count_types m es t = (let n = int (length (filter (\<lambda>e. ev_EventType e = t) es)) in
     if n = 0 then m t else Some ((case m t of None \<Rightarrow> 0 | Some k \<Rightarrow> k) + n))"
  by (induction es arbitrary: m) (auto simp: Let_def split: option.splits)

text \<open>
  The detail of a request is read off its timeline as described: the request columns from the first request event; status,
  content, token count and serving node each from the first response event that has one; and under each event type the
  number of events of that type.
\<close>

theorem request_detail_first:
  assumes "GetRequestDetail jc err ord rid s = Inr (Some d)"
  shows "GetRequestTimeline jc err ord rid s = Inr (dt_events d) \<and> dt_events d \<noteq> [] \<and>
    dt_request d = find (\<lambda>e. ev_EventType e = ''request'') (dt_events d) \<and> responses_of (dt_events d) d \<and>
    (\<forall>t. dt_event_counts d t = (let n = int (length (filter (\<lambda>e. ev_EventType e = t) (dt_events d))) in
       if n = 0 then None else Some n))"
proof -
  obtain evs where evs: "GetRequestTimeline jc err ord rid s = Inr evs" "evs \<noteq> []" "d = request_detail rid evs"
    using assms by (auto simp: GetRequestDetail_def split: sum.splits if_splits)
  define d0 where "d0 = \<lparr>dt_request_id = rid, dt_events = evs, dt_total_events = length evs,
    dt_request = find (\<lambda>e. ev_EventType e = ''request'') evs, dt_response_content = None, dt_status_code = None,
    dt_token_count = None, dt_served_by = None, dt_total_duration_ms = 0, dt_event_counts = Map.empty\<rparr>"
  have d: "d = (foldl add_response d0 evs)\<lparr>dt_total_duration_ms := span_ms evs, dt_event_counts := count_types Map.empty evs\<rparr>"
    by (simp add: evs(3) request_detail_def d0_def Let_def)
  have "responses_of [] d0" by (simp add: responses_of_def first_response_def d0_def)
  then have "responses_of evs (foldl add_response d0 evs)" using foldl_responses [of "[]" d0 evs] by simp
  then have "responses_of evs d" by (simp add: responses_of_def d)
  moreover have "dt_events d = evs" "dt_request d = find (\<lambda>e. ev_EventType e = ''request'') evs"
    by (simp_all add: d foldl_response_frame d0_def)
  moreover have "dt_event_counts d = count_types Map.empty evs" by (simp add: d)
  ultimately show ?thesis using evs(1,2) by (simp add: count_types_eq Let_def)
qed

text \<open>Times are kept in whole seconds, so a duration in the detail is a whole number of seconds.\<close>

lemma span_whole_seconds: "\<exists>k :: int. span_ms (scanEvents jc rows) = 1000 * of_int k"
proof (cases "1 < length rows")
  case True
  then have "rows \<noteq> []" by auto
  then have "span_ms (scanEvents jc rows)
      = 1000 * of_int (trunc_float (aw_created (last rows)) - trunc_float (aw_created (hd rows)))"
    using True by (simp add: span_ms_def scanEvents_def last_map hd_map read_created field_simps)
  then show ?thesis by blast
qed (simp add: span_ms_def scanEvents_def)

text \<open>A response event has no category, so no listing by category shows it.\<close>

lemma responses_uncategorised:
  "ev_Category (stamp now rid' (response_event rid code d ms sid)) = []"
  by (simp add: stamp_def response_event_def no_event_def Let_def)

text \<open>A request ID is a function of nine readings of the clock.\<close>

lemma request_ids_collide:
  "now div 1000000 = now' div 1000000 \<Longrightarrow> map (\<lambda>t. t mod 16) ts = map (\<lambda>t. t mod 16) ts' \<Longrightarrow>
     generateRequestID now ts = generateRequestID now' ts'"
proof -
  have "randomHex ts = map (\<lambda>d. ''0123456789abcdef'' ! nat d) (map (\<lambda>t. t mod 16) ts)" for ts :: "gotime list"
    by (simp add: randomHex_def comp_def)
  moreover assume "now div 1000000 = now' div 1000000" "map (\<lambda>t. t mod 16) ts = map (\<lambda>t. t mod 16) ts'"
  ultimately show ?thesis by (simp only: generateRequestID_def millis_def)
qed

section \<open>Witnesses\<close>

definition sample_event :: AuditEvent where
  "sample_event = no_event\<lparr>ev_RequestID := ''r1'', ev_EventType := ''response'', ev_StatusCode := 200\<rparr>"

definition sample_t :: gotime where
  "sample_t = 7 * second"

definition sample_labels :: "audit_label list" where
  "sample_labels = [AuAppend sample_t [] sample_event, AuSignal, AuWake, AuTake,
     AuInsert None (stamp sample_t [] sample_event)]"

definition sample_atm :: AuditTrailManager where
  "sample_atm = LogEvent sample_t [] sample_event (NewAuditTrailManager [] ''s1'')"

definition sample_codec0 :: json_codec where
  "sample_codec0 = \<lparr>jc_enc = (\<lambda>_. ''{}''), jc_dec = (\<lambda>_. Some [])\<rparr>"

definition sample_end :: AuditTrailManager where
  "sample_end = (flush sample_codec0 [] sample_atm)\<lparr>at_flushCh := False\<rparr>"

lemma sample_audit_start:
  "audit_run sample_codec0 (NewAuditTrailManager [] ''s1'') (take 2 sample_labels) sample_atm"
proof -
  have "audit_run sample_codec0 (NewAuditTrailManager [] ''s1'') ([] @ [AuAppend sample_t [] sample_event])
      (log_append sample_t [] sample_event (NewAuditTrailManager [] ''s1''))"
    by (rule audit_snoc [OF audit_nil au_append])
  then have "audit_run sample_codec0 (NewAuditTrailManager [] ''s1'') (([] @ [AuAppend sample_t [] sample_event]) @ [AuSignal])
      (log_signal (log_append sample_t [] sample_event (NewAuditTrailManager [] ''s1'')))"
    by (rule audit_snoc) (rule au_signal, simp add: log_append_def)
  then show ?thesis by (simp add: sample_labels_def sample_atm_def LogEvent_def)
qed

lemma sample_audit_loop: "audit_run sample_codec0 sample_atm (drop 2 sample_labels) sample_end"
proof -
  define e where "e = stamp sample_t [] sample_event"
  define s1 where "s1 = sample_atm\<lparr>at_flushCh := False, at_loop := LoopWoken False\<rparr>"
  have atm: "sample_atm = \<lparr>at_table = [], at_buffer = [e], at_flushCh = True, at_stopCh = False, at_loop = LoopWaiting,
      at_senders = 0, at_serverID = ''s1''\<rparr>"
    by (simp add: sample_atm_def LogEvent_def log_signal_def log_append_def NewAuditTrailManager_def e_def)
  have "audit_run sample_codec0 sample_atm ([] @ [AuWake]) s1"
    unfolding s1_def by (rule audit_snoc [OF audit_nil au_wake]) (simp_all add: atm)
  then have "audit_run sample_codec0 sample_atm (([] @ [AuWake]) @ [AuTake]) (flush_take False s1)"
    by (rule audit_snoc) (rule au_take, simp add: s1_def)
  moreover have "at_loop (flush_take False s1) = LoopWriting [e] False"
    by (simp add: flush_take_def s1_def atm)
  ultimately have "audit_run sample_codec0 sample_atm ((([] @ [AuWake]) @ [AuTake]) @ [AuInsert None e])
      (flush_insert sample_codec0 None e [] False (flush_take False s1))"
    by (rule audit_snoc [OF _ au_insert])
  moreover have "flush_insert sample_codec0 None e [] False (flush_take False s1) = sample_end"
    by (simp add: flush_insert_def flush_take_def insert_event_def sample_end_def flush_def s1_def atm next_id_def loop_next_def)
  ultimately show ?thesis by (simp add: sample_labels_def e_def)
qed

lemma sample_audit_run: "audit_run sample_codec0 (NewAuditTrailManager [] ''s1'') sample_labels sample_end"
  using audit_run_append [OF sample_audit_loop sample_audit_start] by simp

theorem audit_nothing_lost_witness:
  "at_table sample_end = stored_rows sample_codec0 0 (concat (map stored_by sample_labels)) \<and>
     concat (map stored_by sample_labels) = [stamp sample_t [] sample_event]"
  using audit_nothing_lost [OF sample_audit_run] by (simp add: sample_labels_def)

theorem audit_loop_drains_witness: "length (drop 2 sample_labels) \<le> audit_work sample_atm \<and> length (drop 2 sample_labels) = 3"
proof -
  have "at_senders sample_atm = 0"
    by (simp add: sample_atm_def LogEvent_def log_signal_def log_append_def NewAuditTrailManager_def)
  from audit_loop_drains [OF sample_audit_start this sample_audit_loop]
  show ?thesis by (simp add: sample_labels_def)
qed

lemma sample_stored: "concat (map stored_by sample_labels) = [stamp sample_t [] sample_event]"
  by (simp add: sample_labels_def)

lemma sample_codec_event: "event_codec_ok sample_codec0 (stamp sample_t [] sample_event)"
  by (simp add: event_codec_ok_def stamp_def sample_event_def no_event_def sample_t_def Let_def)

theorem timeline_roundtrip_witness:
  "\<exists>evs. GetRequestTimeline sample_codec0 None (\<lambda>k. sort_key k) ''r1'' sample_end = Inr evs \<and>
     mset (map forget_ID evs) = {#forget_ID (whole_seconds (stamp sample_t [] sample_event))#}"
proof -
  have "list_all (event_codec_ok sample_codec0) (concat (map stored_by sample_labels))"
    by (simp add: sample_stored sample_codec_event)
  moreover have "ev_RequestID (stamp sample_t [] sample_event) = ''r1''"
    by (simp add: stamp_def sample_event_def no_event_def Let_def)
  ultimately show ?thesis
    using timeline_roundtrip [OF sample_audit_run sort_key_order_ok, of "''r1''"] by (auto simp: sample_stored)
qed

theorem request_detail_first_witness:
  "\<exists>d. GetRequestDetail sample_codec0 None sort_key ''r1'' sample_end = Inr (Some d) \<and> dt_status_code d = Some 200"
proof -
  have "at_table sample_end = [store sample_codec0 1 (stamp sample_t [] sample_event)]"
    using audit_run_table [OF sample_audit_run] by (simp add: NewAuditTrailManager_def sample_stored)
  moreover have "ev_RequestID (stamp sample_t [] sample_event) = ''r1''"
    by (simp add: stamp_def sample_event_def no_event_def Let_def)
  ultimately have tl: "GetRequestTimeline sample_codec0 None sort_key ''r1'' sample_end
      = Inr [read_event sample_codec0 (store sample_codec0 1 (stamp sample_t [] sample_event))]"
    by (simp add: GetRequestTimeline_def sql_result_def scanEvents_def store_def)
  then obtain d where d: "GetRequestDetail sample_codec0 None sort_key ''r1'' sample_end = Inr (Some d)"
    by (simp add: GetRequestDetail_def)
  define e where "e = read_event sample_codec0 (store sample_codec0 1 (stamp sample_t [] sample_event))"
  have e: "ev_EventType e = ''response''" "ev_StatusCode e = 200"
    by (simp_all add: e_def read_event_def store_def stamp_def sample_event_def no_event_def Let_def)
  have "dt_events d = [e]" "responses_of (dt_events d) d"
    using request_detail_first [OF d] tl by (simp_all add: e_def)
  with e have "dt_status_code d = Some 200" by (simp add: responses_of_def first_response_def)
  with d show ?thesis by blast
qed

end
