(* ===== verification/Hive_Routes.thy ===== *)
theory Hive_Routes
  imports Hive_Prelude
begin

text \<open>
  The routes of the hive server (\<^verbatim>\<open>RegisterRoutes\<close> in \<^verbatim>\<open>hive-server-go/handlers.go\<close> and the routes \<^verbatim>\<open>main.go\<close> adds) and the rules by which
  Go's \<^verbatim>\<open>http.ServeMux\<close> chooses among them: a pattern has an optional method, literal and wildcard segments and, when it ends in a
  slash, matches the whole subtree; of the patterns that match a request the most specific one is taken, and registering two patterns
  that overlap without one being more specific panics. The theory shows that registration does not panic and that every
  request has one most specific route, so that the order of registration does not matter.
\<close>

section \<open>Patterns\<close>

datatype segment = Lit string | Wild string

record pattern =
  pt_method :: "string option"
  pt_segs :: "segment list"
  pt_subtree :: bool

definition parse_segment :: "string \<Rightarrow> segment" where
  "parse_segment s = (if s \<noteq> [] \<and> hd s = CHR ''{'' \<and> last s = CHR ''}'' then Wild (butlast (tl s)) else Lit s)"

text \<open>The segments of a path, after its leading slash.\<close>

definition path_segs :: "string \<Rightarrow> string list" where
  "path_segs p = str_split (tl p) ''/''"

definition parse_path :: "string option \<Rightarrow> string \<Rightarrow> pattern" where
  "parse_path meth p =
     (let segs = path_segs p
      in if last segs = [] then \<lparr>pt_method = meth, pt_segs = map parse_segment (butlast segs), pt_subtree = True\<rparr>
         else \<lparr>pt_method = meth, pt_segs = map parse_segment segs, pt_subtree = False\<rparr>)"

definition parse_pattern :: "string \<Rightarrow> pattern" where
  "parse_pattern s = (case str_split s '' '' of [m, p] \<Rightarrow> parse_path (Some m) p | _ \<Rightarrow> parse_path None s)"

text \<open>A wildcard takes one nonempty segment; a subtree has at least one more segment, which may be empty.\<close>

fun seg_match :: "segment \<Rightarrow> string \<Rightarrow> bool" where
  "seg_match (Lit s) x = (x = s)"
| "seg_match (Wild _) x = (x \<noteq> [])"

fun path_match :: "segment list \<Rightarrow> bool \<Rightarrow> string list \<Rightarrow> bool" where
  "path_match [] r xs = (if r then xs \<noteq> [] else xs = [])"
| "path_match (p # ps) r [] = False"
| "path_match (p # ps) r (x # xs) = (seg_match p x \<and> path_match ps r xs)"

text \<open>A pattern for \<^verbatim>\<open>GET\<close> also takes \<^verbatim>\<open>HEAD\<close>.\<close>

definition method_takes :: "string \<Rightarrow> string \<Rightarrow> bool" where
  "method_takes m x \<longleftrightarrow> x = m \<or> m = ''GET'' \<and> x = ''HEAD''"

definition pattern_match :: "pattern \<Rightarrow> string \<Rightarrow> string list \<Rightarrow> bool" where
  "pattern_match p m xs \<longleftrightarrow> (case pt_method p of None \<Rightarrow> True | Some m' \<Rightarrow> method_takes m' m) \<and> path_match (pt_segs p) (pt_subtree p) xs"

section \<open>Which pattern is more specific\<close>

text \<open>\<open>covers p q\<close>: every request \<open>q\<close> matches, \<open>p\<close> matches too. \<open>overlaps\<close>: some request may match both.\<close>

fun seg_covers :: "segment \<Rightarrow> segment \<Rightarrow> bool" where
  "seg_covers (Lit s) (Lit t) = (s = t)"
| "seg_covers (Lit s) (Wild _) = False"
| "seg_covers (Wild _) (Lit t) = (t \<noteq> [])"
| "seg_covers (Wild _) (Wild _) = True"

fun seg_overlaps :: "segment \<Rightarrow> segment \<Rightarrow> bool" where
  "seg_overlaps (Lit s) (Lit t) = (s = t)"
| "seg_overlaps (Lit s) (Wild _) = (s \<noteq> [])"
| "seg_overlaps (Wild _) (Lit t) = (t \<noteq> [])"
| "seg_overlaps (Wild _) (Wild _) = True"

fun path_covers :: "segment list \<Rightarrow> bool \<Rightarrow> segment list \<Rightarrow> bool \<Rightarrow> bool" where
  "path_covers [] r qs r' = (if r then qs \<noteq> [] \<or> r' else qs = [] \<and> \<not> r')"
| "path_covers (p # ps) r [] r' = False"
| "path_covers (p # ps) r (q # qs) r' = (seg_covers p q \<and> path_covers ps r qs r')"

fun path_overlaps :: "segment list \<Rightarrow> bool \<Rightarrow> segment list \<Rightarrow> bool \<Rightarrow> bool" where
  "path_overlaps [] r qs r' = (if r then qs \<noteq> [] \<or> r' else qs = [] \<and> \<not> r')"
| "path_overlaps (p # ps) r [] r' = r'"
| "path_overlaps (p # ps) r (q # qs) r' = (seg_overlaps p q \<and> path_overlaps ps r qs r')"

definition method_covers :: "string option \<Rightarrow> string option \<Rightarrow> bool" where
  "method_covers p q = (case p of None \<Rightarrow> True | Some m \<Rightarrow> (case q of None \<Rightarrow> False | Some m' \<Rightarrow> method_takes m m'))"

definition method_overlaps :: "string option \<Rightarrow> string option \<Rightarrow> bool" where
  "method_overlaps p q = (case p of None \<Rightarrow> True | Some m \<Rightarrow> (case q of None \<Rightarrow> True | Some m' \<Rightarrow> method_takes m m' \<or> method_takes m' m))"

definition covers :: "pattern \<Rightarrow> pattern \<Rightarrow> bool" where
  "covers p q \<longleftrightarrow> method_covers (pt_method p) (pt_method q) \<and> path_covers (pt_segs p) (pt_subtree p) (pt_segs q) (pt_subtree q)"

definition overlaps :: "pattern \<Rightarrow> pattern \<Rightarrow> bool" where
  "overlaps p q \<longleftrightarrow> method_overlaps (pt_method p) (pt_method q) \<and> path_overlaps (pt_segs p) (pt_subtree p) (pt_segs q) (pt_subtree q)"

definition conflicts :: "pattern \<Rightarrow> pattern \<Rightarrow> bool" where
  "conflicts p q \<longleftrightarrow> overlaps p q \<and> covers p q = covers q p"

text \<open>Registering one pattern after the other; \<open>None\<close> is a panic.\<close>

fun register_patterns :: "pattern list \<Rightarrow> pattern list \<Rightarrow> pattern list option" where
  "register_patterns reg [] = Some reg"
| "register_patterns reg (p # ps) = (if list_ex (conflicts p) reg then None else register_patterns (reg @ [p]) ps)"

fun dispatch :: "pattern list \<Rightarrow> string \<Rightarrow> string list \<Rightarrow> pattern option" where
  "dispatch [] m xs = None"
| "dispatch (p # ps) m xs = (case dispatch ps m xs of
     None \<Rightarrow> if pattern_match p m xs then Some p else None
   | Some b \<Rightarrow> if pattern_match p m xs \<and> covers b p then Some p else Some b)"

section \<open>The routes\<close>

definition RegisterRoutes :: "(string \<times> string) list" where
  "RegisterRoutes =
    [(''/'', ''handleRoot''),
     (''/api/status'', ''handleStatus''),
     (''/api/clients'', ''handleClients''),
     (''POST /api/clients/register'', ''handleClientRegister''),
     (''POST /api/clients/{client_id}/heartbeat'', ''handleClientHeartbeatPath''),
     (''POST /api/clients/unregister'', ''handleClientUnregister''),
     (''/api/jobs'', ''handleJobs''),
     (''GET /api/jobs/{job_id}'', ''handleJobGet''),
     (''POST /api/jobs/forward'', ''handleJobForward''),
     (''/api/queue'', ''handleQueue''),
     (''/api/peers'', ''handlePeers''),
     (''POST /api/peers/register'', ''handlePeerRegister''),
     (''POST /api/peers/introduce'', ''handlePeerIntroduce''),
     (''POST /api/peers/scan'', ''handlePeerScan''),
     (''/api/peers/diagnostics'', ''handleMeshDiagnostics''),
     (''/api/ollama/health'', ''handleOllamaHealth''),
     (''/api/nodes'', ''handleNodes''),
     (''/api/providers'', ''handleProviders''),
     (''/api/models'', ''handleModels''),
     (''/api/logs'', ''handleLogs''),
     (''POST /api/logs/clear'', ''handleLogsClear''),
     (''/api/reports/usage'', ''handleUsageReport''),
     (''/api/reports/usage/recent'', ''handleUsageRecent''),
     (''/api/reports/usage/timeseries'', ''handleUsageTimeSeries''),
     (''/api/reports/usage/histogram'', ''handleUsageHistogram''),
     (''POST /api/agent/sessions'', ''handleAgentSessionCreate''),
     (''GET /api/agent/sessions'', ''handleAgentSessionList''),
     (''GET /api/agent/sessions/{session_id}'', ''handleAgentSessionGet''),
     (''DELETE /api/agent/sessions/{session_id}'', ''handleAgentSessionDelete''),
     (''POST /api/agent/sessions/{session_id}/archive'', ''handleAgentSessionArchive''),
     (''POST /api/agent/sessions/{session_id}/messages'', ''handleAgentMessageSend''),
     (''GET /api/agent/sessions/{session_id}/messages'', ''handleAgentMessagesGet''),
     (''GET /api/agent/sessions/{session_id}/context'', ''handleAgentContextStats''),
     (''GET /api/agent/sessions/{session_id}/audit'', ''handleAgentAuditLogs''),
     (''GET /api/agent/search'', ''handleAgentSearch''),
     (''GET /api/agent/models'', ''handleAgentModels''),
     (''POST /v1/chat/completions'', ''handleOpenAIChatCompletions''),
     (''GET /v1/models'', ''handleOpenAIListModels''),
     (''GET /v1/health'', ''handleOpenAIHealth'')]"

definition main_routes :: "(string \<times> string) list" where
  "main_routes =
    [(''GET /metrics'', ''handleMetrics''),
     (''GET /api/jobs/stream'', ''handleJobStream''),
     (''GET /api/audit/recent'', ''handleAuditRecent''),
     (''GET /api/audit/search'', ''handleAuditSearch''),
     (''GET /api/audit/timeline/{request_id}'', ''handleAuditTimeline''),
     (''GET /api/audit/summary/{request_id}'', ''handleAuditSummary''),
     (''GET /api/audit/detail/{request_id}'', ''handleAuditDetail'')]"

definition hive_patterns :: "pattern list" where
  "hive_patterns = map (parse_pattern \<circ> fst) (RegisterRoutes @ main_routes)"

lemma path_covers_sound: "path_covers ps r qs r' \<Longrightarrow> path_match qs r' xs \<Longrightarrow> path_match ps r xs"
proof (induction ps r qs r' arbitrary: xs rule: path_covers.induct)
  case (1 r qs r')
  then show ?case by (cases qs; cases xs) (auto split: if_splits)
next
  case (3 p ps r q qs r')
  then show ?case by (cases xs; cases p; cases q) auto
qed simp

lemma path_overlaps_complete: "path_match ps r xs \<Longrightarrow> path_match qs r' xs \<Longrightarrow> path_overlaps ps r qs r'"
proof (induction ps r qs r' arbitrary: xs rule: path_overlaps.induct)
  case (1 r qs r')
  then show ?case by (cases qs; cases xs) (auto split: if_splits)
next
  case (2 p ps r r')
  then show ?case by (cases xs) (auto split: if_splits)
next
  case (3 p ps r q qs r')
  then show ?case by (cases xs; cases p; cases q) auto
qed

lemma covers_sound: "covers p q \<Longrightarrow> pattern_match q m xs \<Longrightarrow> pattern_match p m xs"
  by (auto simp: covers_def pattern_match_def method_covers_def method_takes_def intro: path_covers_sound split: option.splits)

lemma overlaps_complete: "pattern_match p m xs \<Longrightarrow> pattern_match q m xs \<Longrightarrow> overlaps p q"
  by (auto simp: overlaps_def pattern_match_def method_overlaps_def method_takes_def intro: path_overlaps_complete split: option.splits)

lemma seg_covers_trans: "seg_covers a b \<Longrightarrow> seg_covers b c \<Longrightarrow> seg_covers a c"
  by (cases a; cases b; cases c) auto

lemma path_covers_trans: "path_covers ps r qs r' \<Longrightarrow> path_covers qs r' us u \<Longrightarrow> path_covers ps r us u"
proof (induction ps r qs r' arbitrary: us rule: path_covers.induct)
  case (1 r qs r')
  then show ?case by (cases qs; cases us) (auto split: if_splits)
next
  case (3 p ps r q qs r')
  then show ?case by (cases us) (auto intro: seg_covers_trans)
qed simp

lemma covers_trans: "covers p q \<Longrightarrow> covers q u \<Longrightarrow> covers p u"
  by (auto simp: covers_def method_covers_def method_takes_def intro: path_covers_trans split: option.splits)

section \<open>One route for each request\<close>

lemma conflicts_sym: "conflicts p q = conflicts q p"
proof -
  have seg: "seg_overlaps a b = seg_overlaps b a" for a b by (cases a; cases b) auto
  have "path_overlaps ps r qs r' = path_overlaps qs r' ps r" for ps r qs r'
  proof (induction ps r qs r' rule: path_overlaps.induct)
    case (1 r qs r')
    then show ?case by (cases qs) auto
  qed (auto simp: seg)
  moreover have "method_overlaps a b = method_overlaps b a" for a b by (auto simp: method_overlaps_def split: option.splits)
  ultimately show ?thesis by (auto simp: conflicts_def overlaps_def)
qed

lemma dispatch_None: "dispatch ps m xs = None \<longleftrightarrow> (\<forall>p \<in> set ps. \<not> pattern_match p m xs)"
  by (induction ps) (auto split: option.splits)

lemma dispatch_Some:
  assumes "sorted_wrt (\<lambda>p q. \<not> conflicts p q) ps" "dispatch ps m xs = Some b"
  shows "b \<in> set ps \<and> pattern_match b m xs \<and> (\<forall>q \<in> set ps. pattern_match q m xs \<longrightarrow> covers q b \<or> q = b)"
  using assms
proof (induction ps arbitrary: b)
  case (Cons p ps)
  show ?case
  proof (cases "dispatch ps m xs")
    case None
    with Cons.prems(2) have "b = p" "pattern_match p m xs" by (auto split: if_splits)
    with None show ?thesis by (auto simp: dispatch_None)
  next
    case (Some c)
    with Cons have c: "c \<in> set ps" "pattern_match c m xs" "\<forall>q \<in> set ps. pattern_match q m xs \<longrightarrow> covers q c \<or> q = c"
      by auto
    show ?thesis
    proof (cases "pattern_match p m xs \<and> covers c p")
      case True
      with Cons.prems(2) Some have "b = p" by simp
      with True c show ?thesis by (auto intro: covers_trans)
    next
      case False
      with Cons.prems(2) Some have b: "b = c" by simp
      have "covers p c" if "pattern_match p m xs"
      proof -
        have "\<not> conflicts p c" "overlaps p c" using Cons.prems(1) c that by (auto intro: overlaps_complete)
        with False that show ?thesis by (auto simp: conflicts_def)
      qed
      with b c show ?thesis by auto
    qed
  qed
qed simp

lemma register_patterns_Some:
  "register_patterns reg ps = Some reg' \<Longrightarrow> sorted_wrt (\<lambda>p q. \<not> conflicts p q) reg \<Longrightarrow>
     reg' = reg @ ps \<and> sorted_wrt (\<lambda>p q. \<not> conflicts p q) reg'"
proof (induction reg ps rule: register_patterns.induct)
  case (2 reg p ps)
  then have "\<not> list_ex (conflicts p) reg" by (auto split: if_splits)
  then have "sorted_wrt (\<lambda>p q. \<not> conflicts p q) (reg @ [p])"
    using "2.prems"(2) conflicts_sym by (auto simp: sorted_wrt_append list_ex_iff)
  with 2 show ?case by (auto split: if_splits)
qed simp

lemma hive_patterns_register: "register_patterns [] hive_patterns = Some hive_patterns"
  by code_simp

lemma root_matches: "\<exists>p \<in> set hive_patterns. xs \<noteq> [] \<longrightarrow> pattern_match p m xs"
proof -
  have "parse_pattern ''/'' \<in> set hive_patterns" by (simp add: hive_patterns_def RegisterRoutes_def)
  moreover have "parse_pattern ''/'' = \<lparr>pt_method = None, pt_segs = [], pt_subtree = True\<rparr>" by code_simp
  ultimately show ?thesis by (intro bexI [of _ "parse_pattern ''/''"]) (simp_all add: pattern_match_def)
qed

lemma covers_refl: "covers p p"
proof -
  have "seg_covers a a" for a by (cases a) auto
  then have "path_covers ps r ps r" for ps r by (induction ps) auto
  then show ?thesis by (auto simp: covers_def method_covers_def method_takes_def split: option.split)
qed

lemma sorted_wrt_pairwise:
  "distinct ps \<Longrightarrow> (\<And>p q. p \<in> set ps \<Longrightarrow> q \<in> set ps \<Longrightarrow> p \<noteq> q \<Longrightarrow> R p q) \<Longrightarrow> sorted_wrt R ps"
  by (induction ps) auto

lemma sorted_wrt_any:
  assumes "sorted_wrt R ps" "p \<in> set ps" "q \<in> set ps" "p \<noteq> q"
  shows "R p q \<or> R q p"
  using assms by (induction ps) auto

lemma hive_patterns_distinct: "distinct hive_patterns"
  by code_simp

lemma hive_no_conflict:
  assumes "p \<in> set hive_patterns" "q \<in> set hive_patterns" "p \<noteq> q"
  shows "\<not> conflicts p q"
proof -
  have "sorted_wrt (\<lambda>p q. \<not> conflicts p q) hive_patterns"
    using register_patterns_Some [OF hive_patterns_register] by simp
  from sorted_wrt_any [OF this assms] show ?thesis by (simp add: conflicts_sym)
qed

text \<open>
  C40. The routes fit together: registering them does not panic, and for every request there is one route that takes it, the same for
  every order in which the routes could have been registered; it matches the request, and every other route
  that matches is less specific.
\<close>

theorem routes_unambiguous:
  assumes "xs \<noteq> []"
  shows "register_patterns [] hive_patterns = Some hive_patterns \<and>
    (\<exists>b \<in> set hive_patterns. pattern_match b m xs \<and> (\<forall>q \<in> set hive_patterns. pattern_match q m xs \<longrightarrow> covers q b) \<and>
      (\<forall>ps. mset ps = mset hive_patterns \<longrightarrow> dispatch ps m xs = Some b))"
proof -
  have D: "\<exists>b. dispatch ps m xs = Some b \<and> b \<in> set hive_patterns \<and> pattern_match b m xs \<and>
      (\<forall>q \<in> set hive_patterns. pattern_match q m xs \<longrightarrow> covers q b)" if "mset ps = mset hive_patterns" for ps
  proof -
    have set: "set ps = set hive_patterns" using that by (metis set_mset_mset)
    have "distinct ps" using that hive_patterns_distinct by (metis distinct_count_atmost_1 set)
    then have "sorted_wrt (\<lambda>p q. \<not> conflicts p q) ps"
      by (rule sorted_wrt_pairwise) (use set hive_no_conflict in auto)
    moreover obtain b where "dispatch ps m xs = Some b"
      using root_matches [of xs m] assms dispatch_None [of ps m xs] set by (cases "dispatch ps m xs") auto
    ultimately show ?thesis using dispatch_Some [of ps m xs b] set covers_refl by metis
  qed
  from D [OF refl] obtain b where b: "b \<in> set hive_patterns" "pattern_match b m xs"
      "\<forall>q \<in> set hive_patterns. pattern_match q m xs \<longrightarrow> covers q b" by blast
  have "dispatch ps m xs = Some b" if "mset ps = mset hive_patterns" for ps
  proof -
    from D [OF that] obtain c where c: "dispatch ps m xs = Some c" "c \<in> set hive_patterns" "pattern_match c m xs"
        "\<forall>q \<in> set hive_patterns. pattern_match q m xs \<longrightarrow> covers q c" by blast
    have "c = b"
    proof (rule ccontr)
      assume "c \<noteq> b"
      moreover have "covers c b" "covers b c" "overlaps c b" using b c overlaps_complete by blast+
      ultimately show False using hive_no_conflict [OF c(2) b(1)] by (simp add: conflicts_def)
    qed
    with c(1) show ?thesis by simp
  qed
  with b hive_patterns_register show ?thesis by blast
qed

theorem routes_unambiguous_witness:
  "\<exists>b \<in> set hive_patterns. pattern_match b ''GET'' [''api'', ''jobs'', ''stream''] \<and>
     dispatch hive_patterns ''GET'' [''api'', ''jobs'', ''stream''] = Some b \<and> b = parse_pattern ''GET /api/jobs/stream''"
proof -
  have "dispatch hive_patterns ''GET'' [''api'', ''jobs'', ''stream''] = Some (parse_pattern ''GET /api/jobs/stream'')" by code_simp
  with routes_unambiguous [of "[''api'', ''jobs'', ''stream'']" "''GET''"] show ?thesis by auto
qed

text \<open>
  The handler of a request. The subtree of the root takes what no other route does, so a request with a wrong method for its path
  goes to the root handler, which answers not found.
\<close>

definition route_of :: "string \<Rightarrow> string \<Rightarrow> string option" where
  "route_of m p = Option.bind (dispatch hive_patterns m (path_segs p))
     (\<lambda>b. map_option snd (find (\<lambda>(s, h). parse_pattern s = b) (RegisterRoutes @ main_routes)))"

lemma sample_routes:
  "route_of ''POST'' ''/api/jobs/forward'' = Some ''handleJobForward''"
  "route_of ''GET'' ''/api/jobs/forward'' = Some ''handleJobGet''"
  "route_of ''PUT'' ''/api/jobs/forward'' = Some ''handleRoot''"
  "route_of ''DELETE'' ''/api/agent/sessions/s1'' = Some ''handleAgentSessionDelete''"
  by code_simp+

end
