(* ===== verification/Hive_Main.thy ===== *)
theory Hive_Main
  imports Rate_Auth Audit_Trail Hive_Routes Hive_Server
begin

text \<open>
  The start of the hive server and its middleware (\<^verbatim>\<open>hive-server-go/main.go\<close>, \<^verbatim>\<open>config.go\<close>, \<^verbatim>\<open>hardware.go\<close>): how the configuration file
  and the environment become the settings, and the stack of handlers every request passes: authentication, logging, CORS, audit,
  routes. A handler is the list of the calls it makes on its response writer; \<open>sent\<close> is what the client gets of
  them. The theory shows that every request that is let through and not exempt leaves one request and one response event with
  the same ID and the status the client got, that no other request leaves any, and what a configuration file that cannot be
  read means for authentication.
\<close>

section \<open>Settings\<close>

text \<open>\<^verbatim>\<open>Sscanf\<close> with \<^verbatim>\<open>%d\<close>: leading blanks, a sign, and as many digits as there are; the rest of the text is not looked at.\<close>

definition is_digit :: "char \<Rightarrow> bool" where
  "is_digit c \<longleftrightarrow> digit_value c \<noteq> None"

definition scan_d :: "string \<Rightarrow> int option" where
  "scan_d s =
     (let s1 = dropWhile (\<lambda>c. is_space c \<and> c \<noteq> CHR 0x0A) s;
          neg = (s1 \<noteq> [] \<and> hd s1 = CHR ''-'');
          s2 = (if s1 \<noteq> [] \<and> (hd s1 = CHR ''-'' \<or> hd s1 = CHR ''+'') then tl s1 else s1);
          ds = takeWhile is_digit s2
      in if ds = [] then None
         else case digits_value 0 ds of None \<Rightarrow> None | Some n \<Rightarrow> in_int64 (if neg then - int n else int n))"

record ConfigFile =
  cf_Port :: int
  cf_OllamaURL :: string
  cf_OllamaModel :: string
  cf_MaxConcurrent :: int
  cf_MaxClients :: int
  cf_ReadTimeout :: int
  cf_WriteTimeout :: int
  cf_IdleTimeout :: int
  cf_APIKey :: string
  cf_MeshEnabled :: bool
  cf_DiscoveryPort :: int
  cf_AnnounceAddress :: string
  cf_SeedPeers :: string
  cf_ModelMap :: string
  cf_DatabasePath :: string
  cf_CacheEnabled :: bool
  cf_MaxEntries :: int
  cf_TTLSeconds :: int
  cf_LoggingJSON :: bool
  cf_CustomProviders :: "string list"

datatype file_read = FileMissing | FileFailed string | FileData string

text \<open>\<open>unmarshal\<close> is the YAML library's reading of the file.\<close>

definition LoadConfigFile ::
  "(string \<Rightarrow> string) \<Rightarrow> (string \<Rightarrow> file_read) \<Rightarrow> (string \<Rightarrow> string + ConfigFile) \<Rightarrow> string \<Rightarrow> string + ConfigFile option" where
  "LoadConfigFile getenv readFile unmarshal path =
     (let p1 = (if path = [] then getenv ''HIVE_CONFIG'' else path);
          p2 = (if p1 = [] then ''hive.yaml'' else p1)
      in case readFile p2 of
           FileMissing \<Rightarrow> Inr None
         | FileFailed e \<Rightarrow> Inl (''read config: '' @ e)
         | FileData data \<Rightarrow> (case unmarshal data of Inl e \<Rightarrow> Inl (''parse config: '' @ e) | Inr cfg \<Rightarrow> Inr (Some cfg)))"

definition envOrDefault :: "(string \<Rightarrow> string) \<Rightarrow> string \<Rightarrow> string \<Rightarrow> string" where
  "envOrDefault getenv key def = (if getenv key \<noteq> [] then getenv key else def)"

definition envOrDefaultInt :: "(string \<Rightarrow> string) \<Rightarrow> string \<Rightarrow> int \<Rightarrow> int" where
  "envOrDefaultInt getenv key def =
     (if getenv key \<noteq> [] then (case scan_d (getenv key) of Some n \<Rightarrow> n | None \<Rightarrow> def) else def)"

definition firstNonEmpty :: "string list \<Rightarrow> string" where
  "firstNonEmpty vals = (case find (\<lambda>v. v \<noteq> []) vals of Some v \<Rightarrow> v | None \<Rightarrow> [])"

definition firstNonZero :: "int list \<Rightarrow> int" where
  "firstNonZero vals = (case find (\<lambda>v. v \<noteq> 0) vals of Some v \<Rightarrow> v | None \<Rightarrow> 0)"

record settings =
  st_ollamaURL :: string
  st_ollamaModel :: string
  st_apiKey :: string
  st_serverPort :: int
  st_maxConcurrent :: int
  st_maxClients :: int
  st_readTimeout :: int
  st_writeTimeout :: int
  st_idleTimeout :: int
  st_customProviders :: "string list"

definition file_settings :: "ConfigFile option \<Rightarrow> settings" where
  "file_settings cfgFile = (case cfgFile of
     Some c \<Rightarrow> \<lparr>st_ollamaURL = firstNonEmpty [cf_OllamaURL c, ''http://localhost:11434''],
       st_ollamaModel = firstNonEmpty [cf_OllamaModel c, ''llama3.1:8b''],
       st_apiKey = cf_APIKey c,
       st_serverPort = firstNonZero [cf_Port c, 8081],
       st_maxConcurrent = firstNonZero [cf_MaxConcurrent c, 2],
       st_maxClients = firstNonZero [cf_MaxClients c, 5],
       st_readTimeout = firstNonZero [cf_ReadTimeout c, 30],
       st_writeTimeout = firstNonZero [cf_WriteTimeout c, 600],
       st_idleTimeout = firstNonZero [cf_IdleTimeout c, 120],
       st_customProviders = cf_CustomProviders c\<rparr>
   | None \<Rightarrow> \<lparr>st_ollamaURL = ''http://localhost:11434'', st_ollamaModel = ''llama3.1:8b'', st_apiKey = [],
       st_serverPort = 8081, st_maxConcurrent = 2, st_maxClients = 5, st_readTimeout = 30, st_writeTimeout = 600,
       st_idleTimeout = 120, st_customProviders = []\<rparr>)"

definition env_settings :: "(string \<Rightarrow> string) \<Rightarrow> settings \<Rightarrow> settings" where
  "env_settings getenv f =
     \<lparr>st_ollamaURL = envOrDefault getenv ''OLLAMA_BASE_URL'' (st_ollamaURL f),
      st_ollamaModel = envOrDefault getenv ''OLLAMA_MODEL'' (st_ollamaModel f),
      st_apiKey = envOrDefault getenv ''HIVE_API_KEY'' (st_apiKey f),
      st_serverPort = envOrDefaultInt getenv ''SERVER_PORT'' (st_serverPort f),
      st_maxConcurrent = envOrDefaultInt getenv ''MAX_CONCURRENT'' (st_maxConcurrent f),
      st_maxClients = envOrDefaultInt getenv ''MAX_CLIENTS'' (st_maxClients f),
      st_readTimeout = envOrDefaultInt getenv ''HTTP_READ_TIMEOUT'' (st_readTimeout f),
      st_writeTimeout = envOrDefaultInt getenv ''HTTP_WRITE_TIMEOUT'' (st_writeTimeout f),
      st_idleTimeout = envOrDefaultInt getenv ''HTTP_IDLE_TIMEOUT'' (st_idleTimeout f),
      st_customProviders = (let v = getenv ''CUSTOM_PROVIDER_URLS'' in if v \<noteq> [] then splitAndTrim v '','' else st_customProviders f)\<rparr>"

text \<open>The error of \<^verbatim>\<open>LoadConfigFile\<close> is dropped, and the file is then nil.\<close>

definition main_file :: "string + ConfigFile option \<Rightarrow> ConfigFile option" where
  "main_file r = (case r of Inl _ \<Rightarrow> None | Inr c \<Rightarrow> c)"

definition main_settings :: "(string \<Rightarrow> string) \<Rightarrow> string + ConfigFile option \<Rightarrow> settings" where
  "main_settings getenv r = env_settings getenv (file_settings (main_file r))"

text \<open>Entries and seconds of the cache, \<open>None\<close> when there is none.\<close>

definition cache_settings :: "(string \<Rightarrow> string) \<Rightarrow> ConfigFile option \<Rightarrow> (int \<times> int) option" where
  "cache_settings getenv cfgFile =
     (if getenv ''HIVE_CACHE_ENABLED'' = ''true'' then
        let entries = envOrDefaultInt getenv ''HIVE_CACHE_MAX_ENTRIES'' 1000;
            ttl = envOrDefaultInt getenv ''HIVE_CACHE_TTL_SECONDS'' 300
        in (case cfgFile of
              None \<Rightarrow> Some (entries, ttl)
            | Some c \<Rightarrow> Some (firstNonZero [cf_MaxEntries c, entries], firstNonZero [cf_TTLSeconds c, ttl]))
      else None)"

definition main_limiter :: "(string \<Rightarrow> string) \<Rightarrow> RateLimiter" where
  "main_limiter getenv = NewRateLimiter (envOrDefaultInt getenv ''HIVE_RATE_LIMIT'' 100) (60 * second)"

definition server_config :: "(string \<Rightarrow> string) \<Rightarrow> settings \<Rightarrow> ServerConfig" where
  "server_config getenv st = \<lparr>sc_OllamaURL = st_ollamaURL st, sc_OllamaModel = st_ollamaModel st,
     sc_ServerPort = st_serverPort st, sc_MaxConcurrent = st_maxConcurrent st,
     sc_MeshEnabled = (getenv ''MESH_ENABLED'' \<noteq> ''false''), sc_MaxClients = st_maxClients st,
     sc_CustomProviderURLs = st_customProviders st\<rparr>"

section \<open>Hardware\<close>

text \<open>\<open>exists\<close>: \<^verbatim>\<open>os.Stat\<close> succeeds.\<close>

definition detectNvidiaGPU :: "(string \<Rightarrow> bool) \<Rightarrow> string" where
  "detectNvidiaGPU exists = (if exists ''/usr/bin/nvidia-smi'' then ''NVIDIA GPU (detected)'' else [])"

definition detectGPUs :: "(string \<Rightarrow> bool) \<Rightarrow> jobj list" where
  "detectGPUs exists =
     (if detectNvidiaGPU exists \<noteq> [] then [[(''model'', JStr (detectNvidiaGPU exists)), (''type'', JStr ''nvidia'')]] else []) @
     (if exists ''/dev/dri/renderD128'' then [[(''model'', JStr ''DRI GPU''), (''type'', JStr ''dri'')]] else [])"

definition getHardwareInfo :: "string \<Rightarrow> string \<Rightarrow> string \<Rightarrow> (string \<Rightarrow> bool) \<Rightarrow> jobj" where
  "getHardwareInfo goos goarch hostname exists =
     [(''platform'', JStr goos), (''architecture'', JStr goarch), (''hostname'', JStr hostname)] @
     (if detectGPUs exists \<noteq> [] then [(''gpus'', JArr (map JObj (detectGPUs exists)))] else [])"

definition getAcceleratorType :: "string \<Rightarrow> (string \<Rightarrow> bool) \<Rightarrow> string" where
  "getAcceleratorType goos exists =
     (if goos = ''linux'' then
        (if detectNvidiaGPU exists \<noteq> [] then ''GPU'' else if exists ''/dev/dri/renderD128'' then ''GPU'' else ''CPU'')
      else ''CPU'')"

lemma accelerator_iff_gpus: "getAcceleratorType ''linux'' exists = ''GPU'' \<longleftrightarrow> detectGPUs exists \<noteq> []"
  by (simp add: getAcceleratorType_def detectGPUs_def detectNvidiaGPU_def)

definition detectServingType :: "(string \<Rightarrow> string) \<Rightarrow> (string \<Rightarrow> bool) \<Rightarrow> string" where
  "detectServingType getenv exists =
     (if getenv ''SERVING_TYPE'' \<noteq> [] then getenv ''SERVING_TYPE''
      else if exists ''/dev/nvidia0'' then ''GPU''
      else if exists ''/dev/dri/renderD128'' then ''GPU''
      else if length (detectNvidiaGPU exists) > 0 then ''GPU''
      else ''CPU'')"

text \<open>
  Opening the database: \<open>sql_open\<close>, \<open>ping\<close> and \<open>migrate\<close> are the engine's answers, with the error's text. That write-ahead logging or the busy timeout could
  not be set is only logged.
\<close>

definition NewDBStore ::
  "(string \<Rightarrow> string) \<Rightarrow> (string \<Rightarrow> string + 'db) \<Rightarrow> ('db \<Rightarrow> string option) \<Rightarrow> ('db \<Rightarrow> string option) \<Rightarrow> string \<Rightarrow> string + 'db" where
  "NewDBStore getenv sql_open ping migrate path =
     (let path1 = (if path = [] then getenv ''HIVE_DB_PATH'' else path);
          path2 = (if path1 = [] then ''/data/hive-server.db'' else path1)
      in case sql_open path2 of
           Inl e \<Rightarrow> Inl (''open db: '' @ e)
         | Inr db \<Rightarrow> (case ping db of
             Some e \<Rightarrow> Inl (''ping db: '' @ e)
           | None \<Rightarrow> (case migrate db of Some e \<Rightarrow> Inl (''migrate: '' @ e) | None \<Rightarrow> Inr db)))"

text \<open>\<open>open_db\<close> is \<^verbatim>\<open>NewDBStore\<close>. The globals are the database, the node and the type that usage records are given; they stay unset when it fails.\<close>

definition initDB ::
  "(string \<Rightarrow> string) \<Rightarrow> string \<Rightarrow> (string \<Rightarrow> bool) \<Rightarrow> (string \<Rightarrow> string + 'db) \<Rightarrow> 'db option \<times> string \<times> string" where
  "initDB getenv hostname exists open_db =
     (let path = (if getenv ''HIVE_DB_PATH'' = [] then ''./hive-server.db'' else getenv ''HIVE_DB_PATH'')
      in case open_db path of
           Inl e \<Rightarrow> (None, [], [])
         | Inr db \<Rightarrow> (Some db, getServerID getenv hostname, detectServingType getenv exists))"

text \<open>\<^verbatim>\<open>initDB\<close> never passes an empty path, so the default of \<^verbatim>\<open>NewDBStore\<close> is not used: the file is in the working directory, not under \<^verbatim>\<open>/data\<close>.\<close>

lemma db_default_path:
  assumes "getenv ''HIVE_DB_PATH'' = []"
  shows "fst (initDB getenv hostname exists (NewDBStore getenv sql_open ping migrate)) \<noteq> None \<longleftrightarrow>
    (\<exists>db. sql_open ''./hive-server.db'' = Inr db \<and> ping db = None \<and> migrate db = None)"
  using assms by (auto simp: initDB_def NewDBStore_def split: sum.splits option.splits)

text \<open>
  The two detections of the accelerator: without a setting, what one calls a GPU so does the other, except for a machine whose only sign
  of one is the device file, which only the usage records know about.
\<close>

lemma serving_type_accelerator:
  assumes "getenv ''SERVING_TYPE'' = []"
  shows "detectServingType getenv exists = ''GPU'' \<longleftrightarrow> getAcceleratorType ''linux'' exists = ''GPU'' \<or> exists ''/dev/nvidia0''"
  using assms by (simp add: detectServingType_def getAcceleratorType_def detectNvidiaGPU_def)

section \<open>Responses\<close>

text \<open>
  What a handler does with its \<^verbatim>\<open>http.ResponseWriter\<close>. Informational status codes (below 200) are not used by the server.
\<close>

datatype writer_call = SetHeader string string | WriteHeader int | Write string | Flush

record http_response =
  rs_status :: "int option"
  rs_header :: "string \<rightharpoonup> string"
  rs_sent :: "string \<rightharpoonup> string"
  rs_body :: string

text \<open>
  \<^verbatim>\<open>net/http\<close>: the first \<^verbatim>\<open>WriteHeader\<close>, or the first \<^verbatim>\<open>Write\<close> or \<^verbatim>\<open>Flush\<close>, fixes the status and sends the headers set so far; later
  calls of \<^verbatim>\<open>WriteHeader\<close> and later headers have no effect.
\<close>

definition send_header :: "int \<Rightarrow> http_response \<Rightarrow> http_response" where
  "send_header code r = (if rs_status r = None then r\<lparr>rs_status := Some code, rs_sent := rs_header r\<rparr> else r)"

fun respond :: "http_response \<Rightarrow> writer_call \<Rightarrow> http_response" where
  "respond r (SetHeader k v) = r\<lparr>rs_header := (rs_header r)(k \<mapsto> v)\<rparr>"
| "respond r (WriteHeader code) = send_header code r"
| "respond r (Write b) = (let r1 = send_header 200 r in r1\<lparr>rs_body := rs_body r1 @ b\<rparr>)"
| "respond r Flush = send_header 200 r"

definition new_response :: http_response where
  "new_response = \<lparr>rs_status = None, rs_header = Map.empty, rs_sent = Map.empty, rs_body = []\<rparr>"

definition sent :: "writer_call list \<Rightarrow> http_response" where
  "sent cs = send_header 200 (foldl respond new_response cs)"

definition http_Error :: "string \<Rightarrow> int \<Rightarrow> writer_call list" where
  "http_Error msg code = [SetHeader ''Content-Type'' ''text/plain; charset=utf-8'', SetHeader ''X-Content-Type-Options'' ''nosniff'',
     WriteHeader code, Write (msg @ [CHR 0x0A])]"

text \<open>The two wrappers remember the last status the handler wrote and, for the audit, the body.\<close>

fun logged_status :: "int \<Rightarrow> writer_call list \<Rightarrow> int" where
  "logged_status code [] = code"
| "logged_status code (WriteHeader c # cs) = logged_status c cs"
| "logged_status code (_ # cs) = logged_status code cs"

fun captured_body :: "writer_call list \<Rightarrow> string" where
  "captured_body [] = []"
| "captured_body (Write b # cs) = b @ captured_body cs"
| "captured_body (_ # cs) = captured_body cs"

section \<open>The middleware\<close>

record hive_request = auth_request +
  hq_UserAgent :: string
  hq_body :: string

text \<open>
  A handler of requests over the state \<open>'s\<close> of the server. \<open>serve_env\<close> is what one request meets: the times at which the limiter, the
  audit and the logger read the clock, the generated request ID, and the JSON reading of a body.
\<close>

type_synonym 's handler = "hive_request \<Rightarrow> 's \<Rightarrow> writer_call list \<times> 's"

record serve_env =
  sv_auth :: gotime
  sv_start :: gotime
  sv_request :: gotime
  sv_end :: gotime
  sv_response :: gotime
  sv_id :: string
  sv_decode :: "string \<Rightarrow> decoded"

definition audit_exempt :: "string \<Rightarrow> string \<Rightarrow> bool" where
  "audit_exempt path method \<longleftrightarrow>
     path \<in> {''/api/health'', ''/api/status'', ''/metrics'', ''/api/peers'', ''/api/peers/health'', ''/api/logs'', ''/api/logs/clear'',
       ''/api/clients'', ''/version''} \<or> has_prefix path ''/static/'' \<or>
     path \<in> {''/api/reports/usage'', ''/api/reports/usage/timeseries'', ''/api/reports/usage/histogram'',
       ''/api/reports/usage/recent'', ''/api/ollama/health''} \<and> method = ''GET''"

definition decode_body :: "serve_env \<Rightarrow> string \<Rightarrow> decoded" where
  "decode_body sv body = (if body = [] then None else sv_decode sv body)"

definition audited :: "serve_env \<Rightarrow> hive_request \<Rightarrow> audit_request" where
  "audited sv r = \<lparr>au_Method = ar_Method r, au_Path = ar_Path r, au_RemoteAddr = ar_RemoteAddr r,
     au_UserAgent = hq_UserAgent r, au_body = decode_body sv (hq_body r)\<rparr>"

definition duration_ms :: "serve_env \<Rightarrow> real" where
  "duration_ms sv = of_int (go_div (sv_end sv - sv_start sv) 1000000)"

definition auditMiddleware :: "serve_env \<Rightarrow> 's handler \<Rightarrow> (AuditTrailManager \<times> 's) handler" where
  "auditMiddleware sv next r = (\<lambda>(atm, s).
     if audit_exempt (ar_Path r) (ar_Method r) then (let (cs, s') = next r s in (cs, (atm, s')))
     else
       let (requestID, atm1) = LogRequest (sv_request sv) (sv_id sv) (audited sv r) [] atm;
           (cs, s') = next r s;
           atm2 = LogResponse (sv_response sv) [] requestID (logged_status 200 cs) (decode_body sv (captured_body cs)) (duration_ms sv) atm1
       in (cs @ [SetHeader ''X-Request-ID'' requestID], (atm2, s')))"

definition cors_headers :: "writer_call list" where
  "cors_headers = [SetHeader ''Access-Control-Allow-Origin'' ''*'',
     SetHeader ''Access-Control-Allow-Methods'' ''GET, POST, PUT, DELETE, OPTIONS'',
     SetHeader ''Access-Control-Allow-Headers'' ''Content-Type, Authorization'']"

definition corsMiddleware :: "'s handler \<Rightarrow> 's handler" where
  "corsMiddleware next r s =
     (if ar_Method r = ''OPTIONS'' then (cors_headers @ [WriteHeader 204], s)
      else let (cs, s') = next r s in (cors_headers @ cs, s'))"

text \<open>
  \<^verbatim>\<open>requestLogger\<close> passes every call on and logs a request of more than 100 milliseconds with the status its wrapper remembers; the
  first component of the state is the list of these lines.
\<close>

definition requestLogger :: "duration \<Rightarrow> 's handler \<Rightarrow> ((string \<times> string \<times> int \<times> duration) list \<times> 's) handler" where
  "requestLogger dur next r = (\<lambda>(log, s).
     let (cs, s') = next r s
     in (cs, (if dur > 100000000 then log @ [(ar_Method r, ar_Path r, logged_status 200 cs, dur)] else log, s')))"

definition auth_handler :: "string \<Rightarrow> gotime \<Rightarrow> 's handler \<Rightarrow> (RateLimiter \<times> 's) handler" where
  "auth_handler apiKey now next r = (\<lambda>(rl, s).
     case AuthMiddleware apiKey now (auth_request.truncate r) rl of
       (ServeNext, rl') \<Rightarrow> (let (cs, s') = next r s in (cs, (rl', s')))
     | (RateLimitExceeded, rl') \<Rightarrow> (http_Error ''{\"error\":\"rate limit exceeded\"}'' 429, (rl', s))
     | (Unauthorized, rl') \<Rightarrow> (http_Error ''{\"error\":\"unauthorized\"}'' 401, (rl', s)))"

text \<open>The whole stack around the routes.\<close>

definition hive_handler ::
  "string \<Rightarrow> serve_env \<Rightarrow> duration \<Rightarrow> 's handler \<Rightarrow>
     (RateLimiter \<times> (string \<times> string \<times> int \<times> duration) list \<times> AuditTrailManager \<times> 's) handler" where
  "hive_handler apiKey sv dur mux =
     auth_handler apiKey (sv_auth sv) (requestLogger dur (corsMiddleware (auditMiddleware sv mux)))"

section \<open>What is audited\<close>

fun sends_header :: "writer_call \<Rightarrow> bool" where
  "sends_header (SetHeader _ _) = False"
| "sends_header _ = True"

fun is_WriteHeader :: "writer_call \<Rightarrow> bool" where
  "is_WriteHeader (WriteHeader _) = True"
| "is_WriteHeader _ = False"

text \<open>A handler that writes its status once, before the body.\<close>

fun well_written :: "writer_call list \<Rightarrow> bool" where
  "well_written [] = True"
| "well_written (c # cs) = (if sends_header c then list_all (Not \<circ> is_WriteHeader) cs else well_written cs)"

lemma logged_status_none: "list_all (Not \<circ> is_WriteHeader) cs \<Longrightarrow> logged_status code cs = code"
  by (induction code cs rule: logged_status.induct) auto

lemma respond_status_keeps: "rs_status r = Some code \<Longrightarrow> rs_status (foldl respond r cs) = Some code"
proof (induction cs arbitrary: r)
  case (Cons c cs)
  then show ?case by (cases c) (simp_all add: send_header_def Let_def)
qed simp

lemma send_header_status [simp]: "rs_status r = Some code \<Longrightarrow> send_header c r = r"
  by (simp add: send_header_def)

lemma respond_sent_keeps: "rs_status r = Some code \<Longrightarrow> rs_sent (foldl respond r cs) = rs_sent r"
proof (induction cs arbitrary: r)
  case (Cons c cs)
  then show ?case by (cases c) (simp_all add: Let_def)
qed simp

lemma respond_well_written:
  "well_written cs \<Longrightarrow> rs_status r = None \<Longrightarrow> rs_status (send_header 200 (foldl respond r cs)) = Some (logged_status 200 cs)"
proof (induction cs arbitrary: r)
  case Nil
  then show ?case by (simp add: send_header_def)
next
  case (Cons c cs)
  show ?case
  proof (cases "sends_header c")
    case True
    with Cons.prems have "list_all (Not \<circ> is_WriteHeader) cs" by simp
    then have l: "logged_status 200 (c # cs) = logged_status 200 [c]"
      by (cases c) (simp_all add: logged_status_none)
    have "rs_status (respond r c) = Some (logged_status 200 [c])"
      using True Cons.prems(2) by (cases c) (simp_all add: send_header_def Let_def)
    then have "rs_status (foldl respond r (c # cs)) = Some (logged_status 200 (c # cs))"
      unfolding l by (simp add: respond_status_keeps)
    then show ?thesis by simp
  next
    case False
    then obtain k v where "c = SetHeader k v" by (cases c) auto
    with Cons show ?thesis by simp
  qed
qed

lemma well_written_append:
  "list_all (Not \<circ> sends_header) hs \<Longrightarrow> well_written (hs @ cs) = well_written cs"
  by (induction hs) auto

lemma well_written_snoc: "well_written (cs @ [SetHeader k v]) = well_written cs"
  by (induction cs) auto

lemma logged_status_headers:
  "list_all (Not \<circ> sends_header) hs \<Longrightarrow> logged_status code (hs @ cs) = logged_status code cs"
proof (induction hs)
  case (Cons c hs)
  then show ?case by (cases c) simp_all
qed simp

lemma logged_status_snoc: "logged_status code (cs @ [SetHeader k v]) = logged_status code cs"
  by (induction code cs rule: logged_status.induct) simp_all

lemma sent_status: "well_written cs \<Longrightarrow> rs_status (sent cs) = Some (logged_status 200 cs)"
  unfolding sent_def by (rule respond_well_written) (simp_all add: new_response_def)

lemma cors_headers_only: "list_all (Not \<circ> sends_header) cors_headers"
  by (simp add: cors_headers_def)

lemma corsMiddleware_next:
  "ar_Method r \<noteq> ''OPTIONS'' \<Longrightarrow> corsMiddleware next r s = (cors_headers @ fst (next r s), snd (next r s))"
  by (simp add: corsMiddleware_def case_prod_unfold Let_def)

lemma LogEvent_buffer [simp]: "at_buffer (LogEvent now rid e atm) = at_buffer atm @ [stamp now rid e]"
  by (simp add: LogEvent_def log_signal_def log_append_def)

lemma audited_events:
  assumes "\<not> audit_exempt (ar_Path r) (ar_Method r)"
  shows "auditMiddleware sv mux r (atm, s) =
    (let cs = fst (mux r s); atm1 = LogEvent (sv_request sv) [] (request_event (sv_id sv) (audited sv r) []) atm
     in (cs @ [SetHeader ''X-Request-ID'' (sv_id sv)],
         (LogEvent (sv_response sv) [] (response_event (sv_id sv) (logged_status 200 cs) (decode_body sv (captured_body cs))
            (duration_ms sv) (at_serverID atm1)) atm1, snd (mux r s))))"
  using assms by (simp add: auditMiddleware_def LogRequest_def LogResponse_def case_prod_unfold Let_def)

text \<open>Whether a request reaches the routes and is audited.\<close>

definition is_audited :: "string \<Rightarrow> gotime \<Rightarrow> hive_request \<Rightarrow> RateLimiter \<Rightarrow> bool" where
  "is_audited apiKey now r rl \<longleftrightarrow> fst (AuthMiddleware apiKey now (auth_request.truncate r) rl) = ServeNext \<and>
     ar_Method r \<noteq> ''OPTIONS'' \<and> \<not> audit_exempt (ar_Path r) (ar_Method r)"

definition audit_pair :: "string \<Rightarrow> hive_request \<Rightarrow> int option \<Rightarrow> AuditEvent \<Rightarrow> AuditEvent \<Rightarrow> bool" where
  "audit_pair rid r status req resp \<longleftrightarrow>
     ev_EventType req = ''request'' \<and> ev_RequestID req = rid \<and> ev_Path req = ar_Path r \<and> ev_Method req = ar_Method r \<and>
     ev_EventType resp = ''response'' \<and> ev_RequestID resp = rid \<and> status = Some (ev_StatusCode resp)"

lemma stamp_frame [simp]:
  "ev_EventType (stamp now rid e) = ev_EventType e" "ev_Path (stamp now rid e) = ev_Path e"
  "ev_Method (stamp now rid e) = ev_Method e" "ev_StatusCode (stamp now rid e) = ev_StatusCode e"
  "ev_RequestID e \<noteq> [] \<Longrightarrow> ev_RequestID (stamp now rid e) = ev_RequestID e"
  by (simp_all add: stamp_def Let_def)

text \<open>
  C6. Every request that passes authentication and is neither a preflight nor exempt leaves exactly two events in the audit
  trail, the request and then its response, under one ID, with its method and path, and with the status the client was sent,
  when the handler writes its status once and before the body. Every other request leaves the trail as it was.
\<close>

theorem requests_audited:
  assumes "hive_handler apiKey sv dur mux r (rl, lg, atm, s) = (cs, (rl', lg', atm', s'))"
    and "well_written (fst (mux r s))" and "sv_id sv \<noteq> []"
  shows "if is_audited apiKey (sv_auth sv) r rl
    then \<exists>req resp. at_buffer atm' = at_buffer atm @ [req, resp] \<and> audit_pair (sv_id sv) r (rs_status (sent cs)) req resp
    else atm' = atm"
proof (cases "is_audited apiKey (sv_auth sv) r rl")
  case True
  let ?cs = "cors_headers @ fst (mux r s) @ [SetHeader ''X-Request-ID'' (sv_id sv)]"
  have run: "cs = ?cs" "atm' = fst (snd (auditMiddleware sv mux r (atm, s)))"
    using assms(1) True
    by (auto simp: hive_handler_def auth_handler_def requestLogger_def is_audited_def audited_events corsMiddleware_next Let_def
        split: prod.splits auth_result.splits)
  have "well_written ?cs" using assms(2) by (simp add: well_written_append [OF cors_headers_only] well_written_snoc)
  then have "rs_status (sent cs) = Some (logged_status 200 (fst (mux r s)))"
    unfolding run(1) by (simp add: sent_status logged_status_headers [OF cors_headers_only] logged_status_snoc)
  then show ?thesis using True assms(3)
    by (simp add: run(2) is_audited_def audited_events Let_def audit_pair_def request_event_def response_event_def audited_def
        no_event_def)
next
  case False
  then show ?thesis using assms(1)
    by (auto simp: hive_handler_def auth_handler_def requestLogger_def corsMiddleware_def auditMiddleware_def is_audited_def
        case_prod_unfold Let_def split: prod.splits auth_result.splits if_splits)
qed

text \<open>
  The header with the request ID is set after the handler returned: a response of which anything was written does not have it.
\<close>

lemma respond_sends:
  assumes "list_ex sends_header cs"
  shows "rs_status (foldl respond r cs) \<noteq> None"
  using assms
proof (induction cs arbitrary: r)
  case (Cons c cs)
  show ?case
  proof (cases "sends_header c")
    case True
    then obtain code where "rs_status (respond r c) = Some code"
      by (cases c; cases "rs_status r") (auto simp: send_header_def Let_def)
    then show ?thesis by (simp add: respond_status_keeps)
  next
    case False
    with Cons show ?thesis by simp
  qed
qed simp

lemma request_id_not_sent:
  assumes "list_ex sends_header cs"
  shows "rs_sent (sent (cs @ [SetHeader k v])) = rs_sent (sent cs)"
proof -
  obtain code where "rs_status (foldl respond new_response cs) = Some code" using respond_sends [OF assms] by blast
  then show ?thesis by (simp add: sent_def)
qed

section \<open>The API key\<close>

text \<open>The environment first, then the file; without either there is no authentication.\<close>

lemma main_api_key:
  "st_apiKey (main_settings getenv r) =
     (if getenv ''HIVE_API_KEY'' \<noteq> [] then getenv ''HIVE_API_KEY''
      else case main_file r of Some c \<Rightarrow> cf_APIKey c | None \<Rightarrow> [])"
  by (simp add: main_settings_def env_settings_def envOrDefault_def file_settings_def split: option.split)

text \<open>
  A configuration file that cannot be read or parsed is taken for none: the server starts all the same, with
  the key of the environment only. When the key was in the file, every request is then served without one, or
  turned away by the rate limit.
\<close>

theorem broken_config_opens_server:
  assumes "LoadConfigFile getenv readFile unmarshal [] = Inl e" "getenv ''HIVE_API_KEY'' = []"
  shows "fst (AuthMiddleware (st_apiKey (main_settings getenv (LoadConfigFile getenv readFile unmarshal []))) now r rl)
    \<noteq> Unauthorized"
  unfolding assms(1) main_api_key using assms(2)
  by (auto simp: main_file_def AuthMiddleware_def split: prod.splits)

text \<open>
  The cache: a file that enables it does not, and what the file says of its size overrides the environment, against the
  order of all other settings.
\<close>

lemma cache_file_ignored:
  "getenv ''HIVE_CACHE_ENABLED'' \<noteq> ''true'' \<Longrightarrow> cache_settings getenv (Some c) = None"
  by (simp add: cache_settings_def)

lemma cache_file_over_environment:
  assumes "getenv ''HIVE_CACHE_ENABLED'' = ''true''" "cf_MaxEntries c \<noteq> 0"
  shows "\<exists>ttl. cache_settings getenv (Some c) = Some (cf_MaxEntries c, ttl)"
  using assms by (simp add: cache_settings_def firstNonZero_def Let_def)

text \<open>\<^verbatim>\<open>Sscanf\<close> reads back a number written in decimal, whatever text follows that does not start with a digit.\<close>

lemma takeWhile_digits: "(\<forall>c \<in> set ds. is_digit c) \<Longrightarrow> (rest = [] \<or> \<not> is_digit (hd rest)) \<Longrightarrow> takeWhile is_digit (ds @ rest) = ds"
  by (induction ds) (cases rest; auto)+

lemma dec_nat_digits: "\<forall>c \<in> set (dec_nat n). is_digit c"
proof (induction n rule: dec_nat.induct)
  case (1 n)
  then show ?case by (cases "n < 10") (auto simp: dec_nat.simps [of n] is_digit_def)
qed

lemma digit_not_space: "is_digit c \<Longrightarrow> \<not> is_space c"
  by (auto simp: is_digit_def is_space_def digit_value_def)

theorem scan_d_dec_int:
  assumes "- (2 ^ 63) \<le> i" "i < 2 ^ 63" "rest = [] \<or> \<not> is_digit (hd rest)"
  shows "scan_d (dec_int i @ rest) = Some i"
proof -
  define n where "n = nat \<bar>i\<bar>"
  obtain d :: nat and ds where dd: "dec_nat n = char_of (48 + d) # ds" "d < 10" using dec_nat_head by blast
  have nsp: "\<not> is_space (char_of (48 + d))"
    using dec_nat_digits [of n] dd(1) by (intro digit_not_space) simp
  have tw: "takeWhile is_digit (dec_nat n @ rest) = dec_nat n"
    by (rule takeWhile_digits [OF dec_nat_digits assms(3)])
  show ?thesis
  proof (cases "i < 0")
    case True
    then have "dec_int i = CHR ''-'' # dec_nat n" by (simp add: dec_int_def n_def)
    moreover have "\<not> is_space CHR ''-''" by (simp add: is_space_def)
    moreover have "dec_nat n \<noteq> []" by (simp add: dd(1))
    ultimately show ?thesis using assms(1,2) tw True
      by (simp add: scan_d_def Let_def digits_value_dec_nat in_int64_def n_def)
  next
    case False
    then have "dec_int i = dec_nat n" by (simp add: dec_int_def n_def)
    moreover have "dropWhile (\<lambda>c. is_space c \<and> c \<noteq> CHR 0x0A) (dec_nat n @ rest) = dec_nat n @ rest"
      using nsp by (simp add: dd(1))
    moreover have "hd (dec_nat n @ rest) \<noteq> CHR ''-''" "hd (dec_nat n @ rest) \<noteq> CHR ''+''"
      using digit_no_sign [OF dd(2)] by (simp_all add: dd(1))
    moreover have "dec_nat n \<noteq> []" by (simp add: dd(1))
    ultimately show ?thesis using assms(1,2) tw False
      by (simp add: scan_d_def Let_def digits_value_dec_nat in_int64_def n_def)
  qed
qed

section \<open>Forwarding to a server with a key\<close>

text \<open>
  The request by which \<^verbatim>\<open>forwardJobToPeer\<close> sends a job: \<^verbatim>\<open>client.Post\<close> with a content type and no other header, so without an API
  key. What comes back is decoded as JSON whatever its status is.
\<close>

definition forward_request :: "string \<Rightarrow> string \<Rightarrow> hive_request" where
  "forward_request addr data = \<lparr>ar_Path = ''/api/jobs/forward'', ar_Method = ''POST'', ar_RemoteAddr = addr, ar_XForwardedFor = [],
     ar_Authorization = [], ar_api_key = [], hq_UserAgent = ''Go-http-client/1.1'', hq_body = data\<rparr>"

definition forward_answer :: "(string \<Rightarrow> jobj option) \<Rightarrow> http_response option \<Rightarrow> jobj option" where
  "forward_answer decode resp = Option.bind resp (\<lambda>rs. decode (rs_body rs))"

text \<open>The bodies of the two refusals, as the JSON decoder reads them.\<close>

definition refusals_decode :: "(string \<Rightarrow> jobj option) \<Rightarrow> bool" where
  "refusals_decode decode \<longleftrightarrow>
     decode (''{\"error\":\"unauthorized\"}'' @ [CHR 0x0A]) = Some [(''error'', JStr ''unauthorized'')] \<and>
     decode (''{\"error\":\"rate limit exceeded\"}'' @ [CHR 0x0A]) = Some [(''error'', JStr ''rate limit exceeded'')]"

lemma http_Error_body [simp]: "rs_body (sent (http_Error msg code)) = msg @ [CHR 0x0A]"
  by (simp add: sent_def http_Error_def new_response_def send_header_def)

lemma keyed_refuses_forward:
  assumes "apiKey \<noteq> []"
  shows "fst (AuthMiddleware apiKey now (auth_request.truncate (forward_request addr data)) rl) \<in> {RateLimitExceeded, Unauthorized}"
  using assms
  by (auto simp: AuthMiddleware_def forward_request_def auth_request.truncate_def presented_key_def trim_prefix_def has_prefix_def
      split: prod.split)

text \<open>
  A job that is forwarded to a server with an API key is lost. The peer refuses the request before it reaches the audit and
  the routes, and so keeps nothing of the job; the sender takes the refusal for the result and answers its client with it, as
  a success, and the job is in no queue.
\<close>

theorem keyed_peer_loses_job:
  assumes "submitJob_start t ks ja (Some b) hs = (SubmitForward p i a, hs1)"
    and "apiKey \<noteq> []" "refusals_decode decode"
    and "hive_handler apiKey sv dur mux (forward_request addr data) (rl, lg, atm, s) = (cs, (rl', lg', atm', s'))"
  shows "s' = s \<and> atm' = atm \<and> hs_queue hs1 = hs_queue hs \<and>
    (\<exists>e hs3. submitJob_forwarded t ja a b (forward_answer decode (Some (sent cs))) hs2
       = (Submitted (ReplyJSON (JobForwarded [(''error'', JStr e)])), hs3) \<and> hs_queue hs3 = hs_queue hs2)"
proof -
  have q: "hs_queue hs1 = hs_queue hs"
    using assms(1)
    by (auto simp: submitJob_start_def submit_local_def upd_mesh_def Let_def split: option.splits prod.splits sum.splits if_splits)
  have "s' = s \<and> atm' = atm \<and> (cs = http_Error ''{\"error\":\"rate limit exceeded\"}'' 429 \<or> cs = http_Error ''{\"error\":\"unauthorized\"}'' 401)"
    using assms(4) keyed_refuses_forward [OF assms(2), of "sv_auth sv" addr data rl]
    by (auto simp: hive_handler_def auth_handler_def split: prod.splits auth_result.splits)
  then show ?thesis
    using q assms(3) by (auto simp: submitJob_forwarded_def forward_answer_def refusals_decode_def)
qed

section \<open>Witnesses\<close>

definition sample_request :: hive_request where
  "sample_request = \<lparr>ar_Path = ''/api/jobs'', ar_Method = ''POST'', ar_RemoteAddr = ''1'', ar_XForwardedFor = [],
     ar_Authorization = [], ar_api_key = [], hq_UserAgent = [], hq_body = []\<rparr>"

definition sample_env :: serve_env where
  "sample_env = \<lparr>sv_auth = 1, sv_start = 2, sv_request = 3, sv_end = 4, sv_response = 5, sv_id = ''req_1'', sv_decode = (\<lambda>_. None)\<rparr>"

definition sample_mux :: "unit handler" where
  "sample_mux r s = ([WriteHeader 202, Write ''ok''], s)"

lemma sample_is_audited: "is_audited [] 1 sample_request (NewRateLimiter 5 10)"
  by (simp add: is_audited_def sample_request_def AuthMiddleware_def rl_Allow_def NewRateLimiter_def clientIP_def
      auth_request.truncate_def audit_exempt_def has_prefix_def Let_def)

theorem requests_audited_witness:
  "\<exists>cs rl' lg' atm' req resp.
     hive_handler [] sample_env 7 sample_mux sample_request (NewRateLimiter 5 10, [], NewAuditTrailManager [] ''s'', ())
       = (cs, (rl', lg', atm', ())) \<and>
     at_buffer atm' = [req, resp] \<and> audit_pair ''req_1'' sample_request (rs_status (sent cs)) req resp"
proof -
  obtain cs rl' lg' atm' where run: "hive_handler [] sample_env 7 sample_mux sample_request
      (NewRateLimiter 5 10, [], NewAuditTrailManager [] ''s'', ()) = (cs, (rl', lg', atm', ()))"
    by (cases "hive_handler [] sample_env 7 sample_mux sample_request
      (NewRateLimiter 5 10, [], NewAuditTrailManager [] ''s'', ())" rule: prod_cases5) auto
  have "well_written (fst (sample_mux sample_request ()))" by (simp add: sample_mux_def)
  from requests_audited [OF run this] sample_is_audited
  obtain req resp where "at_buffer atm' = [req, resp]" "audit_pair ''req_1'' sample_request (rs_status (sent cs)) req resp"
    by (auto simp: sample_env_def NewAuditTrailManager_def)
  with run show ?thesis by blast
qed

theorem broken_config_opens_server_witness:
  "fst (AuthMiddleware (st_apiKey (main_settings (\<lambda>_. []) (LoadConfigFile (\<lambda>_. []) (\<lambda>_. FileData ''api_key: ['') (\<lambda>_. Inl ''yaml'') [])))
     5 (auth_request.truncate sample_request) (NewRateLimiter 5 10)) \<noteq> Unauthorized"
  by (rule broken_config_opens_server) (simp_all add: LoadConfigFile_def)

definition sample_decode :: "string \<Rightarrow> jobj option" where
  "sample_decode x = (if x = ''{\"error\":\"unauthorized\"}'' @ [CHR 0x0A] then Some [(''error'', JStr ''unauthorized'')]
     else if x = ''{\"error\":\"rate limit exceeded\"}'' @ [CHR 0x0A] then Some [(''error'', JStr ''rate limit exceeded'')] else None)"

theorem keyed_peer_loses_job_witness:
  "\<exists>e cs hs3. cs = fst (hive_handler ''k'' sample_env 7 sample_mux (forward_request ''1'' [])
       (NewRateLimiter 5 10, [], NewAuditTrailManager [] ''s'', ())) \<and>
     submitJob_forwarded 0 7 0 sample_body (forward_answer sample_decode (Some (sent cs))) (sample_server 0)
       = (Submitted (ReplyJSON (JobForwarded [(''error'', JStr e)])), hs3) \<and> oq_jobCh (hs_queue hs3) = []"
proof -
  let ?h = "hive_handler ''k'' sample_env 7 sample_mux (forward_request ''1'' []) (NewRateLimiter 5 10, [], NewAuditTrailManager [] ''s'', ())"
  obtain cs rl' lg' atm' where run: "?h = (cs, (rl', lg', atm', ()))" by (cases ?h rule: prod_cases5) auto
  have "refusals_decode sample_decode" by (simp add: refusals_decode_def sample_decode_def)
  from keyed_peer_loses_job [OF sample_forwards _ this run, of "sample_server 0"] run show ?thesis
    by (auto simp: sample_server_def NewOllamaQueue_def)
qed

end
