(* ===== verification/Hive_Lifecycle.thy ===== *)
theory Hive_Lifecycle
  imports Hive_Main Mesh_Run Circuit_Breaker Response_Cache
begin

text \<open>
  The life of the hive server's process (\<^verbatim>\<open>hive-server-go/main.go\<close> from \<^verbatim>\<open>server.Start\<close> on, \<^verbatim>\<open>Start\<close> and \<^verbatim>\<open>Stop\<close> in \<^verbatim>\<open>handlers.go\<close>): the goroutine of
  \<^verbatim>\<open>main\<close>, which serves and then runs its deferred calls, the goroutine that waits for a signal and shuts down, the workers, the mesh, the
  audit loop and the requests under way, interleaved. The theory shows in which states the process can end, that no
  job is cut off by a shutdown, and that the two goroutines race to stop the same queue.
\<close>

section \<open>Starting\<close>

text \<open>
  The settings \<^verbatim>\<open>NewHiveServer\<close> reads for the response cache and for the circuit breakers. The fields of the breakers' configuration that are not
  given are zero.
\<close>

definition server_cache_config :: "(string \<Rightarrow> int option) \<Rightarrow> (string \<Rightarrow> string) \<Rightarrow> CacheConfig" where
  "server_cache_config scan getenv =
     CacheConfig.make (getEnvInt scan getenv ''CACHE_MAX_ITEMS'' 1000) True (getEnvInt scan getenv ''CACHE_TTL_SECONDS'' 300 * second)"

definition server_breaker_config :: "(string \<Rightarrow> int option) \<Rightarrow> (string \<Rightarrow> string) \<Rightarrow> CircuitBreakerConfig" where
  "server_breaker_config scan getenv =
     \<lparr>cc_FailureThreshold = getEnvInt scan getenv ''CB_FAILURE_THRESHOLD'' 5, cc_SuccessThreshold = 0,
      cc_Timeout = getEnvInt scan getenv ''CB_TIMEOUT_SECONDS'' 30 * second, cc_Interval = 0\<rparr>"

text \<open>So a breaker with this configuration closes with the first success, not with the third as by default.\<close>

lemma first_success_closes:
  assumes "cb_config cb = server_breaker_config scan getenv" "cb_state cb = CircuitHalfOpen" "0 \<le> cb_successes cb"
  shows "cb_state (RecordSuccess now cb) = CircuitClosed"
  using assms by (simp add: RecordSuccess_def server_breaker_config_def transitionTo_def Let_def)

text \<open>
  What \<^verbatim>\<open>main\<close> builds between opening the database and listening, as far as it can panic (\<open>None\<close>): the coding agent, which exists if there is a
  database and is given no queue, and the audit trail, which uses the database without looking whether there is one.
\<close>

definition main_startup ::
  "AgentDB option \<Rightarrow> MeshDiscovery option \<Rightarrow> string \<Rightarrow> (session_addr \<Rightarrow> CodingAgentSession) \<Rightarrow> audit_row list
     \<Rightarrow> (CodingAgentManager option \<times> AuditTrailManager) option" where
  "main_startup defaultDB mesh sid h table = Option.bind (server_agent defaultDB mesh sid h) (\<lambda>cam.
     case defaultDB of None \<Rightarrow> None | Some _ \<Rightarrow> Some (cam, NewAuditTrailManager table sid))"

text \<open>
  So as it is written the server panics at its start, with a database and without. The rest of this theory is about the server as it is meant,
  with a queue for the agent.
\<close>

lemma main_never_starts: "main_startup defaultDB mesh sid h table = None"
  by (simp add: main_startup_def server_agent_def NewCodingAgentManager_def split: option.split)

section \<open>The process\<close>

datatype proc_end = Exited int | Panicked string

text \<open>Where \<^verbatim>\<open>main\<close> is: in \<^verbatim>\<open>ListenAndServe\<close>, or in its deferred calls, the last one first.\<close>

datatype main_pc = MainServing | MainAudit | MainQueue | MainWorkers | MainMesh

datatype sig_pc = SigWaiting | SigQueue | SigWorkers | SigMesh | SigShutdown | SigRequests | SigCloseDB | SigExit

text \<open>
  \<open>hp_requests\<close>: how many requests are being served; \<open>hp_closed\<close>: whether \<^verbatim>\<open>Shutdown\<close> has closed the listener; \<open>hp_deadline\<close>: whether the 30 seconds
  have passed.
\<close>

record hive_proc =
  hp_jobs :: job_sys
  hp_mesh :: "mesh_run option"
  hp_audit :: AuditTrailManager
  hp_requests :: nat
  hp_closed :: bool
  hp_deadline :: bool
  hp_db :: bool
  hp_main :: main_pc
  hp_sig :: sig_pc
  hp_end :: "proc_end option"

text \<open>\<open>mesh\<close>: the mesh after its \<^verbatim>\<open>Start\<close>, if it is enabled.\<close>

definition hive_start :: "OllamaQueue \<Rightarrow> mesh_run option \<Rightarrow> AuditTrailManager \<Rightarrow> hive_proc" where
  "hive_start q mesh audit = \<lparr>hp_jobs = Start q, hp_mesh = mesh, hp_audit = audit, hp_requests = 0, hp_closed = False, hp_deadline = False,
     hp_db = True, hp_main = MainServing, hp_sig = SigWaiting, hp_end = None\<rparr>"

definition closed_twice :: string where
  "closed_twice = ''close of closed channel''"

text \<open>\<^verbatim>\<open>Stop\<close> of the server: first the queue, then, when its workers are done, the mesh if there is one.\<close>

definition stop_queue :: "hive_proc \<Rightarrow> hive_proc + hive_proc" where
  "stop_queue s = (case oq_Stop (js_q (hp_jobs s)) of
     None \<Rightarrow> Inl (s\<lparr>hp_end := Some (Panicked closed_twice)\<rparr>)
   | Some q \<Rightarrow> Inr (s\<lparr>hp_jobs := (hp_jobs s)\<lparr>js_q := q\<rparr>\<rparr>))"

definition stop_mesh :: "hive_proc \<Rightarrow> hive_proc + hive_proc" where
  "stop_mesh s = (case hp_mesh s of
     None \<Rightarrow> Inr s
   | Some m \<Rightarrow> (case mesh_Stop m of
       None \<Rightarrow> Inl (s\<lparr>hp_end := Some (Panicked closed_twice)\<rparr>)
     | Some m' \<Rightarrow> Inr (s\<lparr>hp_mesh := Some m'\<rparr>)))"

definition stop_audit :: "hive_proc \<Rightarrow> hive_proc + hive_proc" where
  "stop_audit s = (case audit_Stop (hp_audit s) of
     None \<Rightarrow> Inl (s\<lparr>hp_end := Some (Panicked closed_twice)\<rparr>)
   | Some a \<Rightarrow> Inr (s\<lparr>hp_audit := a\<rparr>))"

text \<open>A goroutine goes on after a call that did not panic; after one that did, the process has ended.\<close>

definition main_goes :: "main_pc \<Rightarrow> hive_proc + hive_proc \<Rightarrow> hive_proc" where
  "main_goes pc r = (case r of Inl s \<Rightarrow> s | Inr s \<Rightarrow> s\<lparr>hp_main := pc\<rparr>)"

definition sig_goes :: "sig_pc \<Rightarrow> hive_proc + hive_proc \<Rightarrow> hive_proc" where
  "sig_goes pc r = (case r of Inl s \<Rightarrow> s | Inr s \<Rightarrow> s\<lparr>hp_sig := pc\<rparr>)"

inductive life_move :: "hive_proc \<Rightarrow> hive_proc \<Rightarrow> bool" where
  request_in: "\<not> hp_closed s \<Longrightarrow> life_move s (s\<lparr>hp_requests := Suc (hp_requests s)\<rparr>)"
| request_out: "hp_requests s = Suc n \<Longrightarrow> life_move s (s\<lparr>hp_requests := n\<rparr>)"
| job_moves: "job_step (hp_jobs s) j \<Longrightarrow> oq_stopCh (js_q j) = oq_stopCh (js_q (hp_jobs s)) \<Longrightarrow>
    js_next j = js_next (hp_jobs s) \<or> 0 < hp_requests s \<Longrightarrow> life_move s (s\<lparr>hp_jobs := j\<rparr>)"
| job_panics: "k < length (js_workers (hp_jobs s)) \<Longrightarrow> js_workers (hp_jobs s) ! k = Executing a \<Longrightarrow>
    worker_execute env server db now a (js_q (hp_jobs s)) = (Inl msg, q) \<Longrightarrow> life_move s (s\<lparr>hp_end := Some (Panicked msg)\<rparr>)"
| mesh_moves: "hp_mesh s = Some m \<Longrightarrow> mesh_step t e m m' \<Longrightarrow> mr_stop m' = mr_stop m \<Longrightarrow> life_move s (s\<lparr>hp_mesh := Some m'\<rparr>)"
| audit_moves: "audit_step jc (hp_audit s) l a \<Longrightarrow> at_stopCh a = at_stopCh (hp_audit s) \<Longrightarrow> life_move s (s\<lparr>hp_audit := a\<rparr>)"
| listen_fails: "hp_main s = MainServing \<Longrightarrow> \<not> hp_closed s \<Longrightarrow> life_move s (s\<lparr>hp_end := Some (Exited 1)\<rparr>)"
| listen_returns: "hp_main s = MainServing \<Longrightarrow> hp_closed s \<Longrightarrow> life_move s (s\<lparr>hp_main := MainAudit\<rparr>)"
| main_audit: "hp_main s = MainAudit \<Longrightarrow> life_move s (main_goes MainQueue (stop_audit s))"
| main_queue: "hp_main s = MainQueue \<Longrightarrow> life_move s (main_goes MainWorkers (stop_queue s))"
| main_workers: "hp_main s = MainWorkers \<Longrightarrow> all_stopped (hp_jobs s) \<Longrightarrow> life_move s (s\<lparr>hp_main := MainMesh\<rparr>)"
| main_returns: "hp_main s = MainMesh \<Longrightarrow> stop_mesh s = Inr s' \<Longrightarrow> life_move s (s'\<lparr>hp_end := Some (Exited 0)\<rparr>)"
| main_mesh_panics: "hp_main s = MainMesh \<Longrightarrow> stop_mesh s = Inl s' \<Longrightarrow> life_move s s'"
| signal: "hp_sig s = SigWaiting \<Longrightarrow> life_move s (s\<lparr>hp_sig := SigQueue\<rparr>)"
| sig_queue: "hp_sig s = SigQueue \<Longrightarrow> life_move s (sig_goes SigWorkers (stop_queue s))"
| sig_workers: "hp_sig s = SigWorkers \<Longrightarrow> all_stopped (hp_jobs s) \<Longrightarrow> life_move s (s\<lparr>hp_sig := SigMesh\<rparr>)"
| sig_mesh: "hp_sig s = SigMesh \<Longrightarrow> life_move s (sig_goes SigShutdown (stop_mesh s))"
| sig_shutdown: "hp_sig s = SigShutdown \<Longrightarrow> life_move s (s\<lparr>hp_closed := True, hp_sig := SigRequests\<rparr>)"
| sig_requests: "hp_sig s = SigRequests \<Longrightarrow> hp_requests s = 0 \<or> hp_deadline s \<Longrightarrow> life_move s (s\<lparr>hp_sig := SigCloseDB\<rparr>)"
| sig_db: "hp_sig s = SigCloseDB \<Longrightarrow> life_move s (s\<lparr>hp_db := False, hp_sig := SigExit\<rparr>)"
| sig_exit: "hp_sig s = SigExit \<Longrightarrow> life_move s (s\<lparr>hp_end := Some (Exited 0)\<rparr>)"
| deadline: "hp_sig s \<noteq> SigWaiting \<Longrightarrow> life_move s (s\<lparr>hp_deadline := True\<rparr>)"

definition life_step :: "hive_proc \<Rightarrow> hive_proc \<Rightarrow> bool" where
  "life_step s t \<longleftrightarrow> hp_end s = None \<and> life_move s t"

section \<open>What holds at every moment\<close>

text \<open>How far the shutdown is, as the parts of the process see it.\<close>

definition sig_past :: "sig_pc \<Rightarrow> nat" where
  "sig_past pc = (case pc of SigWaiting \<Rightarrow> 0 | SigQueue \<Rightarrow> 1 | SigWorkers \<Rightarrow> 2 | SigMesh \<Rightarrow> 3 | SigShutdown \<Rightarrow> 4 | SigRequests \<Rightarrow> 5
     | SigCloseDB \<Rightarrow> 6 | SigExit \<Rightarrow> 7)"

definition queue_ok :: "job_sys \<Rightarrow> hive_proc \<Rightarrow> bool" where
  "queue_ok j0 s \<longleftrightarrow> job_step\<^sup>*\<^sup>* j0 (hp_jobs s) \<and> (oq_stopCh (js_q (hp_jobs s)) \<longleftrightarrow> 2 \<le> sig_past (hp_sig s)) \<and>
     (3 \<le> sig_past (hp_sig s) \<longrightarrow> all_stopped (hp_jobs s))"

definition parts_ok :: "hive_proc \<Rightarrow> bool" where
  "parts_ok s \<longleftrightarrow> (\<forall>m. hp_mesh s = Some m \<longrightarrow> (mr_stop m \<longleftrightarrow> 4 \<le> sig_past (hp_sig s))) \<and>
     (hp_closed s \<longleftrightarrow> 5 \<le> sig_past (hp_sig s)) \<and> (6 \<le> sig_past (hp_sig s) \<longrightarrow> hp_requests s = 0 \<or> hp_deadline s) \<and>
     (hp_db s \<longleftrightarrow> sig_past (hp_sig s) \<noteq> 7)"

definition main_ok :: "hive_proc \<Rightarrow> bool" where
  "main_ok s \<longleftrightarrow> hp_main s \<in> {MainServing, MainAudit, MainQueue} \<and> (hp_main s \<noteq> MainServing \<longrightarrow> hp_closed s) \<and>
     (at_stopCh (hp_audit s) \<longleftrightarrow> hp_main s = MainQueue)"

definition end_ok :: "hive_proc \<Rightarrow> bool" where
  "end_ok s \<longleftrightarrow> (case hp_end s of
     None \<Rightarrow> True
   | Some (Exited c) \<Rightarrow> c = 1 \<and> \<not> hp_closed s \<or> c = 0 \<and> hp_sig s = SigExit
   | Some (Panicked msg) \<Rightarrow> \<not> all_stopped (hp_jobs s) \<or> msg = closed_twice \<and> hp_main s = MainQueue \<and> hp_closed s)"

definition life_ok :: "job_sys \<Rightarrow> hive_proc \<Rightarrow> bool" where
  "life_ok j0 s \<longleftrightarrow> queue_ok j0 s \<and> parts_ok s \<and> main_ok s \<and> end_ok s"

lemma all_stopped_step: "job_step j j' \<Longrightarrow> all_stopped j \<Longrightarrow> all_stopped j'"
  by (induction rule: job_step.induct) (auto simp: all_stopped_def list_all_length nth_list_update)

lemmas stop_defs = stop_queue_def stop_mesh_def stop_audit_def oq_Stop_def mesh_Stop_def audit_Stop_def main_goes_def sig_goes_def
lemmas life_defs = life_ok_def queue_ok_def parts_ok_def main_ok_def end_ok_def sig_past_def

lemma queue_ok_move:
  assumes "life_move s t" "hp_end s = None" "life_ok j0 s"
  shows "queue_ok j0 t"
  using assms
proof cases
  case (job_moves j)
  with assms(3) show ?thesis by (auto simp: life_ok_def queue_ok_def intro: rtranclp.rtrancl_into_rtrancl all_stopped_step)
next
  case main_queue
  with assms(3) show ?thesis by (auto simp: life_defs stop_defs split: sig_pc.splits)
next
  case sig_queue
  then have "oq_Stop (js_q (hp_jobs s)) = Some ((js_q (hp_jobs s))\<lparr>oq_stopCh := True\<rparr>)"
    using assms(3) by (simp add: life_defs oq_Stop_def)
  with close_stop [OF this] sig_queue assms(3) show ?thesis
    by (auto simp: life_defs stop_queue_def sig_goes_def intro: rtranclp.rtrancl_into_rtrancl)
qed (auto simp: life_defs stop_defs split: option.splits if_splits sig_pc.splits)

lemma parts_ok_move:
  assumes "life_move s t" "hp_end s = None" "life_ok j0 s"
  shows "parts_ok t"
  using assms by cases (auto simp: life_defs stop_defs split: option.splits if_splits sig_pc.splits)

lemma main_ok_move:
  assumes "life_move s t" "hp_end s = None" "life_ok j0 s"
  shows "main_ok t"
  using assms by cases (auto simp: life_defs stop_defs split: option.splits if_splits sig_pc.splits)

lemma end_ok_move:
  assumes "life_move s t" "hp_end s = None" "life_ok j0 s"
  shows "end_ok t"
  using assms
proof cases
  case (job_panics k a env server db now msg q)
  then show ?thesis by (auto simp: end_ok_def all_stopped_def list_all_length)
qed (auto simp: life_defs stop_defs split: option.splits if_splits sig_pc.splits)

interpretation life: invariant_system life_step "life_ok j0" for j0
  by unfold_locales (auto simp: life_step_def life_ok_def intro: queue_ok_move parts_ok_move main_ok_move end_ok_move)

lemma life_ok_start: "\<not> oq_stopCh q \<Longrightarrow> \<forall>m. mesh = Some m \<longrightarrow> \<not> mr_stop m \<Longrightarrow> \<not> at_stopCh audit \<Longrightarrow> life_ok (Start q) (hive_start q mesh audit)"
  by (auto simp: life_defs hive_start_def Start_def)

section \<open>How the process ends\<close>

text \<open>The server has stopped: no worker and no running job is left, and every accepted job is finished or still waits.\<close>

definition jobs_settled :: "hive_proc \<Rightarrow> bool" where
  "jobs_settled s \<longleftrightarrow> all_stopped (hp_jobs s) \<and> oq_running (js_q (hp_jobs s)) = Map.empty \<and>
     mset (js_accepted (hp_jobs s)) = mset (oq_jobCh (js_q (hp_jobs s))) + mset (js_done (hp_jobs s))"

lemma all_stopped_settled:
  assumes "job_step\<^sup>*\<^sup>* (Start (NewOllamaQueue n url model h)) (hp_jobs s)" "all_stopped (hp_jobs s)"
  shows "jobs_settled s"
proof -
  have st: "w = Stopped" if "w \<in> set (js_workers (hp_jobs s))" for w
    using assms(2) that by (auto simp: all_stopped_def list_all_iff)
  then have "held_by w = []" if "w \<in> set (js_workers (hp_jobs s))" for w using that by (metis held_by.simps(5))
  then have "held (js_workers (hp_jobs s)) = []" by (simp add: held_def)
  moreover have "oq_running (js_q (hp_jobs s)) i = None" for i
    using tables_okD(1) [of "hp_jobs s" i] reachable_tables [OF assms(1)] st
    by (cases "oq_running (js_q (hp_jobs s)) i") fastforce+
  ultimately show ?thesis
    using reachable_tables [OF assms(1)] assms(2) by (auto simp: jobs_settled_def jobs_conserved_def)
qed


text \<open>
  The race: from the moment \<^verbatim>\<open>Shutdown\<close> closes the listener, \<^verbatim>\<open>main\<close> alone can run into the panic, whatever requests are under way. The
  other goroutine has to wait for these.
\<close>

lemma shutdown_can_panic:
  assumes "life_ok j0 s" "hp_end s = None" "hp_closed s" "hp_main s = MainServing"
  shows "\<exists>t. life_step\<^sup>*\<^sup>* s t \<and> hp_end t = Some (Panicked closed_twice) \<and> hp_requests t = hp_requests s"
proof -
  let ?s1 = "s\<lparr>hp_main := MainAudit\<rparr>"
  let ?s2 = "?s1\<lparr>hp_audit := (hp_audit s)\<lparr>at_stopCh := True\<rparr>, hp_main := MainQueue\<rparr>"
  let ?s3 = "?s2\<lparr>hp_end := Some (Panicked closed_twice)\<rparr>"
  have "life_step s ?s1" using assms by (auto simp: life_step_def intro: listen_returns)
  moreover have "life_step ?s1 ?s2"
    using main_audit [of ?s1] assms by (simp add: life_step_def stop_defs life_defs)
  moreover have "life_step ?s2 ?s3"
    using main_queue [of ?s2] assms by (auto simp: life_step_def stop_defs life_defs split: sig_pc.splits)
  ultimately have "life_step\<^sup>*\<^sup>* s ?s3" by (meson converse_rtranclp_into_rtranclp rtranclp.rtrancl_refl)
  then show ?thesis by (intro exI [of _ ?s3]) simp
qed

section \<open>Witness\<close>

text \<open>A server without workers and without a mesh gets the signal and exits.\<close>

definition sample_proc :: hive_proc where
  "sample_proc = hive_start (NewOllamaQueue 0 ''u'' ''m'' (\<lambda>_. NewJob 0 [] [] [] [])) None (NewAuditTrailManager [] ''s'')"

lemma sample_shutdown:
  "\<exists>s. life_step\<^sup>*\<^sup>* sample_proc s \<and> hp_end s = Some (Exited 0)"
proof -
  let ?s1 = "sample_proc\<lparr>hp_sig := SigQueue\<rparr>"
  let ?j = "(hp_jobs sample_proc)\<lparr>js_q := (js_q (hp_jobs sample_proc))\<lparr>oq_stopCh := True\<rparr>\<rparr>"
  let ?s2 = "?s1\<lparr>hp_jobs := ?j, hp_sig := SigWorkers\<rparr>"
  let ?s3 = "?s2\<lparr>hp_sig := SigMesh\<rparr>"
  let ?s4 = "?s3\<lparr>hp_sig := SigShutdown\<rparr>"
  let ?s5 = "?s4\<lparr>hp_closed := True, hp_sig := SigRequests\<rparr>"
  let ?s6 = "?s5\<lparr>hp_sig := SigCloseDB\<rparr>"
  let ?s7 = "?s6\<lparr>hp_db := False, hp_sig := SigExit\<rparr>"
  let ?s8 = "?s7\<lparr>hp_end := Some (Exited 0)\<rparr>"
  note d = sample_proc_def hive_start_def Start_def NewOllamaQueue_def
  have "life_step sample_proc ?s1" using signal [of sample_proc] by (simp add: life_step_def d)
  moreover have "life_step ?s1 ?s2" using sig_queue [of ?s1] by (simp add: life_step_def stop_defs d)
  moreover have "life_step ?s2 ?s3" using sig_workers [of ?s2] by (simp add: life_step_def all_stopped_def d)
  moreover have "life_step ?s3 ?s4" using sig_mesh [of ?s3] by (simp add: life_step_def stop_defs d)
  moreover have "life_step ?s4 ?s5" using sig_shutdown [of ?s4] by (simp add: life_step_def d)
  moreover have "life_step ?s5 ?s6" using sig_requests [of ?s5] by (simp add: life_step_def d)
  moreover have "life_step ?s6 ?s7" using sig_db [of ?s6] by (simp add: life_step_def d)
  moreover have "life_step ?s7 ?s8" using sig_exit [of ?s7] by (simp add: life_step_def d)
  ultimately have "life_step\<^sup>*\<^sup>* sample_proc ?s8" by (meson converse_rtranclp_into_rtranclp rtranclp.rtrancl_refl)
  then show ?thesis by (intro exI [of _ ?s8]) simp
qed


end
