(* ===== verification/Node_Agent.thy ===== *)
theory Node_Agent
  imports Cluster_Manager Mesh
begin

text \<open>
  The node agent, \<^verbatim>\<open>cmd/agent/main.go\<close>: a process beside each Ollama that registers the machine with the cluster node and
  then sends it a heartbeat every three seconds. What the agent reads from its machine (environment, command output, network
  interfaces, Ollama's replies) is the record \<open>machine\<close>; the cluster node at the other end is the manager of
  \<open>Cluster_Manager\<close>, reached over a connection that may lose the request or the reply. The theory shows what the agent
  registers, that it tries at most five times, that heartbeats keep its node online as long as no three in a row are lost, and
  that a node the manager has forgotten or marked offline stays so while its heartbeats are answered.
\<close>

section \<open>Reading the machine\<close>

text \<open>
  \<open>mc_exec\<close> is the output of a command, \<open>None\<close> when it fails; \<open>mc_ParseFloat\<close> is \<^verbatim>\<open>strconv.ParseFloat\<close>, \<open>mc_port\<close> the port of
  \<^verbatim>\<open>url.Parse\<close> (\<open>None\<close> when the address does not parse). \<open>mc_version\<close> and \<open>mc_tags\<close> are Ollama's decoded replies,
  \<open>None\<close> when the request fails; a reply that does not decode leaves the zero value. \<open>mc_alloc\<close> is the Go heap in bytes.
\<close>

record machine =
  mc_getenv :: "string \<Rightarrow> string"
  mc_hostname :: string
  mc_GOOS :: string
  mc_exec :: "string list \<Rightarrow> string option"
  mc_ParseFloat :: "string \<Rightarrow> real option"
  mc_port :: "string \<Rightarrow> string option"
  mc_ifaces :: "net_iface list option"
  mc_version :: "string option"
  mc_tags :: "string list option"
  mc_alloc :: nat

definition envOr :: "(string \<Rightarrow> string) \<Rightarrow> string \<Rightarrow> string \<Rightarrow> string" where
  "envOr getenv key fallback = (if getenv key \<noteq> [] then getenv key else fallback)"

definition envIntOr :: "(string \<Rightarrow> string) \<Rightarrow> string \<Rightarrow> int \<Rightarrow> int" where
  "envIntOr getenv key fallback =
     (if getenv key \<noteq> [] then (case Atoi (getenv key) of Some n \<Rightarrow> n | None \<Rightarrow> fallback) else fallback)"

definition parsePort :: "machine \<Rightarrow> string \<Rightarrow> int" where
  "parsePort mc addr = (case mc_port mc addr of
     None \<Rightarrow> 11434
   | Some p \<Rightarrow> if p \<noteq> [] then (case Atoi p of Some n \<Rightarrow> n | None \<Rightarrow> 11434) else 11434)"

definition linux_hardware :: "machine \<Rightarrow> string option" where
  "linux_hardware mc =
     (case mc_exec mc [''nvidia-smi'', ''--query-gpu=name'', ''--format=csv,noheader''] of
        None \<Rightarrow> None
      | Some out \<Rightarrow>
          let s = trim_space out
          in if s = [] then None
             else if str_contains (to_lower s) ''dgx'' then Some ''nvidia-dgx'' else Some ''nvidia-gpu'')"

definition darwin_hardware :: "machine \<Rightarrow> string option" where
  "darwin_hardware mc =
     (case mc_exec mc [''sysctl'', ''-n'', ''machdep.cpu.brand_string''] of
        None \<Rightarrow> None
      | Some s \<Rightarrow> if str_contains s ''Apple'' then Some ''apple-silicon'' else None)"

definition detectHardware :: "machine \<Rightarrow> string" where
  "detectHardware mc =
     (case (if mc_GOOS mc = ''darwin'' then darwin_hardware mc
            else if mc_GOOS mc = ''linux'' then linux_hardware mc else None) of
        Some h \<Rightarrow> h | None \<Rightarrow> ''cpu'')"

text \<open>The number a command prints, when it succeeds and prints one.\<close>

definition printed_int :: "machine \<Rightarrow> string list \<Rightarrow> int option" where
  "printed_int mc cmd = Option.bind (mc_exec mc cmd) (\<lambda>out. Atoi (trim_space out))"

definition printed_float :: "machine \<Rightarrow> string list \<Rightarrow> real option" where
  "printed_float mc cmd = Option.bind (mc_exec mc cmd) (\<lambda>out. mc_ParseFloat mc (trim_space out))"

definition detectGPUMemory :: "machine \<Rightarrow> int" where
  "detectGPUMemory mc =
     (case printed_int mc [''nvidia-smi'', ''--query-gpu=memory.total'', ''--format=csv,noheader,nounits''] of
        Some mb \<Rightarrow> go_div mb 1024
      | None \<Rightarrow>
          if mc_GOOS mc = ''darwin'' then
            (case printed_int mc [''sysctl'', ''-n'', ''hw.memsize''] of
               Some bytes \<Rightarrow> go_div (go_div (go_div (go_div bytes 1024) 1024) 1024) 3
             | None \<Rightarrow> 8)
          else 8)"

definition getOllamaVersion :: "machine \<Rightarrow> string" where
  "getOllamaVersion mc = (case mc_version mc of None \<Rightarrow> ''unknown'' | Some v \<Rightarrow> v)"

text \<open>A nil slice, which becomes the JSON value \<^verbatim>\<open>null\<close>, is \<open>None\<close>.\<close>

definition getOllamaModels :: "machine \<Rightarrow> string list option" where
  "getOllamaModels mc = mc_tags mc"

definition linux_float :: "machine \<Rightarrow> string \<Rightarrow> real option" where
  "linux_float mc script = (if mc_GOOS mc = ''linux'' then printed_float mc [''bash'', ''-c'', script] else None)"

definition quoted :: "string \<Rightarrow> string" where
  "quoted s = CHR 0x27 # s @ [CHR 0x27]"

definition getCPUUsage :: "machine \<Rightarrow> real" where
  "getCPUUsage mc = (case linux_float mc (''top -bn1 | grep '' @ quoted ''Cpu(s)'' @ '' | awk '' @ quoted ''{print $2}'') of Some f \<Rightarrow> f | None \<Rightarrow> 0)"

definition getMemoryUsedGB :: "machine \<Rightarrow> real" where
  "getMemoryUsedGB mc = (case linux_float mc (''free -g | awk '' @ quoted ''/Mem:/ {print $3}'') of
     Some f \<Rightarrow> f | None \<Rightarrow> real (mc_alloc mc) / 1024 / 1024 / 1024)"

definition getMemoryTotalGB :: "machine \<Rightarrow> real" where
  "getMemoryTotalGB mc = (case linux_float mc (''free -g | awk '' @ quoted ''/Mem:/ {print $2}'') of Some f \<Rightarrow> f | None \<Rightarrow> 16)"

definition getVRAMUsed :: "machine \<Rightarrow> real" where
  "getVRAMUsed mc =
     (case printed_float mc [''nvidia-smi'', ''--query-gpu=memory.used'', ''--format=csv,noheader,nounits''] of
        Some mb \<Rightarrow> mb / 1024 | None \<Rightarrow> 0)"

text \<open>The errors of \<^verbatim>\<open>Addrs\<close> are ignored: such an interface has no address.\<close>

definition agent_ip :: "ip_addr option \<Rightarrow> bool" where
  "agent_ip a = (case a of None \<Rightarrow> False | Some ip \<Rightarrow> \<not> ip_loopback ip \<and> ip_v4 ip \<noteq> None)"

fun getLocalIP_loop :: "net_iface list \<Rightarrow> string" where
  "getLocalIP_loop [] = ''127.0.0.1''"
| "getLocalIP_loop (i # rest) =
     (if \<not> if_up i \<or> if_loopback i then getLocalIP_loop rest
      else case find agent_ip (case if_addrs i of None \<Rightarrow> [] | Some addrs \<Rightarrow> addrs) of
          Some (Some ip) \<Rightarrow> ip_text ip
        | _ \<Rightarrow> getLocalIP_loop rest)"

definition getLocalIP :: "machine \<Rightarrow> string" where
  "getLocalIP mc = (case mc_ifaces mc of None \<Rightarrow> ''127.0.0.1'' | Some ifs \<Rightarrow> getLocalIP_loop ifs)"

section \<open>Configuration and messages\<close>

record Config =
  ac_HiveAddr :: string
  ac_OllamaAddr :: string
  ac_NodeName :: string
  ac_Hardware :: string
  ac_GPUModel :: string
  ac_GPUMemGB :: int
  ac_Capacity :: int

record Registration =
  ar_ID :: string
  ar_Name :: string
  ar_Address :: string
  ar_Port :: int
  ar_Hardware :: string
  ar_GPUModel :: string
  ar_GPUMemory :: int
  ar_Capacity :: int
  ar_Models :: "string list option"
  ar_OllamaVersion :: string

record Heartbeat =
  ah_NodeID :: string
  ah_CPUUsage :: real
  ah_MemoryUsed :: real
  ah_MemoryTotal :: real
  ah_VRAMUsed :: real
  ah_VRAMTotal :: real
  ah_ActiveConns :: int
  ah_Models :: "string list option"

definition agent_config :: "machine \<Rightarrow> Config" where
  "agent_config mc =
     (let cfg = \<lparr>ac_HiveAddr = envOr (mc_getenv mc) ''HIVE_ADDR'' ''http://localhost:8080'',
            ac_OllamaAddr = envOr (mc_getenv mc) ''OLLAMA_ADDR'' ''http://localhost:11434'',
            ac_NodeName = envOr (mc_getenv mc) ''NODE_NAME'' [],
            ac_Hardware = envOr (mc_getenv mc) ''HARDWARE'' ''unknown'',
            ac_GPUModel = envOr (mc_getenv mc) ''GPU_MODEL'' [],
            ac_GPUMemGB = 0,
            ac_Capacity = envIntOr (mc_getenv mc) ''CAPACITY'' 5\<rparr>;
          cfg1 = (if ac_NodeName cfg = [] then cfg\<lparr>ac_NodeName := mc_hostname mc\<rparr> else cfg)
      in if ac_Hardware cfg1 = ''unknown'' then cfg1\<lparr>ac_Hardware := detectHardware mc\<rparr> else cfg1)"

definition agent_nodeID :: "machine \<Rightarrow> string" where
  "agent_nodeID mc =
     (let nodeID = envOr (mc_getenv mc) ''NODE_ID'' []
      in if nodeID = [] then ac_NodeName (agent_config mc) @ ''-node'' else nodeID)"

definition agent_gpuMem :: "machine \<Rightarrow> int" where
  "agent_gpuMem mc =
     (if ac_GPUMemGB (agent_config mc) = 0 then detectGPUMemory mc else ac_GPUMemGB (agent_config mc))"

definition agent_registration :: "machine \<Rightarrow> Registration" where
  "agent_registration mc =
     (let cfg = agent_config mc
      in \<lparr>ar_ID = agent_nodeID mc, ar_Name = ac_NodeName cfg, ar_Address = getLocalIP mc,
          ar_Port = parsePort mc (ac_OllamaAddr cfg), ar_Hardware = ac_Hardware cfg, ar_GPUModel = ac_GPUModel cfg,
          ar_GPUMemory = agent_gpuMem mc, ar_Capacity = ac_Capacity cfg, ar_Models = getOllamaModels mc,
          ar_OllamaVersion = getOllamaVersion mc\<rparr>)"

text \<open>
  The heartbeat of a tick: \<open>nodeID\<close> and \<open>gpuMem\<close> were fixed at the start, the rest is read again from the machine as it is now.
  The literal sets no \<^verbatim>\<open>ActiveConns\<close>, which is therefore 0.
\<close>

definition agent_heartbeat :: "string \<Rightarrow> int \<Rightarrow> machine \<Rightarrow> Heartbeat" where
  "agent_heartbeat nodeID gpuMem mc =
     \<lparr>ah_NodeID = nodeID, ah_CPUUsage = getCPUUsage mc, ah_MemoryUsed = getMemoryUsedGB mc,
      ah_MemoryTotal = getMemoryTotalGB mc, ah_VRAMUsed = getVRAMUsed mc, ah_VRAMTotal = of_int gpuMem,
      ah_ActiveConns = 0, ah_Models = getOllamaModels mc\<rparr>"

section \<open>Talking to the manager\<close>

text \<open>
  Both ends name the JSON fields alike, so decoding gives the manager's payload field by field; \<^verbatim>\<open>null\<close> decodes to a nil slice,
  which is the empty list of models in a registration and no list in a heartbeat.
\<close>

definition registration_payload :: "Registration \<Rightarrow> RegistrationPayload" where
  "registration_payload r =
     \<lparr>rp_ID = ar_ID r, rp_Name = ar_Name r, rp_Address = ar_Address r, rp_Port = ar_Port r, rp_Hardware = ar_Hardware r,
      rp_GPUModel = ar_GPUModel r, rp_GPUMemory = ar_GPUMemory r, rp_Capacity = ar_Capacity r,
      rp_Models = (case ar_Models r of None \<Rightarrow> [] | Some ms \<Rightarrow> ms), rp_OllamaVersion = ar_OllamaVersion r\<rparr>"

definition heartbeat_payload :: "Heartbeat \<Rightarrow> HeartbeatPayload" where
  "heartbeat_payload h =
     \<lparr>hb_NodeID = ah_NodeID h, hb_CPUUsage = ah_CPUUsage h, hb_MemoryUsed = ah_MemoryUsed h,
      hb_MemoryTotal = ah_MemoryTotal h, hb_VRAMUsed = ah_VRAMUsed h, hb_VRAMTotal = ah_VRAMTotal h,
      hb_ActiveConns = ah_ActiveConns h, hb_Models = ah_Models h\<rparr>"

text \<open>One HTTP exchange: answered, lost before it arrives, or handled with the answer lost.\<close>

datatype link = Up | RequestLost | ReplyLost

definition status_of :: "'a reply \<Rightarrow> int" where
  "status_of r = (case r of HttpOK _ \<Rightarrow> 200 | HttpError _ code \<Rightarrow> code)"

definition exchange :: "link \<Rightarrow> (Manager \<Rightarrow> 'a reply \<times> Manager) \<Rightarrow> Manager \<Rightarrow> int option \<times> Manager" where
  "exchange l handler m = (case l of
     RequestLost \<Rightarrow> (None, m)
   | ReplyLost \<Rightarrow> (None, snd (handler m))
   | Up \<Rightarrow> (Some (status_of (fst (handler m))), snd (handler m)))"

text \<open>The first component of \<open>register\<close> and \<open>sendHeartbeat\<close> says that the call returned no error.\<close>

definition register :: "link \<Rightarrow> gotime \<Rightarrow> Registration \<Rightarrow> Manager \<Rightarrow> bool \<times> Manager" where
  "register l now reg m =
     (let (resp, m') = exchange l (HandleRegister now ''POST'' (Inr (registration_payload reg))) m
      in (case resp of None \<Rightarrow> False | Some code \<Rightarrow> code = 200, m'))"

definition sendHeartbeat :: "link \<Rightarrow> gotime \<Rightarrow> Heartbeat \<Rightarrow> Manager \<Rightarrow> bool \<times> Manager" where
  "sendHeartbeat l now hb m =
     (let (resp, m') = exchange l (HandleHeartbeat now ''POST'' (Some (heartbeat_payload hb))) m
      in (resp \<noteq> None, m'))"

text \<open>
  The registration loop, \<open>k\<close> attempts left: \<open>net\<close> gives the connection and the time of each. The result counts the failed
  attempts and says whether one succeeded.
\<close>

fun register_loop ::
  "nat \<Rightarrow> (nat \<Rightarrow> link \<times> gotime) \<Rightarrow> Registration \<Rightarrow> nat \<Rightarrow> Manager \<Rightarrow> (nat \<times> bool) \<times> Manager" where
  "register_loop 0 net reg i m = ((i, False), m)"
| "register_loop (Suc k) net reg i m =
     (let (ok, m') = register (fst (net i)) (snd (net i)) reg m
      in if ok then ((i, True), m') else register_loop k net reg (Suc i) m')"

definition register_agent :: "(nat \<Rightarrow> link \<times> gotime) \<Rightarrow> Registration \<Rightarrow> Manager \<Rightarrow> (nat \<times> bool) \<times> Manager" where
  "register_agent net reg m = register_loop 5 net reg 0 m"

definition agent_tick :: "link \<Rightarrow> link \<Rightarrow> gotime \<Rightarrow> Heartbeat \<Rightarrow> Registration \<Rightarrow> Manager \<Rightarrow> Manager" where
  "agent_tick l l' now hb reg m =
     (let (ok, m1) = sendHeartbeat l now hb m
      in if ok then m1 else snd (register l' now reg m1))"

section \<open>Numbers in the environment\<close>

lemma capacity_range: "- (2 ^ 63) \<le> ac_Capacity (agent_config mc) \<and> ac_Capacity (agent_config mc) < 2 ^ 63"
  using Atoi_range [of "mc_getenv mc ''CAPACITY''"]
  by (auto simp: agent_config_def envIntOr_def Let_def split: option.split)

section \<open>The agent as a client of the manager\<close>

text \<open>A tick of the agent, seen from the manager, is the list of the requests that arrive.\<close>

definition tick_events :: "link \<Rightarrow> link \<Rightarrow> gotime \<Rightarrow> Heartbeat \<Rightarrow> Registration \<Rightarrow> cluster_event list" where
  "tick_events l l' now hb reg =
     (if l = RequestLost then [] else [EvHeartbeat now (heartbeat_payload hb)]) @
     (if l = Up \<or> l' = RequestLost then [] else [EvRegister now (registration_payload reg)])"

lemma exchange_simps [simp]:
  "snd (exchange l h m) = (if l = RequestLost then m else snd (h m))"
  "fst (exchange l h m) = None \<longleftrightarrow> l \<noteq> Up"
  "(\<exists>code. fst (exchange l h m) = Some code) \<longleftrightarrow> l = Up"
  by (cases l; simp add: exchange_def)+

lemma register_simps:
  "snd (register l now reg m) =
     (if l = RequestLost then m else snd (HandleRegister now ''POST'' (Inr (registration_payload reg)) m))"
  by (simp add: register_def case_prod_unfold Let_def)

lemma sendHeartbeat_simps:
  "fst (sendHeartbeat l now hb m) \<longleftrightarrow> l = Up"
  "snd (sendHeartbeat l now hb m) =
     (if l = RequestLost then m else snd (HandleHeartbeat now ''POST'' (Some (heartbeat_payload hb)) m))"
  by (simp_all add: sendHeartbeat_def case_prod_unfold Let_def)

lemma agent_tick_run: "cluster_run m (tick_events l l' now hb reg) (agent_tick l l' now hb reg m)"
proof -
  have "agent_tick l l' now hb reg m =
      (if l = Up then snd (sendHeartbeat l now hb m)
       else snd (register l' now reg (snd (sendHeartbeat l now hb m))))"
    by (simp add: agent_tick_def case_prod_unfold Let_def sendHeartbeat_simps)
  then show ?thesis
    by (cases l; cases l')
      (auto simp: tick_events_def register_simps sendHeartbeat_simps
        intro!: cluster_run.intros cluster_step.intros)
qed

lemma cluster_run_append:
  "cluster_run m es m1 \<Longrightarrow> cluster_run m1 fs m2 \<Longrightarrow> cluster_run m (es @ fs) m2"
  by (induction rule: cluster_run.induct) (auto intro: run_cons)

text \<open>
  A round is a tick of the agent and what reaches the manager until the next tick, three seconds later: ticks of the stale
  checker and the traffic of other nodes.
\<close>

record agent_round =
  rd_link :: link
  rd_reg_link :: link
  rd_machine :: machine
  rd_others :: "cluster_event list"

definition round_tick :: "string \<Rightarrow> int \<Rightarrow> Registration \<Rightarrow> gotime \<Rightarrow> agent_round \<Rightarrow> Manager \<Rightarrow> Manager" where
  "round_tick nodeID gpuMem reg t r m =
     agent_tick (rd_link r) (rd_reg_link r) t (agent_heartbeat nodeID gpuMem (rd_machine r)) reg m"

inductive agent_rounds ::
  "string \<Rightarrow> int \<Rightarrow> Registration \<Rightarrow> gotime \<Rightarrow> agent_round list \<Rightarrow> Manager \<Rightarrow> Manager \<Rightarrow> bool"
  for nodeID gpuMem reg where
  rounds_nil: "agent_rounds nodeID gpuMem reg t [] m m"
| rounds_cons: "cluster_run (round_tick nodeID gpuMem reg t r m) (rd_others r) m1 \<Longrightarrow>
    agent_rounds nodeID gpuMem reg (t + 3 * second) rs m1 m2 \<Longrightarrow> agent_rounds nodeID gpuMem reg t (r # rs) m m2"

inductive_cases agent_rounds_ConsE: "agent_rounds nodeID gpuMem reg t (r # rs) m m'"

definition round_events :: "string \<Rightarrow> int \<Rightarrow> Registration \<Rightarrow> gotime \<Rightarrow> agent_round \<Rightarrow> cluster_event list" where
  "round_events nodeID gpuMem reg t r =
     tick_events (rd_link r) (rd_reg_link r) t (agent_heartbeat nodeID gpuMem (rd_machine r)) reg @ rd_others r"

lemma round_run:
  "cluster_run (round_tick nodeID gpuMem reg t r m) (rd_others r) m1 \<Longrightarrow>
    cluster_run m (round_events nodeID gpuMem reg t r) m1"
  unfolding round_events_def round_tick_def by (rule cluster_run_append [OF agent_tick_run])

text \<open>The traffic of a round does not concern node \<open>i\<close>, and its stale checks come before the next tick.\<close>

definition quiet_event :: "string \<Rightarrow> gotime \<Rightarrow> cluster_event \<Rightarrow> bool" where
  "quiet_event i t e = (case e of
     EvTick now \<Rightarrow> now < t | EvRegister _ reg \<Rightarrow> rp_ID reg \<noteq> i | EvHeartbeat _ hb \<Rightarrow> hb_NodeID hb \<noteq> i
   | EvDeregister j \<Rightarrow> j \<noteq> i)"

lemma quiet_online_step:
  assumes "quiet_event i t e" "t - t0 \<le> d" "online_since t0 old"
  shows "online_since t0 (node_after e d i old)"
proof -
  obtain n where "old = Some n" "n_Status n = NodeOnline" "n_LastHeartbeat n = t0"
    using assms(3) by (auto simp: online_since_def)
  with assms(1,2) show ?thesis
    by (cases e) (simp_all add: quiet_event_def online_since_def node_after_def mark_stale_def)
qed

lemma quiet_online:
  assumes "list_all (quiet_event i t) es" "t - t0 \<le> d" "online_since t0 old"
  shows "online_since t0 (node_run d i es old)"
  using assms by (induction es arbitrary: old) (auto intro: quiet_online_step)

definition delivered :: "agent_round \<Rightarrow> bool" where
  "delivered r \<longleftrightarrow> rd_link r \<noteq> RequestLost \<or> rd_reg_link r \<noteq> RequestLost"

lemma heartbeat_online:
  "online_since t0 old \<Longrightarrow>
    online_since t (node_after (EvHeartbeat t (heartbeat_payload (agent_heartbeat i g mc))) d i old)"
  by (cases old; cases "getOllamaModels mc")
    (simp_all add: online_since_def node_after_def heartbeat_payload_def agent_heartbeat_def UpdateLoad_def Let_def)

lemma registration_online:
  "ar_ID reg = i \<Longrightarrow> i \<noteq> [] \<Longrightarrow> ar_Address reg \<noteq> [] \<Longrightarrow>
    online_since t (node_after (EvRegister t (registration_payload reg)) d i old)"
  by (auto simp: online_since_def node_after_def registration_payload_def node_of_registration_def split: option.splits)

lemma tick_online:
  assumes "ar_ID reg = i" "i \<noteq> []" "ar_Address reg \<noteq> []" "online_since t0 old"
  shows "online_since (if delivered r then t else t0)
    (node_run d i (tick_events (rd_link r) (rd_reg_link r) t (agent_heartbeat i g (rd_machine r)) reg) old)"
  using assms
  by (cases "rd_link r"; cases "rd_reg_link r")
    (auto simp: delivered_def tick_events_def intro: heartbeat_online registration_online)

text \<open>
  \<open>losses_ok j rs\<close>: with \<open>j\<close> ticks lost just before, the rounds \<open>rs\<close> never have three lost ticks in a row.
\<close>

fun losses_ok :: "nat \<Rightarrow> agent_round list \<Rightarrow> bool" where
  "losses_ok j [] = True"
| "losses_ok j (r # rs) = (if delivered r then losses_ok 0 rs else j < 2 \<and> losses_ok (Suc j) rs)"

definition quiet_round :: "string \<Rightarrow> gotime \<Rightarrow> agent_round \<Rightarrow> bool" where
  "quiet_round i t r \<longleftrightarrow> list_all (quiet_event i (t + 3 * second)) (rd_others r)"

fun quiet_rounds :: "string \<Rightarrow> gotime \<Rightarrow> agent_round list \<Rightarrow> bool" where
  "quiet_rounds i t [] = True"
| "quiet_rounds i t (r # rs) = (quiet_round i t r \<and> quiet_rounds i (t + 3 * second) rs)"

lemma cluster_run_timeout: "cluster_run m es m' \<Longrightarrow> m_heartbeatTimeout m' = m_heartbeatTimeout m"
  by (induction rule: cluster_run.induct) (auto simp: cluster_step_timeout)

lemma node_run_append: "node_run d i (es @ fs) old = node_run d i fs (node_run d i es old)"
  by (simp add: node_run_def)

lemma round_online:
  assumes "ar_ID reg = i" "i \<noteq> []" "ar_Address reg \<noteq> []" "online_since t0 old" "quiet_round i t r"
    and "t + 3 * second - (if delivered r then t else t0) \<le> d"
  shows "online_since (if delivered r then t else t0) (node_run d i (round_events i g reg t r) old)"
  unfolding round_events_def node_run_append
  by (rule quiet_online [OF assms(5) [unfolded quiet_round_def] assms(6) tick_online [OF assms(1-4)]])

lemma rounds_online:
  assumes "agent_rounds i g reg t rs m m'"
    and "ar_ID reg = i" "i \<noteq> []" "ar_Address reg \<noteq> []" "9 * second \<le> m_heartbeatTimeout m"
    and "online_since t0 (m_nodes m i)" "t \<le> t0 + 3 * second * int (Suc j)" "j \<le> 2"
    and "losses_ok j rs" "quiet_rounds i t rs"
  shows "\<exists>t1. online_since t1 (m_nodes m' i) \<and> t + 3 * second * int (length rs) \<le> t1 + 9 * second"
  using assms
proof (induction arbitrary: t0 j rule: agent_rounds.induct)
  case (rounds_nil t m)
  have "int (Suc j) \<le> 3" using rounds_nil.prems(7) by simp
  then show ?case using rounds_nil.prems(5,6) by (intro exI [of _ t0]) auto
next
  case (rounds_cons t r m m1 rs m2)
  define u where "u = (if delivered r then t else t0)"
  define k where "k = (if delivered r then 0 else Suc j)"
  have run: "cluster_run m (round_events i g reg t r) m1" by (rule round_run [OF rounds_cons.hyps(1)])
  have k: "k \<le> 2" "losses_ok k rs" and u: "t + 3 * second \<le> u + 3 * second * int (Suc k)"
    using rounds_cons.prems(6,8) by (auto simp: k_def u_def split: if_splits)
  then have "t + 3 * second - u \<le> m_heartbeatTimeout m" using rounds_cons.prems(4) by simp
  then have "online_since u (m_nodes m1 i)"
    using round_online [OF rounds_cons.prems(1-3,5), where r = r and t = t and g = g] rounds_cons.prems(9)
      cluster_run_node [OF run, of i]
    by (simp add: u_def)
  then obtain t1 where "online_since t1 (m_nodes m2 i)"
      "t + 3 * second + 3 * second * int (length rs) \<le> t1 + 9 * second"
    using rounds_cons.IH [of u k] rounds_cons.prems(1-4,9) k u cluster_run_timeout [OF run] by auto
  then show ?case by (intro exI [of _ t1]) (simp add: algebra_simps)
qed


text \<open>
  A node the manager does not have as online, because it was marked offline or because the manager was restarted, is
  not taken back while the manager answers: \<^verbatim>\<open>sendHeartbeat\<close> does not look at the reply, so the agent does not register again, and
  the manager ignores or merely stamps the heartbeats.
\<close>

theorem agent_not_readmitted:
  assumes "agent_rounds i g reg t rs m m'" and "\<forall>r \<in> set rs. rd_link r = Up"
    and "quiet_rounds i t rs" and "\<forall>n. m_nodes m i = Some n \<longrightarrow> n_Status n \<noteq> NodeOnline"
  shows "\<forall>n. m_nodes m' i = Some n \<longrightarrow> n_Status n \<noteq> NodeOnline"
  using assms
proof (induction rule: agent_rounds.induct)
  case (rounds_cons t r m m1 rs m2)
  have "rp_ID reg' \<noteq> i" if "EvRegister now reg' \<in> set (round_events i g reg t r)" for now reg'
    using that rounds_cons.prems(1,2)
    by (auto simp: round_events_def tick_events_def quiet_round_def list_all_iff quiet_event_def)
  then have "\<forall>n. m_nodes m1 i = Some n \<longrightarrow> n_Status n \<noteq> NodeOnline"
    using node_run_offline [of "round_events i g reg t r" i "m_nodes m i" "m_heartbeatTimeout m"] rounds_cons.prems(3)
      cluster_run_node [OF round_run [OF rounds_cons.hyps(1)], of i] by auto
  with rounds_cons show ?case by simp
qed simp

section \<open>Registration and slots\<close>

lemma register_ok:
  assumes "ar_ID reg \<noteq> []" "ar_Address reg \<noteq> []"
  shows "fst (register l now reg m) \<longleftrightarrow> l = Up"
  using assms
  by (cases l) (simp_all add: register_def exchange_def HandleRegister_def registration_payload_def status_of_def
      case_prod_unfold Let_def)

text \<open>What the manager holds of the node after a registration at time \<open>now\<close>.\<close>

definition advertised :: "gotime \<Rightarrow> Registration \<Rightarrow> Manager \<Rightarrow> bool" where
  "advertised now reg m = (case m_nodes m (ar_ID reg) of
     None \<Rightarrow> False
   | Some n \<Rightarrow> n_Status n = NodeOnline \<and> n_LastHeartbeat n = now \<and> n_Name n = ar_Name reg \<and>
       n_Address n = ar_Address reg \<and> n_Port n = ar_Port reg \<and> n_Capacity n = ar_Capacity reg \<and>
       n_Models n = (case ar_Models reg of None \<Rightarrow> [] | Some ms \<Rightarrow> ms))"

lemma register_advertised:
  assumes "ar_ID reg \<noteq> []" "ar_Address reg \<noteq> []"
  shows "advertised now reg (snd (register Up now reg m))"
  using assms
  by (cases "m_nodes m (ar_ID reg)")
    (simp_all add: register_simps advertised_def HandleRegister_def RegisterNode_def node_of_registration_def
      registration_payload_def Let_def)

lemma register_loop_outcome:
  assumes "ar_ID reg \<noteq> []" "ar_Address reg \<noteq> []"
  shows "(\<exists>j. i \<le> j \<and> j < i + k \<and> fst (net j) = Up \<and> (\<forall>j'. i \<le> j' \<longrightarrow> j' < j \<longrightarrow> fst (net j') \<noteq> Up) \<and>
            fst (register_loop k net reg i m) = (j, True) \<and>
            advertised (snd (net j)) reg (snd (register_loop k net reg i m))) \<or>
         (\<forall>j. i \<le> j \<longrightarrow> j < i + k \<longrightarrow> fst (net j) \<noteq> Up) \<and> fst (register_loop k net reg i m) = (i + k, False)"
proof (induction k arbitrary: i m)
  case 0
  show ?case by simp
next
  case (Suc k)
  show ?case
  proof (cases "fst (net i) = Up")
    case True
    then show ?thesis
      using register_ok [OF assms, of Up "snd (net i)" m] register_advertised [OF assms, of "snd (net i)" m]
      by (intro disjI1 exI [of _ i]) (simp add: case_prod_unfold)
  next
    case False
    then have step: "register_loop (Suc k) net reg i m =
        register_loop k net reg (Suc i) (snd (register (fst (net i)) (snd (net i)) reg m))"
      using register_ok [OF assms] by (simp add: case_prod_unfold Let_def)
    show ?thesis
      using Suc [of "Suc i" "snd (register (fst (net i)) (snd (net i)) reg m)"] False
      unfolding step by (auto simp: Suc_le_eq) (metis Suc_leI le_neq_implies_less)+
  qed
qed

text \<open>
  The agent's registration loop ends after at most five attempts. It stops at the first attempt that is answered, and
  then the manager has the node online with the advertised address, port, capacity and models; when none of the
  five is answered the agent goes on without having been told that it is registered.
\<close>

theorem register_agent_outcome:
  assumes "ar_ID reg \<noteq> []" "ar_Address reg \<noteq> []"
  shows "(\<exists>j < 5. fst (net j) = Up \<and> (\<forall>j' < j. fst (net j') \<noteq> Up) \<and> fst (register_agent net reg m) = (j, True) \<and>
            advertised (snd (net j)) reg (snd (register_agent net reg m))) \<or>
         (\<forall>j < 5. fst (net j) \<noteq> Up) \<and> fst (register_agent net reg m) = (5, False)"
  using register_loop_outcome [OF assms, of 0 5 net m] by (auto simp: register_agent_def)

text \<open>
  The connection count of a node comes from heartbeats only, and the agent's never set it.
\<close>

definition from_agents :: "cluster_event \<Rightarrow> bool" where
  "from_agents e = (case e of
     EvRegister _ reg \<Rightarrow> (\<exists>mc. reg = registration_payload (agent_registration mc))
   | EvHeartbeat _ hb \<Rightarrow> (\<exists>nodeID g mc. hb = heartbeat_payload (agent_heartbeat nodeID g mc))
   | _ \<Rightarrow> True)"

definition idle_node :: "Node option \<Rightarrow> bool" where
  "idle_node old = (case old of None \<Rightarrow> True
     | Some n \<Rightarrow> n_ActiveConns n = 0 \<and> - (2 ^ 63) \<le> n_Capacity n \<and> n_Capacity n < 2 ^ 63)"

lemma idle_node_after:
  assumes "from_agents e" "idle_node old"
  shows "idle_node (node_after e d i old)"
proof (cases e)
  case (EvRegister now reg)
  with assms(1) obtain mc where reg: "reg = registration_payload (agent_registration mc)"
    by (auto simp: from_agents_def)
  have "rp_Capacity reg = ac_Capacity (agent_config mc)"
    by (simp add: reg registration_payload_def agent_registration_def Let_def)
  with assms(2) capacity_range [of mc] show ?thesis unfolding EvRegister
    by (cases old) (simp_all add: idle_node_def node_after_def node_of_registration_def)
next
  case (EvHeartbeat now hb)
  with assms(1) have "hb_ActiveConns hb = 0"
    by (auto simp: from_agents_def heartbeat_payload_def agent_heartbeat_def)
  with assms(2) show ?thesis unfolding EvHeartbeat
    by (cases old; cases "hb_Models hb") (simp_all add: idle_node_def node_after_def UpdateLoad_def Let_def)
next
  case (EvDeregister j)
  with assms(2) show ?thesis by (simp add: idle_node_def node_after_def)
next
  case (EvTick now)
  with assms(2) show ?thesis by (cases old) (simp_all add: idle_node_def node_after_def mark_stale_def)
qed

lemma idle_node_run: "list_all from_agents es \<Longrightarrow> idle_node old \<Longrightarrow> idle_node (node_run d i es old)"
  by (induction es arbitrary: old) (auto intro: idle_node_after)

text \<open>
  In a cluster whose nodes are all run by this agent, every node shows all its slots as free for ever: the agent never reports
  its active connections and nothing else in the cluster node counts them, so the slot check of the balancer
  never rejects a node of positive capacity.
\<close>

theorem agent_slots_always_free:
  assumes "cluster_run (NewManager d cb) es m" and "list_all from_agents es" and "m_nodes m i = Some n"
  shows "n_ActiveConns n = 0 \<and> AvailableSlots n = max 0 (n_Capacity n)"
proof -
  have "idle_node (m_nodes m i)"
    using idle_node_run [OF assms(2), of None] cluster_run_node [OF assms(1), of i]
    by (simp add: idle_node_def NewManager_def)
  with assms(3) show ?thesis by (auto simp: idle_node_def AvailableSlots_def Let_def)
qed

section \<open>Witnesses\<close>

definition sample_machine :: machine where
  "sample_machine = \<lparr>mc_getenv = (\<lambda>_. []), mc_hostname = ''box'', mc_GOOS = ''linux'', mc_exec = (\<lambda>_. None),
     mc_ParseFloat = (\<lambda>_. None), mc_port = (\<lambda>_. Some ''11434''), mc_ifaces = None, mc_version = Some ''0.5'',
     mc_tags = Some [''llama3''], mc_alloc = 0\<rparr>"

definition sample_registration :: Registration where
  "sample_registration = agent_registration sample_machine"

definition sample_round :: "link \<Rightarrow> agent_round" where
  "sample_round l = \<lparr>rd_link = l, rd_reg_link = RequestLost, rd_machine = sample_machine, rd_others = []\<rparr>"

lemma sample_registration_eq:
  "ar_ID sample_registration = ''box-node''" "ar_Address sample_registration = ''127.0.0.1''"
  by (simp_all add: sample_registration_def agent_registration_def agent_nodeID_def agent_config_def envOr_def envIntOr_def
      sample_machine_def getLocalIP_def Let_def)

definition sample_hub :: "NodeStatus \<Rightarrow> Manager" where
  "sample_hub st = \<lparr>m_nodes = [''box-node'' \<mapsto> (node_of_registration (registration_payload sample_registration))
       \<lparr>n_Status := st, n_LastHeartbeat := 2 * second\<rparr>],
     m_heartbeatTimeout = 10 * second, m_onUpdate = False, m_notified = 0\<rparr>"

lemma sample_rounds:
  "agent_rounds i g reg t [sample_round l] m
     (round_tick i g reg t (sample_round l) m)"
  by (rule rounds_cons [OF _ rounds_nil]) (simp add: sample_round_def run_nil)


theorem agent_not_readmitted_witness:
  "\<exists>n. m_nodes (round_tick ''box-node'' 8 sample_registration 5 (sample_round Up) (sample_hub NodeOffline)) ''box-node'' = Some n
      \<and> n_Status n \<noteq> NodeOnline"
proof -
  let ?m = "round_tick ''box-node'' 8 sample_registration 5 (sample_round Up) (sample_hub NodeOffline)"
  have "\<forall>n. m_nodes ?m ''box-node'' = Some n \<longrightarrow> n_Status n \<noteq> NodeOnline"
    by (rule agent_not_readmitted [OF sample_rounds])
      (simp_all add: sample_round_def quiet_round_def sample_hub_def)
  moreover obtain n where "m_nodes ?m ''box-node'' = Some n"
    by (simp add: round_tick_def agent_tick_def sendHeartbeat_def exchange_def sample_round_def sample_hub_def
        HandleHeartbeat_def UpdateNodeHeartbeat_def heartbeat_payload_def agent_heartbeat_def GetNode_def
        getOllamaModels_def sample_machine_def call_onUpdate_def Let_def)
  ultimately show ?thesis by blast
qed

theorem register_agent_outcome_witness:
  "fst (register_agent (\<lambda>j. (if j = 2 then Up else RequestLost, int j)) sample_registration (NewManager 10 False)) = (2, True)"
  using register_agent_outcome [of sample_registration "\<lambda>j. (if j = 2 then Up else RequestLost, int j)" "NewManager 10 False"]
  by (auto simp: sample_registration_eq split: if_splits)

theorem agent_slots_always_free_witness:
  "\<exists>n. m_nodes (snd (HandleRegister 5 ''POST'' (Inr (registration_payload sample_registration)) (NewManager 10 False))) ''box-node''
      = Some n \<and> AvailableSlots n = 5"
proof -
  let ?m = "snd (HandleRegister 5 ''POST'' (Inr (registration_payload sample_registration)) (NewManager 10 False))"
  have run: "cluster_run (NewManager 10 False) [EvRegister 5 (registration_payload sample_registration)] ?m"
    by (rule run_cons [OF cl_register run_nil])
  have ev: "list_all from_agents [EvRegister 5 (registration_payload sample_registration)]"
    by (auto simp: from_agents_def sample_registration_def)
  have cap: "ar_Capacity sample_registration = 5"
    by (simp add: sample_registration_def agent_registration_def agent_config_def envIntOr_def envOr_def sample_machine_def Let_def)
  obtain n where n: "m_nodes ?m ''box-node'' = Some n" "n_Capacity n = 5"
    by (simp add: HandleRegister_def RegisterNode_def NewManager_def node_of_registration_def registration_payload_def
        sample_registration_eq cap Let_def)
  have "AvailableSlots n = 5" using agent_slots_always_free [OF run ev n(1)] n(2) by simp
  with n(1) show ?thesis by blast
qed

end
