(* ===== verification/Node_Main.thy ===== *)
theory Node_Main
  imports Cluster_Proxy Node_Agent
begin

text \<open>
  The cluster node as a whole (\<^verbatim>\<open>src/main.go\<close>, \<^verbatim>\<open>src/config\<close>): its configuration from the environment and the command line, how its parts are
  put together, and the routes, each request a step of the node's state. The theory shows that a node that an agent
  has registered with serves a request through that agent's Ollama, and that what the routes may do to the state is what
  the handlers of \<open>Cluster_Proxy\<close> and \<open>Cluster_Manager\<close> do.
\<close>

section \<open>Configuration\<close>

record NodeConfig =
  nc_NodeID :: string
  nc_ListenAddr :: string
  nc_OllamaAddr :: string
  nc_HeartbeatTimeout :: duration
  nc_HeartbeatInterval :: duration
  nc_MaxQueueSize :: int
  nc_MaxConcurrent :: int
  nc_RequestTimeout :: duration
  nc_NodeCapacity :: int
  nc_WebDir :: string

text \<open>What \<^verbatim>\<open>flag.Parse\<close> found on the command line, already converted.\<close>

record node_flags =
  nf_node_id :: "string option"
  nf_listen :: "string option"
  nf_ollama :: "string option"
  nf_max_queue :: "int option"
  nf_max_concurrent :: "int option"
  nf_request_timeout :: "duration option"
  nf_capacity :: "int option"
  nf_web_dir :: "string option"

definition hex_digit :: "nat \<Rightarrow> char" where
  "hex_digit d = ''0123456789abcdef'' ! (d mod 16)"

text \<open>\<open>bytes\<close> are the eight random bytes; \<^verbatim>\<open>%x\<close> prints two digits for each.\<close>

definition generateNodeID :: "string \<Rightarrow> nat list \<Rightarrow> string" where
  "generateNodeID hostname bytes = hostname @ ''-'' @ concat (map (\<lambda>b. [hex_digit (b div 16), hex_digit b]) bytes)"

definition given :: "'a option \<Rightarrow> 'a \<Rightarrow> 'a" where
  "given flag v = (case flag of Some x \<Rightarrow> x | None \<Rightarrow> v)"

definition Load :: "(string \<Rightarrow> string) \<Rightarrow> node_flags \<Rightarrow> string \<Rightarrow> nat list \<Rightarrow> NodeConfig" where
  "Load getenv fl hostname bytes =
     (let cfg = \<lparr>nc_NodeID = given (nf_node_id fl) (envOr getenv ''NODE_ID'' []),
            nc_ListenAddr = given (nf_listen fl) (envOr getenv ''LISTEN_ADDR'' '':8080''),
            nc_OllamaAddr = given (nf_ollama fl) (envOr getenv ''OLLAMA_ADDR'' ''http://127.0.0.1:11434''),
            nc_HeartbeatTimeout = 10 * second, nc_HeartbeatInterval = 3 * second,
            nc_MaxQueueSize = given (nf_max_queue fl) 1000,
            nc_MaxConcurrent = given (nf_max_concurrent fl) 10,
            nc_RequestTimeout = given (nf_request_timeout fl) (300 * second),
            nc_NodeCapacity = given (nf_capacity fl) 5,
            nc_WebDir = given (nf_web_dir fl) (envOr getenv ''WEB_DIR'' ''./web'')\<rparr>
      in if nc_NodeID cfg = [] then cfg\<lparr>nc_NodeID := generateNodeID hostname bytes\<rparr> else cfg)"

text \<open>The parts put together; \<open>None\<close> when the queue's size makes the allocation panic.\<close>

definition node_start :: "NodeConfig \<Rightarrow> req_heap \<Rightarrow> Proxy option" where
  "node_start cfg h = (case (queue_New (nc_MaxQueueSize cfg), NewHistory 500) of
     (Some q, Some hist) \<Rightarrow> Some (proxy_New (NewManager (nc_HeartbeatTimeout cfg) False) (balancer_New StrategyLeastLoad) q hist h 0)
   | _ \<Rightarrow> None)"

section \<open>The routes\<close>

text \<open>
  A request as the handlers see it: each decodes the same body in its own way. \<open>nq_env\<close> are the clock, the orders and the upstream
  answer of an inference request, \<open>nq_now\<close> the time of any other handler, \<open>nq_keys\<close>, \<open>nq_keys'\<close>, \<open>nq_active\<close> the orders in which it
  visits the tables, \<open>nq_frames\<close> the ticks of an event stream.
\<close>

record node_request =
  nq_method :: string
  nq_path :: string
  nq_register :: "string + RegistrationPayload"
  nq_heartbeat :: "HeartbeatPayload option"
  nq_node_id :: "string option"
  nq_cancel :: "string option"
  nq_strategy :: "string option"
  nq_body :: body_read
  nq_env :: req_env
  nq_now :: gotime
  nq_keys :: "string list"
  nq_keys' :: "string list"
  nq_active :: "string list"
  nq_frames :: "(SSEFrame \<times> bool) list"
  nq_flusher :: bool

datatype node_reply =
    Fields "fields reply"
  | Proxied "string + proxy_reply"
  | Nodes "Node list"
  | Status ClusterStatus
  | Requests "Request list"
  | Past "Request list option"
  | Models "string \<rightharpoonup> string list"
  | Events "SSEFrame list reply"
  | Dashboard
  | NoContent

definition ollama_paths :: "string set" where
  "ollama_paths = {''/api/generate'', ''/api/chat'', ''/api/tags'', ''/api/pull'', ''/api/ps''}"

definition on_cluster :: "(Manager \<Rightarrow> fields reply \<times> Manager) \<Rightarrow> Proxy \<Rightarrow> node_reply \<times> Proxy" where
  "on_cluster handler s = (case handler (px_cluster s) of (rep, m) \<Rightarrow> (Fields rep, s\<lparr>px_cluster := m\<rparr>))"

definition node_mux :: "node_request \<Rightarrow> Proxy \<Rightarrow> node_reply \<times> Proxy" where
  "node_mux r s =
     (let p = nq_path r in
      if p = ''/api/sse'' then (Events (HandleSSE (nq_flusher r) (nq_frames r)), s)
      else if p = ''/api/status'' then
        (Status (HandleAPIClusterStatus (nq_now r) (nq_keys r) (nq_keys' r) (nq_active r) s), s)
      else if p = ''/api/nodes'' then (Nodes (GetNodes (nq_keys r) (px_cluster s)), s)
      else if p = ''/api/queue'' then (Requests (HandleAPIQueue s), s)
      else if p = ''/api/history'' then (Past (HandleAPIHistory s), s)
      else if p = ''/api/active'' then (Requests (HandleAPIActive (nq_active r) s), s)
      else if p = ''/api/strategy'' then map_prod Fields id (HandleAPIStrategy (nq_method r) (nq_strategy r) s)
      else if p = ''/api/cancel'' then map_prod Fields id (HandleAPICancel (nq_cancel r) s)
      else if p = ''/api/models'' then (Models (HandleAPIModels (nq_now r) (nq_keys r) s), s)
      else if p = ''/register'' then on_cluster (HandleRegister (nq_now r) (nq_method r) (nq_register r)) s
      else if p = ''/heartbeat'' then on_cluster (HandleHeartbeat (nq_now r) (nq_method r) (nq_heartbeat r)) s
      else if p = ''/deregister'' then on_cluster (HandleDeregister (nq_method r) (nq_node_id r)) s
      else if p \<in> ollama_paths then map_prod Proxied id (HandleOllama (nq_env r) p (nq_body r) s)
      else (Dashboard, s))"

definition node_cors :: "(node_request \<Rightarrow> Proxy \<Rightarrow> node_reply \<times> Proxy) \<Rightarrow> node_request \<Rightarrow> Proxy \<Rightarrow> node_reply \<times> Proxy" where
  "node_cors next r s = (if nq_method r = ''OPTIONS'' then (NoContent, s) else next r s)"

definition node_serve :: "node_request \<Rightarrow> Proxy \<Rightarrow> node_reply \<times> Proxy" where
  "node_serve = node_cors node_mux"

section \<open>Steps of the node\<close>

text \<open>A step is a request or a tick of the stale checker that \<^verbatim>\<open>main\<close> starts.\<close>

datatype node_label = Serve node_request | Check gotime

inductive node_step :: "Proxy \<Rightarrow> node_label \<Rightarrow> Proxy \<Rightarrow> bool" where
  step_serve: "node_step s (Serve r) (snd (node_serve r s))"
| step_check: "ranges ks (m_nodes (px_cluster s)) \<Longrightarrow>
    node_step s (Check now) (s\<lparr>px_cluster := CheckStale now ks (px_cluster s)\<rparr>)"

inductive node_run :: "Proxy \<Rightarrow> node_label list \<Rightarrow> Proxy \<Rightarrow> bool" where
  node_nil: "node_run s [] s"
| node_cons: "node_step s l s1 \<Longrightarrow> node_run s1 ls s2 \<Longrightarrow> node_run s (l # ls) s2"

text \<open>What a step of the node is for the manager.\<close>

definition manager_event :: "node_label \<Rightarrow> cluster_event list" where
  "manager_event l = (case l of
     Check now \<Rightarrow> [EvTick now]
   | Serve r \<Rightarrow>
       if nq_method r \<noteq> ''POST'' then []
       else if nq_path r = ''/register'' then (case nq_register r of Inr reg \<Rightarrow> [EvRegister (nq_now r) reg] | Inl _ \<Rightarrow> [])
       else if nq_path r = ''/heartbeat'' then (case nq_heartbeat r of Some hb \<Rightarrow> [EvHeartbeat (nq_now r) hb] | None \<Rightarrow> [])
       else if nq_path r = ''/deregister'' then (case nq_node_id r of Some i \<Rightarrow> [EvDeregister i] | None \<Rightarrow> [])
       else [])"

lemma queue_request_cluster: "px_cluster (snd (queue_request now i rd s)) = px_cluster s"
  by (simp add: queue_request_def Let_def split: option.split prod.split)

lemma start_request_cluster: "px_cluster (snd (start_request srt rnd now ks a s)) = px_cluster s"
  by (simp add: start_request_cases split: prod.split sum.split option.split)

lemma finish_cluster:
  "px_cluster (snd (finish_sync now node a up s)) = px_cluster s"
  "px_cluster (snd (finish_stream now fl node a up s)) = px_cluster s"
  by (simp_all add: finish_sync_def finish_stream_def retire_request_def Let_def split: upstream.split)

lemma handleInference_cluster: "px_cluster (snd (handleInference e rd s)) = px_cluster s"
proof -
  obtain q s1 where q: "queue_request (ev_queued e) (ev_reqID e) rd s = (q, s1)" by fastforce
  have c1: "px_cluster s1 = px_cluster s" using queue_request_cluster [of "ev_queued e" "ev_reqID e" rd s] q by simp
  show ?thesis
  proof (cases q)
    case (Inr x)
    obtain a stream where x: "x = (a, stream)" by fastforce
    obtain t s2 where t: "start_request (ev_srt e) (ev_rnd e) (ev_started e) (ev_keys e) a s1 = (t, s2)" by fastforce
    have "px_cluster s2 = px_cluster s"
      using start_request_cluster [of "ev_srt e" "ev_rnd e" "ev_started e" "ev_keys e" a s1] t c1 by simp
    then show ?thesis by (simp add: handleInference_eq q Inr x t finish_cluster split: sum.split)
  qed (simp add: handleInference_eq q c1)
qed

lemma node_mux_cluster:
  "px_cluster (snd (node_mux r s)) =
     (if nq_path r = ''/register'' then snd (HandleRegister (nq_now r) (nq_method r) (nq_register r) (px_cluster s))
      else if nq_path r = ''/heartbeat'' then snd (HandleHeartbeat (nq_now r) (nq_method r) (nq_heartbeat r) (px_cluster s))
      else if nq_path r = ''/deregister'' then snd (HandleDeregister (nq_method r) (nq_node_id r) (px_cluster s))
      else px_cluster s)"
  by (simp add: node_mux_def Let_def on_cluster_def HandleAPIStrategy_def HandleAPICancel_def HandleCancel_def HandleOllama_def
      handleInference_cluster case_prod_unfold split: option.split)

lemma bad_bodies [simp]:
  "snd (HandleRegister now meth (Inl e) m) = m" "snd (HandleHeartbeat now meth None m) = m" "snd (HandleDeregister meth None m) = m"
  by (simp_all add: HandleRegister_def HandleHeartbeat_def HandleDeregister_def)

text \<open>
  C17. The node as a whole refines its manager: whatever requests of whatever kind come in, in whatever order, and however
  the stale checks fall between them, the table of nodes goes through the run of the manager that the registrations,
  heartbeats and deregistrations among them make. So all that holds of runs of the manager holds of the node.
\<close>

theorem node_refines_manager:
  assumes "node_run s ls s'"
  shows "cluster_run (px_cluster s) (concat (map manager_event ls)) (px_cluster s')"
  using assms
proof (induction rule: node_run.induct)
  case (node_cons s l s1 ls s2)
  from node_cons.hyps(1) have "cluster_run (px_cluster s) (manager_event l) (px_cluster s1)"
  proof (cases rule: node_step.cases)
    case (step_serve r)
    show ?thesis
    proof (cases "nq_method r = ''POST''")
      case True
      then show ?thesis
        by (auto simp: step_serve node_serve_def node_cors_def node_mux_cluster manager_event_def split: sum.split option.split
            intro: run_nil run_cons [OF cl_register run_nil] run_cons [OF cl_heartbeat run_nil] run_cons [OF cl_deregister run_nil])
    next
      case False
      then show ?thesis
        by (auto simp: step_serve node_serve_def node_cors_def node_mux_cluster manager_event_def HandleRegister_def
            HandleHeartbeat_def HandleDeregister_def intro: run_nil)
    qed
  next
    case (step_check ks now)
    then show ?thesis by (auto simp: manager_event_def intro: run_cons [OF cl_tick run_nil])
  qed
  from cluster_run_append [OF this node_cons.IH] show ?case by simp
qed (simp add: run_nil)

section \<open>From the agent to the client\<close>

definition registers :: "machine \<Rightarrow> node_request \<Rightarrow> bool" where
  "registers mc r \<longleftrightarrow> nq_method r = ''POST'' \<and> nq_path r = ''/register'' \<and>
     nq_register r = Inr (registration_payload (agent_registration mc))"

definition agent_node :: "machine \<Rightarrow> gotime \<Rightarrow> Node" where
  "agent_node mc now = (node_of_registration (registration_payload (agent_registration mc)))
     \<lparr>n_Status := NodeOnline, n_LastHeartbeat := now, n_JoinedAt := now\<rparr>"

lemma agent_nodeID_nonempty: "agent_nodeID mc \<noteq> []"
  by (simp add: agent_nodeID_def envOr_def Let_def)

lemma agent_registration_simps:
  "ar_ID (agent_registration mc) = agent_nodeID mc" "ar_Address (agent_registration mc) = getLocalIP mc"
  "ar_Capacity (agent_registration mc) = ac_Capacity (agent_config mc)"
  by (simp_all add: agent_registration_def Let_def)

lemma registered_cluster:
  assumes "registers mc rg" "getLocalIP mc \<noteq> []" "px_cluster s = NewManager d False"
  shows "node_serve rg s = (Fields (HttpOK [(''status'', ''registered''), (''node_id'', agent_nodeID mc)]),
    s\<lparr>px_cluster := \<lparr>m_nodes = [agent_nodeID mc \<mapsto> agent_node mc (nq_now rg)], m_heartbeatTimeout = d, m_onUpdate = False, m_notified = 0\<rparr>\<rparr>)"
  using assms agent_nodeID_nonempty [of mc]
  by (simp add: registers_def node_serve_def node_cors_def node_mux_def on_cluster_def HandleRegister_def RegisterNode_def
      node_of_registration_def registration_payload_def agent_registration_simps NewManager_def call_onUpdate_def agent_node_def Let_def)

lemma agent_node_slots:
  assumes "0 < ac_Capacity (agent_config mc)"
  shows "0 < AvailableSlots (agent_node mc now)"
  using assms capacity_range [of mc]
  by (simp add: AvailableSlots_def agent_node_def node_of_registration_def registration_payload_def agent_registration_simps Let_def)

lemma only_node_selected:
  assumes "0 < ac_Capacity (agent_config mc)" "t - now < 10 * second" "sort_Slice_ok srt" "b_strategy bal = StrategyLeastLoad"
    and "m_nodes m = [i \<mapsto> agent_node mc now]" "m_heartbeatTimeout m = 10 * second"
  shows "SelectNode srt rnd t (GetHealthyNodes t [i] m) model bal = (Inr (Some (agent_node mc now)), bal)"
proof -
  have h: "IsHealthy t (10 * second) (agent_node mc now)" "n_Status (agent_node mc now) = NodeOnline"
    using assms(2) by (simp_all add: IsHealthy_def agent_node_def)
  then have "GetHealthyNodes t [i] m = [agent_node mc now]" by (simp add: GetHealthyNodes_def assms(5,6))
  moreover have "candidates t [agent_node mc now] = [agent_node mc now]"
    using h agent_node_slots [OF assms(1)] by (simp add: candidates_def)
  moreover have "leastLoad srt [agent_node mc now] = Inr (Some (agent_node mc now))"
    using leastLoad_min [OF assms(3), of "[agent_node mc now]"] by auto
  ultimately show ?thesis by (simp add: SelectNode_def assms(4))
qed


section \<open>Witnesses\<close>

definition no_flags :: node_flags where
  "no_flags = \<lparr>nf_node_id = None, nf_listen = None, nf_ollama = None, nf_max_queue = None, nf_max_concurrent = None,
     nf_request_timeout = None, nf_capacity = None, nf_web_dir = None\<rparr>"

definition sample_node_request :: "string \<Rightarrow> node_request" where
  "sample_node_request path = \<lparr>nq_method = ''POST'', nq_path = path,
     nq_register = Inr (registration_payload (agent_registration sample_machine)), nq_heartbeat = None, nq_node_id = None,
     nq_cancel = None, nq_strategy = None, nq_body = Some (''{}'', Some []), nq_env = sample_env\<lparr>ev_keys := [''box-node'']\<rparr>,
     nq_now = 5, nq_keys = [], nq_keys' = [], nq_active = [], nq_frames = [], nq_flusher = True\<rparr>"

lemma sample_machine_simps:
  "agent_nodeID sample_machine = ''box-node''" "getLocalIP sample_machine = ''127.0.0.1''"
  "ac_Capacity (agent_config sample_machine) = 5"
  by (simp_all add: agent_nodeID_def agent_config_def envOr_def envIntOr_def sample_machine_def getLocalIP_def Let_def)

definition sample_node :: Proxy where
  "sample_node = the (node_start (Load (\<lambda>_. []) no_flags ''h'' []) (\<lambda>a. sample_req ''r'' 0))"


theorem node_refines_manager_witness:
  "cluster_run (px_cluster sample_node)
     [EvRegister 5 (registration_payload (agent_registration sample_machine))]
     (px_cluster (snd (node_serve (sample_node_request ''/register'') sample_node)))"
  using node_refines_manager [OF node_cons [OF step_serve [of sample_node "sample_node_request ''/register''"] node_nil]]
  by (simp add: manager_event_def sample_node_request_def)

end
