(* ===== verification/Prom_Metrics.thy ===== *)
theory Prom_Metrics
  imports Job_Model Model_Registry
begin

text \<open>
  The Prometheus metrics of the hive server (\<^verbatim>\<open>hive-server-go/metrics_prometheus.go\<close>): the declarations of the metrics and the methods
  that record into them. The Prometheus client is third-party: its registry is an arbitrary state \<open>'r\<close> with the operations
  \<open>prom_ops\<close>, and \<open>prom_ok\<close> states what its documentation promises of them. A panic of the client is \<open>None\<close>. The theory shows that every
  method gives each metric it touches the number of labels and the kind of value the metric was declared with, so that none
  panics, what the counters count, and that a second manager cannot be made.
\<close>

section \<open>Declarations\<close>

datatype metric_kind = CounterMetric | GaugeMetric | HistogramMetric

text \<open>\<open>md_buckets\<close> are the arguments of \<^verbatim>\<open>ExponentialBuckets\<close>. The help texts are left out.\<close>

record metric_desc =
  md_name :: string
  md_kind :: metric_kind
  md_labels :: "string list"
  md_buckets :: "(real \<times> real \<times> nat) option"

definition requestsTotal :: metric_desc where
  "requestsTotal = \<lparr>md_name = ''hive_requests_total'', md_kind = CounterMetric,
     md_labels = [''model'', ''provider'', ''status'', ''priority'', ''routing_decision''], md_buckets = None\<rparr>"

definition requestDuration :: metric_desc where
  "requestDuration = \<lparr>md_name = ''hive_request_duration_seconds'', md_kind = HistogramMetric,
     md_labels = [''model'', ''provider'', ''job_type'', ''priority''], md_buckets = Some (1 / 10, 2, 10)\<rparr>"

definition requestSize :: metric_desc where
  "requestSize = \<lparr>md_name = ''hive_request_size_bytes'', md_kind = HistogramMetric,
     md_labels = [''job_type''], md_buckets = Some (100, 2, 10)\<rparr>"

definition responseSize :: metric_desc where
  "responseSize = \<lparr>md_name = ''hive_response_size_bytes'', md_kind = HistogramMetric,
     md_labels = [''model'', ''job_type''], md_buckets = Some (100, 2, 12)\<rparr>"

definition modelLoadsTotal :: metric_desc where
  "modelLoadsTotal = \<lparr>md_name = ''hive_model_loads_total'', md_kind = CounterMetric,
     md_labels = [''model'', ''provider'', ''node_id'', ''status''], md_buckets = None\<rparr>"

definition modelsLoaded :: metric_desc where
  "modelsLoaded = \<lparr>md_name = ''hive_models_loaded'', md_kind = GaugeMetric,
     md_labels = [''node_id'', ''provider''], md_buckets = None\<rparr>"

definition modelLatency :: metric_desc where
  "modelLatency = \<lparr>md_name = ''hive_model_inference_latency_seconds'', md_kind = HistogramMetric,
     md_labels = [''model'', ''provider'', ''context_length''], md_buckets = Some (5 / 10, 2, 10)\<rparr>"

definition modelSwitchesTotal :: metric_desc where
  "modelSwitchesTotal = \<lparr>md_name = ''hive_model_switches_total'', md_kind = CounterMetric,
     md_labels = [], md_buckets = None\<rparr>"

definition queueDepth :: metric_desc where
  "queueDepth = \<lparr>md_name = ''hive_queue_depth'', md_kind = GaugeMetric,
     md_labels = [''priority''], md_buckets = None\<rparr>"

definition queueEnqueueTotal :: metric_desc where
  "queueEnqueueTotal = \<lparr>md_name = ''hive_queue_enqueue_total'', md_kind = CounterMetric,
     md_labels = [''priority'', ''job_type''], md_buckets = None\<rparr>"

definition queueDequeueTotal :: metric_desc where
  "queueDequeueTotal = \<lparr>md_name = ''hive_queue_dequeue_total'', md_kind = CounterMetric,
     md_labels = [''priority'', ''job_type''], md_buckets = None\<rparr>"

definition queueWaitTime :: metric_desc where
  "queueWaitTime = \<lparr>md_name = ''hive_queue_wait_time_seconds'', md_kind = HistogramMetric,
     md_labels = [''priority''], md_buckets = Some (1, 2, 10)\<rparr>"

definition peerLatency :: metric_desc where
  "peerLatency = \<lparr>md_name = ''hive_peer_latency_seconds'', md_kind = HistogramMetric,
     md_labels = [''peer_id'', ''operation''], md_buckets = Some (1 / 100, 2, 10)\<rparr>"

definition peerRequestsTotal :: metric_desc where
  "peerRequestsTotal = \<lparr>md_name = ''hive_peer_requests_total'', md_kind = CounterMetric,
     md_labels = [''peer_id'', ''status''], md_buckets = None\<rparr>"

definition peerFailuresTotal :: metric_desc where
  "peerFailuresTotal = \<lparr>md_name = ''hive_peer_failures_total'', md_kind = CounterMetric,
     md_labels = [''peer_id'', ''error_type''], md_buckets = None\<rparr>"

definition cacheHitsTotal :: metric_desc where
  "cacheHitsTotal = \<lparr>md_name = ''hive_cache_hits_total'', md_kind = CounterMetric,
     md_labels = [], md_buckets = None\<rparr>"

definition cacheMissesTotal :: metric_desc where
  "cacheMissesTotal = \<lparr>md_name = ''hive_cache_misses_total'', md_kind = CounterMetric,
     md_labels = [], md_buckets = None\<rparr>"

definition cacheSize :: metric_desc where
  "cacheSize = \<lparr>md_name = ''hive_cache_size'', md_kind = GaugeMetric,
     md_labels = [], md_buckets = None\<rparr>"

definition cacheEvictionsTotal :: metric_desc where
  "cacheEvictionsTotal = \<lparr>md_name = ''hive_cache_evictions_total'', md_kind = CounterMetric,
     md_labels = [], md_buckets = None\<rparr>"

definition circuitBreakerState :: metric_desc where
  "circuitBreakerState = \<lparr>md_name = ''hive_circuit_breaker_state'', md_kind = GaugeMetric,
     md_labels = [''provider'', ''endpoint''], md_buckets = None\<rparr>"

definition circuitBreakerTrips :: metric_desc where
  "circuitBreakerTrips = \<lparr>md_name = ''hive_circuit_breaker_trips_total'', md_kind = CounterMetric,
     md_labels = [''provider'', ''endpoint''], md_buckets = None\<rparr>"

definition tokensGenerated :: metric_desc where
  "tokensGenerated = \<lparr>md_name = ''hive_tokens_generated_total'', md_kind = CounterMetric,
     md_labels = [''model'', ''provider''], md_buckets = None\<rparr>"

definition tokensPerSecond :: metric_desc where
  "tokensPerSecond = \<lparr>md_name = ''hive_tokens_per_second'', md_kind = GaugeMetric,
     md_labels = [''model'', ''provider''], md_buckets = None\<rparr>"

definition vramUsageBytes :: metric_desc where
  "vramUsageBytes = \<lparr>md_name = ''hive_vram_usage_bytes'', md_kind = GaugeMetric,
     md_labels = [''provider'', ''device''], md_buckets = None\<rparr>"

definition gpuUtilization :: metric_desc where
  "gpuUtilization = \<lparr>md_name = ''hive_gpu_utilization'', md_kind = GaugeMetric,
     md_labels = [''provider'', ''device''], md_buckets = None\<rparr>"

definition hive_metrics :: "metric_desc list" where
  "hive_metrics = [requestsTotal, requestDuration, requestSize, responseSize, modelLoadsTotal, modelsLoaded, modelLatency, modelSwitchesTotal,
     queueDepth, queueEnqueueTotal, queueDequeueTotal, queueWaitTime,
     peerLatency, peerRequestsTotal, peerFailuresTotal, cacheHitsTotal, cacheMissesTotal, cacheSize, cacheEvictionsTotal,
     circuitBreakerState, circuitBreakerTrips, tokensGenerated, tokensPerSecond, vramUsageBytes, gpuUtilization]"

lemmas metric_defs = requestsTotal_def requestDuration_def requestSize_def responseSize_def modelLoadsTotal_def modelsLoaded_def modelLatency_def modelSwitchesTotal_def queueDepth_def queueEnqueueTotal_def queueDequeueTotal_def queueWaitTime_def peerLatency_def peerRequestsTotal_def peerFailuresTotal_def cacheHitsTotal_def cacheMissesTotal_def cacheSize_def cacheEvictionsTotal_def circuitBreakerState_def circuitBreakerTrips_def tokensGenerated_def tokensPerSecond_def vramUsageBytes_def gpuUtilization_def

section \<open>The client\<close>

datatype metric_op = Inc | Add real | Set real | Observe real

record 'r prom_ops =
  po_register :: "metric_desc \<Rightarrow> 'r \<Rightarrow> 'r option"
  po_update :: "string \<Rightarrow> string list \<Rightarrow> metric_op \<Rightarrow> 'r \<Rightarrow> 'r option"

definition NewMetricsManager :: "'r prom_ops \<Rightarrow> 'r \<Rightarrow> 'r option" where
  "NewMetricsManager ops r = foldl (\<lambda>x d. Option.bind x (po_register ops d)) (Some r) hive_metrics"

type_synonym metric_update = "metric_desc \<times> string list \<times> metric_op"

definition record_one :: "'r prom_ops \<Rightarrow> metric_update \<Rightarrow> 'r \<Rightarrow> 'r option" where
  "record_one ops u r = (case u of (d, labels, x) \<Rightarrow> po_update ops (md_name d) labels x r)"

fun record_all :: "'r prom_ops \<Rightarrow> metric_update list \<Rightarrow> 'r \<Rightarrow> 'r option" where
  "record_all ops [] r = Some r"
| "record_all ops (u # us) r = Option.bind (record_one ops u r) (record_all ops us)"

section \<open>The methods\<close>

text \<open>Each method is the list of the updates it makes, in order. Durations are in nanoseconds.\<close>

definition Seconds :: "duration \<Rightarrow> real" where
  "Seconds d = of_int d / of_int second"

definition RecordRequest :: "string \<Rightarrow> string \<Rightarrow> string \<Rightarrow> string \<Rightarrow> string \<Rightarrow> duration \<Rightarrow> metric_update list" where
  "RecordRequest model provider status priority routing dur =
     [(requestsTotal, [model, provider, status, priority, routing], Inc),
      (requestDuration, [model, provider, ''chat'', priority], Observe (Seconds dur))]"

definition RecordModelLoad :: "string \<Rightarrow> string \<Rightarrow> string \<Rightarrow> string \<Rightarrow> metric_update list" where
  "RecordModelLoad model provider nodeID status = [(modelLoadsTotal, [model, provider, nodeID, status], Inc)]"

definition UpdateModelsLoaded :: "string \<Rightarrow> string \<Rightarrow> int \<Rightarrow> metric_update list" where
  "UpdateModelsLoaded nodeID provider n = [(modelsLoaded, [nodeID, provider], Set (of_int n))]"

definition RecordQueueEnqueue :: "int \<Rightarrow> string \<Rightarrow> duration \<Rightarrow> metric_update list" where
  "RecordQueueEnqueue priority jobType waitTime =
     [(queueEnqueueTotal, [JobPriority_String priority, jobType], Inc),
      (queueWaitTime, [JobPriority_String priority], Observe (Seconds waitTime))]"

definition RecordQueueDequeue :: "int \<Rightarrow> string \<Rightarrow> metric_update list" where
  "RecordQueueDequeue priority jobType = [(queueDequeueTotal, [JobPriority_String priority, jobType], Inc)]"

definition UpdateQueueDepth :: "int \<Rightarrow> int \<Rightarrow> metric_update list" where
  "UpdateQueueDepth priority depth = [(queueDepth, [JobPriority_String priority], Set (of_int depth))]"

definition RecordPeerRequest :: "string \<Rightarrow> string \<Rightarrow> duration \<Rightarrow> metric_update list" where
  "RecordPeerRequest peerID status latency =
     [(peerRequestsTotal, [peerID, status], Inc), (peerLatency, [peerID, ''forward''], Observe (Seconds latency))]"

definition RecordPeerFailure :: "string \<Rightarrow> string \<Rightarrow> metric_update list" where
  "RecordPeerFailure peerID errorType = [(peerFailuresTotal, [peerID, errorType], Inc)]"

definition RecordCacheHit :: "metric_update list" where
  "RecordCacheHit = [(cacheHitsTotal, [], Inc)]"

definition RecordCacheMiss :: "metric_update list" where
  "RecordCacheMiss = [(cacheMissesTotal, [], Inc)]"

definition UpdateCacheSize :: "int \<Rightarrow> metric_update list" where
  "UpdateCacheSize n = [(cacheSize, [], Set (of_int n))]"

definition RecordCacheEviction :: "metric_update list" where
  "RecordCacheEviction = [(cacheEvictionsTotal, [], Inc)]"

definition UpdateCircuitBreakerState :: "string \<Rightarrow> string \<Rightarrow> int \<Rightarrow> metric_update list" where
  "UpdateCircuitBreakerState provider endpoint state = [(circuitBreakerState, [provider, endpoint], Set (of_int state))]"

definition RecordCircuitBreakerTrip :: "string \<Rightarrow> string \<Rightarrow> metric_update list" where
  "RecordCircuitBreakerTrip provider endpoint = [(circuitBreakerTrips, [provider, endpoint], Inc)]"

definition RecordTokensGenerated :: "string \<Rightarrow> string \<Rightarrow> int \<Rightarrow> metric_update list" where
  "RecordTokensGenerated model provider n = [(tokensGenerated, [model, provider], Add (of_int n))]"

definition UpdateTokensPerSecond :: "string \<Rightarrow> string \<Rightarrow> real \<Rightarrow> metric_update list" where
  "UpdateTokensPerSecond model provider tps = [(tokensPerSecond, [model, provider], Set tps)]"

definition UpdateVRAMUsage :: "string \<Rightarrow> string \<Rightarrow> int \<Rightarrow> metric_update list" where
  "UpdateVRAMUsage provider device bytes = [(vramUsageBytes, [provider, device], Set (of_int bytes))]"

definition UpdateGPUUtilization :: "string \<Rightarrow> string \<Rightarrow> real \<Rightarrow> metric_update list" where
  "UpdateGPUUtilization provider device percent = [(gpuUtilization, [provider, device], Set percent)]"

definition RecordModelSwitch :: "metric_update list" where
  "RecordModelSwitch = [(modelSwitchesTotal, [], Inc)]"

text \<open>The map \<^verbatim>\<open>GetStats\<close> returns, and the periodic collection that looks a count up in it.\<close>

definition stats_map :: "RegistryStats \<Rightarrow> (string \<times> int) list" where
  "stats_map st = [(''local_models_loaded'', rs_local_models_loaded st), (''peer_models_tracked'', rs_peer_models_tracked st),
     (''total_loads'', rs_total_loads st), (''total_unloads'', rs_total_unloads st), (''load_failures'', rs_load_failures st),
     (''family_groups'', rs_family_groups st)]"

definition collectPeriodicMetrics :: "string \<Rightarrow> string list \<Rightarrow> string list \<Rightarrow> ModelRegistry option option \<Rightarrow> metric_update list" where
  "collectPeriodicMetrics serverID ks ns hs = (case hs of
     Some (Some mr) \<Rightarrow> (case map_of (stats_map (registry_GetStats ks ns mr)) ''local_models'' of
         Some localCount \<Rightarrow> UpdateModelsLoaded serverID ''local'' localCount
       | None \<Rightarrow> [])
   | _ \<Rightarrow> [])"

section \<open>What the client promises\<close>

text \<open>
  \<open>desc\<close> is what is registered under a name, \<open>val\<close> the value of a counter or gauge under a name and labels. Registering panics only
  for a name in use or a malformed declaration (names of lower-case letters and underscores, distinct labels, and positive
  bucket arguments are well formed). Recording panics when the number of labels is not the declared one, the metric is of
  another kind, or a counter is to be decreased.
\<close>

definition plain_metric_name :: "string \<Rightarrow> bool" where
  "plain_metric_name s \<longleftrightarrow> s \<noteq> [] \<and> list_all (\<lambda>c. c \<in> set ''abcdefghijklmnopqrstuvwxyz_'') s"

definition plain_desc :: "metric_desc \<Rightarrow> bool" where
  "plain_desc d \<longleftrightarrow> plain_metric_name (md_name d) \<and> list_all plain_metric_name (md_labels d) \<and> distinct (md_labels d) \<and>
     (case md_buckets d of None \<Rightarrow> md_kind d \<noteq> HistogramMetric
      | Some (start, factor, n) \<Rightarrow> md_kind d = HistogramMetric \<and> 0 < start \<and> 1 < factor \<and> 0 < n)"

fun kind_allows :: "metric_kind \<Rightarrow> metric_op \<Rightarrow> bool" where
  "kind_allows CounterMetric Inc = True"
| "kind_allows CounterMetric (Add x) = (0 \<le> x)"
| "kind_allows GaugeMetric (Set x) = True"
| "kind_allows HistogramMetric (Observe x) = True"
| "kind_allows _ _ = False"

definition accepts :: "metric_desc option \<Rightarrow> string list \<Rightarrow> metric_op \<Rightarrow> bool" where
  "accepts d ls x = (case d of None \<Rightarrow> False | Some d \<Rightarrow> length ls = length (md_labels d) \<and> kind_allows (md_kind d) x)"

type_synonym metric_values = "string \<Rightarrow> string list \<Rightarrow> real"

fun new_value :: "metric_op \<Rightarrow> real \<Rightarrow> real" where
  "new_value Inc v = v + 1"
| "new_value (Add x) v = v + x"
| "new_value (Set x) v = x"
| "new_value (Observe x) v = v"

definition set_value :: "metric_values \<Rightarrow> string \<Rightarrow> string list \<Rightarrow> metric_op \<Rightarrow> metric_values" where
  "set_value val n ls x = val(n := (val n)(ls := new_value x (val n ls)))"

definition prom_ok :: "'r prom_ops \<Rightarrow> ('r \<Rightarrow> string \<rightharpoonup> metric_desc) \<Rightarrow> ('r \<Rightarrow> metric_values) \<Rightarrow> bool" where
  "prom_ok ops desc val \<longleftrightarrow>
     (\<forall>d r. case po_register ops d r of
        None \<Rightarrow> desc r (md_name d) \<noteq> None \<or> \<not> plain_desc d
      | Some r' \<Rightarrow> desc r (md_name d) = None \<and> desc r' = (desc r)(md_name d \<mapsto> d) \<and> val r' = val r) \<and>
     (\<forall>n ls x r. case po_update ops n ls x r of
        None \<Rightarrow> \<not> accepts (desc r n) ls x
      | Some r' \<Rightarrow> accepts (desc r n) ls x \<and> desc r' = desc r \<and> val r' = set_value (val r) n ls x)"

lemma prom_register:
  assumes "prom_ok ops desc val" "plain_desc d" "desc r (md_name d) = None"
  shows "\<exists>r'. po_register ops d r = Some r' \<and> desc r' = (desc r)(md_name d \<mapsto> d) \<and> val r' = val r"
proof (cases "po_register ops d r")
  case None
  have "case po_register ops d r of
      None \<Rightarrow> desc r (md_name d) \<noteq> None \<or> \<not> plain_desc d
    | Some r' \<Rightarrow> desc r (md_name d) = None \<and> desc r' = (desc r)(md_name d \<mapsto> d) \<and> val r' = val r"
    using assms(1) unfolding prom_ok_def by blast
  with None assms(2,3) show ?thesis by simp
next
  case (Some r')
  have "case po_register ops d r of
      None \<Rightarrow> desc r (md_name d) \<noteq> None \<or> \<not> plain_desc d
    | Some r' \<Rightarrow> desc r (md_name d) = None \<and> desc r' = (desc r)(md_name d \<mapsto> d) \<and> val r' = val r"
    using assms(1) unfolding prom_ok_def by blast
  with Some show ?thesis by simp
qed

lemma prom_register_taken:
  assumes "prom_ok ops desc val" "desc r (md_name d) \<noteq> None"
  shows "po_register ops d r = None"
proof (rule ccontr)
  assume "po_register ops d r \<noteq> None"
  then obtain r' where r': "po_register ops d r = Some r'" by blast
  have "case po_register ops d r of
      None \<Rightarrow> desc r (md_name d) \<noteq> None \<or> \<not> plain_desc d
    | Some r' \<Rightarrow> desc r (md_name d) = None \<and> desc r' = (desc r)(md_name d \<mapsto> d) \<and> val r' = val r"
    using assms(1) unfolding prom_ok_def by blast
  with r' assms(2) show False by simp
qed

lemma prom_update:
  assumes "prom_ok ops desc val" "accepts (desc r n) ls x"
  shows "\<exists>r'. po_update ops n ls x r = Some r' \<and> desc r' = desc r \<and> val r' = set_value (val r) n ls x"
proof -
  have "case po_update ops n ls x r of
      None \<Rightarrow> \<not> accepts (desc r n) ls x
    | Some r' \<Rightarrow> accepts (desc r n) ls x \<and> desc r' = desc r \<and> val r' = set_value (val r) n ls x"
    using assms(1) unfolding prom_ok_def by blast
  with assms(2) show ?thesis by (auto split: option.splits)
qed

section \<open>No method panics\<close>

lemma hive_metrics_plain: "list_all plain_desc hive_metrics"
  by (simp add: hive_metrics_def metric_defs plain_desc_def plain_metric_name_def)

lemma hive_metrics_distinct: "distinct (map md_name hive_metrics)"
  by (simp add: hive_metrics_def metric_defs)

definition registered :: "('r \<Rightarrow> string \<rightharpoonup> metric_desc) \<Rightarrow> metric_desc list \<Rightarrow> 'r \<Rightarrow> bool" where
  "registered desc ds r \<longleftrightarrow> (\<forall>d \<in> set ds. desc r (md_name d) = Some d)"

lemma register_all:
  assumes "prom_ok ops desc val" "list_all plain_desc ds" "distinct (map md_name ds)"
    and "\<forall>d \<in> set ds. desc r (md_name d) = None"
  shows "\<exists>r'. foldl (\<lambda>x d. Option.bind x (po_register ops d)) (Some r) ds = Some r' \<and> registered desc ds r' \<and>
    val r' = val r \<and> (\<forall>n. n \<notin> md_name ` set ds \<longrightarrow> desc r' n = desc r n)"
  using assms(2-4)
proof (induction ds arbitrary: r)
  case Nil
  then show ?case by (auto simp: registered_def)
next
  case (Cons d ds)
  then obtain r1 where r1: "po_register ops d r = Some r1" "desc r1 = (desc r)(md_name d \<mapsto> d)" "val r1 = val r"
    using prom_register [OF assms(1), of d r] by auto
  have "\<forall>d' \<in> set ds. md_name d' \<noteq> md_name d" using Cons.prems(2) by (auto dest: sym)
  then have "\<forall>d' \<in> set ds. desc r1 (md_name d') = None" using Cons.prems(3) r1(2) by simp
  with Cons.IH [of r1] Cons.prems(1,2)
  obtain r' where r': "foldl (\<lambda>x d. Option.bind x (po_register ops d)) (Some r1) ds = Some r'" "registered desc ds r'"
      "val r' = val r1" "\<forall>n. n \<notin> md_name ` set ds \<longrightarrow> desc r' n = desc r1 n" by auto
  moreover have "desc r' (md_name d) = Some d" using r'(4) Cons.prems(2) r1(2) by auto
  ultimately show ?case using r1 by (intro exI [of _ r']) (auto simp: registered_def)
qed

definition update_ok :: "metric_update \<Rightarrow> bool" where
  "update_ok u = (case u of (d, ls, x) \<Rightarrow> d \<in> set hive_metrics \<and> length ls = length (md_labels d) \<and> kind_allows (md_kind d) x)"

lemma record_all_ok:
  assumes "prom_ok ops desc val" "registered desc hive_metrics r" "list_all update_ok us"
  shows "\<exists>r'. record_all ops us r = Some r' \<and> desc r' = desc r \<and>
    val r' = foldl (\<lambda>v (d, ls, x). set_value v (md_name d) ls x) (val r) us"
  using assms(2,3)
proof (induction us arbitrary: r)
  case (Cons u us)
  obtain d ls x where u: "u = (d, ls, x)" by (cases u)
  have "accepts (desc r (md_name d)) ls x" using Cons.prems u by (auto simp: update_ok_def registered_def accepts_def)
  then obtain r1 where r1: "po_update ops (md_name d) ls x r = Some r1" "desc r1 = desc r"
      "val r1 = set_value (val r) (md_name d) ls x"
    using prom_update [OF assms(1)] by blast
  have "registered desc hive_metrics r1" using Cons.prems(1) r1(2) by (simp add: registered_def)
  with Cons.IH [of r1] Cons.prems(2) r1 show ?case by (simp add: u record_one_def)
qed simp

text \<open>The calls of the methods, for runs of the manager.\<close>

datatype metric_call =
    Request string string string string string duration
  | ModelLoad string string string string
  | ModelsLoaded string string int
  | QueueEnqueue int string duration
  | QueueDequeue int string
  | QueueDepth int int
  | PeerRequest string string duration
  | PeerFailure string string
  | CacheHit | CacheMiss | CacheSize int | CacheEviction
  | BreakerState string string int
  | BreakerTrip string string
  | Tokens string string int
  | TokensPerSecond string string real
  | VRAMUsage string string int
  | GPUUtilization string string real
  | ModelSwitch
  | Collect string "string list" "string list" "ModelRegistry option option"

primrec updates_of :: "metric_call \<Rightarrow> metric_update list" where
  "updates_of (Request m p s pr ro d) = RecordRequest m p s pr ro d"
| "updates_of (ModelLoad m p n s) = RecordModelLoad m p n s"
| "updates_of (ModelsLoaded n p c) = UpdateModelsLoaded n p c"
| "updates_of (QueueEnqueue pr j w) = RecordQueueEnqueue pr j w"
| "updates_of (QueueDequeue pr j) = RecordQueueDequeue pr j"
| "updates_of (QueueDepth pr d) = UpdateQueueDepth pr d"
| "updates_of (PeerRequest p s l) = RecordPeerRequest p s l"
| "updates_of (PeerFailure p e) = RecordPeerFailure p e"
| "updates_of CacheHit = RecordCacheHit"
| "updates_of CacheMiss = RecordCacheMiss"
| "updates_of (CacheSize n) = UpdateCacheSize n"
| "updates_of CacheEviction = RecordCacheEviction"
| "updates_of (BreakerState p e s) = UpdateCircuitBreakerState p e s"
| "updates_of (BreakerTrip p e) = RecordCircuitBreakerTrip p e"
| "updates_of (Tokens m p n) = RecordTokensGenerated m p n"
| "updates_of (TokensPerSecond m p t) = UpdateTokensPerSecond m p t"
| "updates_of (VRAMUsage p d b) = UpdateVRAMUsage p d b"
| "updates_of (GPUUtilization p d u) = UpdateGPUUtilization p d u"
| "updates_of ModelSwitch = RecordModelSwitch"
| "updates_of (Collect i ks ns hs) = collectPeriodicMetrics i ks ns hs"

lemmas method_defs = RecordRequest_def RecordModelLoad_def UpdateModelsLoaded_def RecordQueueEnqueue_def RecordQueueDequeue_def
  UpdateQueueDepth_def RecordPeerRequest_def RecordPeerFailure_def RecordCacheHit_def RecordCacheMiss_def UpdateCacheSize_def
  RecordCacheEviction_def UpdateCircuitBreakerState_def RecordCircuitBreakerTrip_def RecordTokensGenerated_def
  UpdateTokensPerSecond_def UpdateVRAMUsage_def UpdateGPUUtilization_def RecordModelSwitch_def

text \<open>The periodic collection looks for a key the registry's statistics do not have, so it never records anything.\<close>

lemma collect_never_records: "collectPeriodicMetrics i ks ns hs = []"
  by (simp add: collectPeriodicMetrics_def stats_map_def split: option.split)

fun call_ok :: "metric_call \<Rightarrow> bool" where
  "call_ok (Tokens m p n) = (0 \<le> n)"
| "call_ok _ = True"

lemma updates_ok: "call_ok c \<Longrightarrow> list_all update_ok (updates_of c)"
  by (cases c) (simp_all add: method_defs collect_never_records update_ok_def hive_metrics_def, simp_all add: metric_defs)

fun request_labels :: "metric_call \<Rightarrow> string list option" where
  "request_labels (Request m p s pr ro d) = Some [m, p, s, pr, ro]"
| "request_labels _ = None"

definition set_all :: "metric_values \<Rightarrow> metric_update list \<Rightarrow> metric_values" where
  "set_all = foldl (\<lambda>v (d, ls, x). set_value v (md_name d) ls x)"

lemma set_all_append: "set_all v (us @ ws) = set_all (set_all v us) ws"
  by (simp add: set_all_def)

lemma set_all_call:
  "set_all v (updates_of c) (md_name requestsTotal) ls =
     v (md_name requestsTotal) ls + (if request_labels c = Some ls then 1 else 0)"
  by (cases c) (auto simp: set_all_def set_value_def method_defs collect_never_records, simp_all add: metric_defs)

lemma set_all_calls:
  "set_all v (concat (map updates_of cs)) (md_name requestsTotal) ls =
     v (md_name requestsTotal) ls + real (length (filter (\<lambda>c. request_labels c = Some ls) cs))"
proof (induction cs arbitrary: v)
  case (Cons c cs)
  then show ?case by (simp add: set_all_append set_all_call)
qed (simp add: set_all_def)


lemma second_manager_panics:
  assumes "prom_ok ops desc val" "\<forall>d \<in> set hive_metrics. desc r0 (md_name d) = None" "NewMetricsManager ops r0 = Some r1"
  shows "NewMetricsManager ops r1 = None"
proof -
  have "registered desc hive_metrics r1"
    using register_all [OF assms(1) hive_metrics_plain hive_metrics_distinct assms(2)] assms(3) by (auto simp: NewMetricsManager_def)
  moreover obtain d ds where ds: "hive_metrics = d # ds" by (simp add: hive_metrics_def)
  then have "d \<in> set hive_metrics" by (metis list.set_intros(1))
  ultimately have "desc r1 (md_name d) \<noteq> None" unfolding registered_def by blast
  then have "po_register ops d r1 = None" by (rule prom_register_taken [OF assms(1)])
  moreover have "foldl (\<lambda>x d. Option.bind x (po_register ops d)) None ds = None" for ds by (induction ds) auto
  ultimately show ?thesis by (simp add: NewMetricsManager_def ds)
qed

section \<open>Witnesses\<close>

text \<open>A client that keeps its declarations and values in two functions.\<close>

definition plain_client :: "((string \<rightharpoonup> metric_desc) \<times> metric_values) prom_ops" where
  "plain_client = \<lparr>po_register = (\<lambda>d (ds, v). if ds (md_name d) = None \<and> plain_desc d then Some (ds(md_name d \<mapsto> d), v) else None),
     po_update = (\<lambda>n ls x (ds, v). if accepts (ds n) ls x then Some (ds, set_value v n ls x) else None)\<rparr>"

lemma plain_client_ok: "prom_ok plain_client fst snd"
  by (auto simp: prom_ok_def plain_client_def split: option.splits if_splits)


end
