(* ===== verification/Spec2Isabelle.thy ===== *)
theory Spec2Isabelle
  imports Cluster_Proxy Priority_Queue Circuit_Breaker Rate_Auth Response_Cache Job_Queue Model_Context Model_Registry
    Mesh_Run Telemetry Job_Stream OpenAI_Compat Hive_Lifecycle Node_Main Prom_Metrics
begin

text \<open>
  A verification library for the Ollama hive cluster. The repository holds two programs and a helper.

  \<^item> The \<^emph>\<open>cluster node\<close> (\<^verbatim>\<open>src/main.go\<close>, \<^verbatim>\<open>src/config\<close>, \<^verbatim>\<open>src/internal\<close>) keeps a table of machines that run Ollama, puts inference
    requests into a queue, chooses a machine for each and forwards it.
  \<^item> The \<^emph>\<open>node agent\<close> (\<^verbatim>\<open>src/cmd/agent\<close>) runs on each machine, registers it with the cluster node and sends heartbeats.
  \<^item> The \<^emph>\<open>hive server\<close> (\<^verbatim>\<open>src/hive-server-go\<close>) runs jobs against a local Ollama with a pool of workers, speaks the OpenAI protocol,
    keeps conversations of a coding agent and reports usage, and finds other servers to share load and models with.

  \<^bold>\<open>Theories and sources.\<close> \<open>Hive_Prelude\<close> has what all share: Go's integers, strings and range loops, decoded JSON, and the interfaces
  that several components implement, as locales: \<open>capped_log\<close> (a log of the newest entries), \<open>priority_fifo\<close> (a queue by priority and
  arrival), \<open>map_sweeper\<close> (a table swept of stale entries), \<open>invariant_system\<close> (a step relation with an invariant). Each is
  interpreted on the components that provide it.

  Cluster node: \<open>Req_Queue\<close> (\<^verbatim>\<open>internal/queue\<close>), \<open>Cluster_Manager\<close> (\<^verbatim>\<open>internal/cluster\<close>), \<open>Load_Balancer\<close> (\<^verbatim>\<open>internal/balancer\<close>), \<open>Cluster_Proxy\<close>
  (\<^verbatim>\<open>internal/proxy\<close>, \<^verbatim>\<open>internal/api\<close>), \<open>Node_Agent\<close> (\<^verbatim>\<open>cmd/agent\<close>), \<open>Node_Main\<close> (\<^verbatim>\<open>main.go\<close>, \<^verbatim>\<open>config\<close>).

  Hive server: \<open>Job_Model\<close> (data of \<^verbatim>\<open>queue.go\<close>, \<^verbatim>\<open>priority_queue.go\<close>, \<^verbatim>\<open>helpers.go\<close>, \<^verbatim>\<open>reporting.go\<close>), \<open>Priority_Queue\<close>
  (\<^verbatim>\<open>priority_queue.go\<close>), \<open>Circuit_Breaker\<close> (\<^verbatim>\<open>circuit_breaker.go\<close>), \<open>Rate_Auth\<close> (\<^verbatim>\<open>auth.go\<close>), \<open>Response_Cache\<close> (\<^verbatim>\<open>cache.go\<close>), \<open>Job_Queue\<close>
  (\<^verbatim>\<open>queue.go\<close>), \<open>Model_Context\<close> (\<^verbatim>\<open>model_context.go\<close>), \<open>Model_Registry\<close> (\<^verbatim>\<open>model_registry.go\<close>), \<open>Mesh\<close> and \<open>Mesh_Run\<close> (\<^verbatim>\<open>mesh.go\<close>), \<open>Telemetry\<close>
  (\<^verbatim>\<open>logs.go\<close>, \<^verbatim>\<open>metrics.go\<close>), \<open>Job_Stream\<close> (\<^verbatim>\<open>stream.go\<close>), \<open>Usage_DB\<close> and \<open>Agent_DB\<close> (\<^verbatim>\<open>db.go\<close>), \<open>Coding_Agent\<close> (\<^verbatim>\<open>coding_agent.go\<close>),
  \<open>Provider\<close> (\<^verbatim>\<open>provider.go\<close>), \<open>Hive_Server\<close> (\<^verbatim>\<open>handlers.go\<close>), \<open>Hive_Routes\<close> (its route table), \<open>OpenAI_Compat\<close> (\<^verbatim>\<open>openai_compat.go\<close>), \<open>Audit_Trail\<close> (\<^verbatim>\<open>audit.go\<close>), \<open>Hive_Main\<close>
  (\<^verbatim>\<open>main.go\<close>, \<^verbatim>\<open>config.go\<close>, \<^verbatim>\<open>hardware.go\<close>), \<open>Hive_Lifecycle\<close> (start, signal and shutdown in \<^verbatim>\<open>main.go\<close> and \<^verbatim>\<open>handlers.go\<close>), \<open>Prom_Metrics\<close> (\<^verbatim>\<open>metrics_prometheus.go\<close>).

  \<^bold>\<open>How the code is modelled.\<close> A structure is a record with the source's fields behind a short prefix, a method a function on the record.
  A mutex makes a method one step; where the code releases it in the middle (a worker waiting for Ollama, a publisher
  sending, the audit loop writing, a handler waiting for the upstream node) the method is split there and a step relation
  interleaves the parts. Structures shared by pointer live in an explicit heap (requests, jobs, cache entries, clients), and Go slices
  that share an array do so in \<open>Job_Stream\<close>. Errors are values of a sum or an option; a panic is a value as well. Clocks, random
  numbers, the order in which a map is visited, replies of other processes, JSON and YAML readers, the database's errors and the order it
  gives equal rows are arguments, with their documented contract as a named hypothesis where a theorem needs it (\<open>sort_Slice_ok\<close>,
  \<open>Intn_ok\<close>, \<open>ristretto_ok\<close>, \<open>sql_order_ok\<close>, \<open>codec_ok\<close>, \<open>prom_ok\<close>, \<open>ranges\<close>). A \<^verbatim>\<open>float64\<close> is a real number.

  \<^bold>\<open>What is shown.\<close>
  \<^item> Queues: both priority queues insert as a stable sort and serve the most urgent first; no waiting worker misses a
    wake-up; jobs are neither lost nor run twice over all interleavings, and no more run at once than configured.
  \<^item> Choosing: the balancer returns a healthy node with a free slot, the least loaded one under its default strategy; the mesh
    returns its best living peer, and never drops one it hears of in time; model selection returns a model that is there.
  \<^item> Protection: the rate limiter admits no more than its rate in a window, the API key guards every path but the public ones,
    breakers open and close when they should.
  \<^item> Accounting: the token counts of a conversation, the totals and histogram of the usage reports and the limit of clients hold
    after every sequence of operations; the audit trail loses no event and every audited request has its pair of events.
  \<^item> Composition: an agent keeps its node healthy through lost messages, a request to a freshly started cluster is answered by the
    agent's Ollama, a beacon carries a server's state to the others, the node as a whole refines its manager, a forwarded job's result comes back, the routes of the hive server register
    without a conflict and send every request to one handler; when the hive server's process ends on a signal, no job is cut off.
  \<^item> Failures of the code to do what it means to are theorems too: a queue that is never drained, a peer that never dies, a node that is
    never taken back, a configuration file that opens the server, a job forwarded to a server with a key, a queue that
    is stopped twice.

  \<^bold>\<open>Bounds and fuel.\<close> Loops over data are structural recursion or have a termination proof. The registration loop runs at most five
  times, as in the source; waiting for a forwarded job takes the replies to its polls as a list, and the event streams their
  ticks. \<open>audit_loop_drains\<close> bounds the steps of the background loop. No theorem says only what holds if a loop ends.

  \<^bold>\<open>Not modelled.\<close> Sockets; log lines and colours; static pages (\<^verbatim>\<open>dashboard.go\<close>, \<^verbatim>\<open>web\<close>); opening
  and migrating the database; rounding of floating-point numbers; the third-party libraries (ristretto, YAML, SQLite,
  Prometheus), which are arguments. The package \<^verbatim>\<open>hive-server-go\<close> does not compile as it stands: where a handler calls a
  method its type does not have, the method of the queue of \<^verbatim>\<open>queue.go\<close> is meant.
\<close>

end
